(* ===== verification/Prelude.thy ===== *)
theory Prelude
  imports Main "HOL-Library.Word" "HOL-Library.Multiset"
begin

unbundle bit_operations_syntax

text \<open>
  Shared foundations of the development: the machine integers of the C and C++ sources, the
  error numbers the code returns, reachability in a step relation with the invariant rule every
  state machine of the development uses, and the model of calls into code that is not part of
  the repository. Such a call is an event; the parameter \<open>env\<close> (type \<open>environ\<close>) decides its
  result from the whole history of earlier events, and the history is the observable trace of
  the function that made the calls.
\<close>

section \<open>Machine integers\<close>

type_synonym u8 = "8 word"
type_synonym u16 = "16 word"
type_synonym u32 = "32 word"
type_synonym u64 = "64 word"

lemma u64_eq_iff: "(x :: u64) = y \<longleftrightarrow> (\<forall>n < 64. bit x n = bit y n)"
  by (auto intro: bit_word_eqI)

lemma unat_u32_of_nat: "n < 2 ^ 32 \<Longrightarrow> unat (of_nat n :: u32) = n"
  by (simp add: unat_of_nat take_bit_nat_eq_self)

named_theorems mesh_defs \<open>definitions a component's proofs unfold\<close>
named_theorems call_simps \<open>what one external call does to the trace\<close>

section \<open>Error numbers\<close>

text \<open>The values of the Linux \<open>errno\<close> constants the sources return (negated).\<close>

definition ENOENT :: int where "ENOENT = 2"
definition EAGAIN :: int where "EAGAIN = 11"
definition ENOMEM :: int where "ENOMEM = 12"
definition EEXIST :: int where "EEXIST = 17"
definition EINVAL :: int where "EINVAL = 22"
definition ENODATA :: int where "ENODATA = 61"
definition ETIMEDOUT :: int where "ETIMEDOUT = 110"
definition ECANCELED :: int where "ECANCELED = 125"

lemmas errno_defs = ENOENT_def EAGAIN_def ENOMEM_def EEXIST_def EINVAL_def ENODATA_def
  ETIMEDOUT_def ECANCELED_def

section \<open>Reachability and invariants\<close>

inductive reach :: "('s \<Rightarrow> bool) \<Rightarrow> ('s \<Rightarrow> 'l \<Rightarrow> 's \<Rightarrow> bool) \<Rightarrow> 's \<Rightarrow> bool"
  for I :: "'s \<Rightarrow> bool" and R :: "'s \<Rightarrow> 'l \<Rightarrow> 's \<Rightarrow> bool" where
  reach_init: "I s \<Longrightarrow> reach I R s"
| reach_step: "reach I R s \<Longrightarrow> R s l t \<Longrightarrow> reach I R t"

inductive steps :: "('s \<Rightarrow> 'l \<Rightarrow> 's \<Rightarrow> bool) \<Rightarrow> 's \<Rightarrow> 'l list \<Rightarrow> 's \<Rightarrow> bool"
  for R :: "'s \<Rightarrow> 'l \<Rightarrow> 's \<Rightarrow> bool" where
  steps_nil: "steps R s [] s"
| steps_cons: "R s l t \<Longrightarrow> steps R t ls u \<Longrightarrow> steps R s (l # ls) u"

inductive_cases steps_nilE: "steps R s [] u"
inductive_cases steps_consE: "steps R s (l # ls) u"

lemma reach_steps: "steps R s ls u \<Longrightarrow> reach I R s \<Longrightarrow> reach I R u"
  by (induction rule: steps.induct) (auto intro: reach_step)

text \<open>
  The contract of an inductive invariant: it holds at the start and every step keeps it. Each
  state machine of the development interprets this locale with its own relation.
\<close>

locale inductive_invariant =
  fixes I :: "'s \<Rightarrow> bool"
    and R :: "'s \<Rightarrow> 'l \<Rightarrow> 's \<Rightarrow> bool"
    and inv :: "'s \<Rightarrow> bool"
  assumes inv_init: "I s \<Longrightarrow> inv s"
    and inv_step: "inv s \<Longrightarrow> R s l t \<Longrightarrow> inv t"
begin

lemma inv_reach: "reach I R s \<Longrightarrow> inv s"
  by (induction rule: reach.induct) (auto intro: inv_init inv_step)

lemma inv_steps: "steps R s ls t \<Longrightarrow> inv s \<Longrightarrow> inv t"
  by (induction rule: steps.induct) (auto intro: inv_step)

text \<open>A fact one step keeps, given the invariant, holds along every run of such steps.\<close>

lemma preserved_along:
  assumes "steps R s ls t" and "inv s" and "Q s"
    and "\<And>a l b. l \<in> set ls \<Longrightarrow> R a l b \<Longrightarrow> inv a \<Longrightarrow> Q a \<Longrightarrow> Q b"
  shows "Q t"
  using assms
proof (induction rule: steps.induct)
  case (steps_nil s)
  then show ?case by simp
next
  case (steps_cons s l t ls u)
  from steps_cons.hyps(1) steps_cons.prems(1) have "inv t" by (rule inv_step [rotated])
  moreover have "Q t" using steps_cons.prems steps_cons.hyps(1) by auto
  ultimately show ?case using steps_cons.IH steps_cons.prems(3) by auto
qed

end

section \<open>Calls into code outside the repository\<close>

type_synonym ('c, 'r) trace = "('c \<times> 'r) list"
type_synonym ('c, 'r) environ = "('c, 'r) trace \<Rightarrow> 'c \<Rightarrow> 'r"

definition ext_call :: "('c, 'r) environ \<Rightarrow> 'c \<Rightarrow> ('c, 'r) trace \<Rightarrow> 'r \<times> ('c, 'r) trace" where
  "ext_call env c tr = (env tr c, tr @ [(c, env tr c)])"

lemma ext_call_simps [call_simps, simp]:
  "fst (ext_call env c tr) = env tr c"
  "snd (ext_call env c tr) = tr @ [(c, env tr c)]"
  by (simp_all add: ext_call_def)

text \<open>A ledger sums a quantity over the events of a trace; \<open>handle h\<close> is the resource a pointer
  or descriptor stands for, none if it is NULL.\<close>

definition ledger :: "('e \<Rightarrow> 'a multiset) \<Rightarrow> 'e list \<Rightarrow> 'a multiset" where
  "ledger f tr = \<Sum>\<^sub># (mset (map f tr))"

lemma ledger_simps [simp]:
  "ledger f [] = {#}" "ledger f (tr @ tr') = ledger f tr + ledger f tr'"
  "ledger f (e # tr) = f e + ledger f tr"
  by (simp_all add: ledger_def)

definition handle :: "nat \<Rightarrow> nat multiset" where
  "handle h = (if h = 0 then {#} else {#h#})"

lemma handle_simps [simp]: "handle 0 = {#}" "h \<noteq> 0 \<Longrightarrow> handle h = {#h#}"
  by (simp_all add: handle_def)

end
