(* ===== verification/Fabric_Base.thy ===== *)
theory Fabric_Base
  imports Prelude
begin

text \<open>
  Data shared by the models of the media proxy's libfabric layer (media-proxy/src/libfabric_*.c):
  the structs of include/libfabric_dev.h, libfabric_cq.h and libfabric_ep.h, and the calls the
  layer makes into libfabric, librdmacm and libc. libfabric is not part of the repository: its
  calls are events decided by an environment, its constants are fields of the parameter
  \<open>fi_consts\<close> with the documented facts about them in \<open>fi_consts_ok\<close>. A pointer or handle is a
  number, 0 is NULL. A call writes its out-parameter only when it succeeds.
\<close>

section \<open>Constants of libfabric\<close>

text \<open>Capability, mode and memory-registration flags are single bits; the record holds their
  positions. Error numbers and enumeration values are integers.\<close>

record fi_consts =
  p_msg :: nat
  p_rma :: nat
  p_tagged :: nat
  p_atomic :: nat
  p_read :: nat
  p_write :: nat
  p_recv :: nat
  p_send :: nat
  p_remote_read :: nat
  p_remote_write :: nat
  p_local_mr :: nat
  p_mr_local :: nat
  p_mr_endpoint :: nat
  p_mr_allocated :: nat
  p_mr_virt_addr :: nat
  p_mr_prov_key :: nat
  p_local_comm :: nat
  p_source :: nat
  p_hmem_device_only :: nat
  p_mr_dmabuf :: nat
  c_eavail :: int
  c_addr_unspec :: u64
  c_ep_rdm :: int
  c_ep_dgram :: int
  c_av_unspec :: int
  c_av_map :: int
  c_sockaddr_in :: int

definition flag :: "nat \<Rightarrow> u64" where
  "flag p = push_bit p 1"

definition cap_positions :: "fi_consts \<Rightarrow> nat list" where
  "cap_positions K = [p_msg K, p_rma K, p_tagged K, p_atomic K, p_read K, p_write K, p_recv K,
     p_send K, p_remote_read K, p_remote_write K, p_local_comm K, p_source K]"

definition mr_mode_positions :: "fi_consts \<Rightarrow> nat list" where
  "mr_mode_positions K =
     [p_mr_local K, p_mr_endpoint K, p_mr_allocated K, p_mr_virt_addr K, p_mr_prov_key K]"

definition fi_consts_ok :: "fi_consts \<Rightarrow> bool" where
  "fi_consts_ok K \<longleftrightarrow>
     distinct (cap_positions K) \<and> list_all (\<lambda>p. p < 64) (cap_positions K) \<and>
     distinct (mr_mode_positions K) \<and> list_all (\<lambda>p. p < 64) (mr_mode_positions K) \<and>
     p_local_mr K < 64 \<and> c_eavail K > 0 \<and> c_eavail K \<noteq> EAGAIN \<and> c_ep_rdm K \<noteq> c_ep_dgram K"

text \<open>The values of libfabric 2.0's public headers, used to show that \<open>fi_consts_ok\<close> can hold.\<close>

definition libfabric_2_0 :: fi_consts where
  "libfabric_2_0 = \<lparr>p_msg = 1, p_rma = 2, p_tagged = 3, p_atomic = 4, p_read = 8, p_write = 9,
     p_recv = 10, p_send = 11, p_remote_read = 12, p_remote_write = 13, p_local_mr = 55,
     p_mr_local = 2, p_mr_endpoint = 7, p_mr_allocated = 5, p_mr_virt_addr = 4, p_mr_prov_key = 6,
     p_local_comm = 44, p_source = 57, p_hmem_device_only = 36, p_mr_dmabuf = 40, c_eavail = 259,
     c_addr_unspec = -1, c_ep_rdm = 3, c_ep_dgram = 2, c_av_unspec = 0, c_av_map = 1, c_sockaddr_in = 2\<rparr>"

lemma libfabric_2_0_ok: "fi_consts_ok libfabric_2_0"
  by (simp add: fi_consts_ok_def cap_positions_def mr_mode_positions_def libfabric_2_0_def
      EAGAIN_def)

lemma bit_flag [simp]: "bit (flag p) n \<longleftrightarrow> n = p \<and> p < 64"
  by (auto simp: flag_def bit_simps)

lemma and_flag_nonzero: "p < 64 \<Longrightarrow> x AND flag p \<noteq> 0 \<longleftrightarrow> bit x p"
  by (auto simp: u64_eq_iff bit_simps)

lemma and_or_nonzero: "x AND (a OR b) \<noteq> 0 \<longleftrightarrow> x AND a \<noteq> 0 \<or> x AND b \<noteq> (0::u64)"
  by (auto simp: u64_eq_iff bit_simps)

section \<open>Structs\<close>

record fi_info =
  caps :: u64
  fi_mode :: u64
  mr_mode :: u64
  info_ep_type :: int
  info_av_type :: int
  tx_size :: nat
  dest_addr :: nat

datatype conn_kind = FI_KIND_UNDEFINED | FI_KIND_TRANSMITTER | FI_KIND_RECEIVER

text \<open>\<open>ctx_self\<close> is the address of the struct itself, which \<open>rdma_init\<close> and \<open>rdma_deinit\<close> free.\<close>

record libfabric_ctx =
  ctx_self :: nat
  fabric :: nat
  domain :: nat
  info_ptr :: nat
  info :: fi_info
  ctx_kind :: conn_kind
  local_ip :: string
  remote_ip :: string
  local_port :: string
  remote_port :: string
  is_initialized :: bool
  ep_attr_type :: int
  addr_format :: int
  provider_name :: "string option"

datatype cq_comp_method =
  RDMA_COMP_SPIN | RDMA_COMP_SREAD | RDMA_COMP_WAITSET | RDMA_COMP_WAIT_FD | RDMA_COMP_YIELD

text \<open>The three functions \<open>cq_ctx.eq_read\<close> may point to.\<close>

datatype eq_read_fn = EqNull | RdmaWaitForComp | RdmaFdwaitForComp | RdmaSpinForComp

record cq_ctx_t =
  cq :: nat
  waitset :: nat
  cq_cntr :: u64
  cq_fd :: int
  eq_read :: eq_read_fn
  external :: bool

text \<open>\<open>ep_self\<close> is the address of the struct itself, which \<open>ep_reg_mr\<close> uses as a key.\<close>

record ep_ctx_t =
  ep_self :: nat
  ep :: nat
  av :: nat
  data_mr :: nat
  data_desc :: nat
  dest_av_entry :: u64
  cq_ctx :: cq_ctx_t
  ep_rdma_ctx :: libfabric_ctx
  stop_flag :: bool

datatype direction = TX | RX

record rdma_addr =
  addr_ip :: string
  addr_port :: string

record ep_cfg_t =
  cfg_rdma_ctx :: "libfabric_ctx option"
  remote_addr :: rdma_addr
  local_addr :: rdma_addr
  dir :: direction
  shared_rx_cq :: nat

section \<open>Calls\<close>

datatype wait_obj = FI_WAIT_NONE | FI_WAIT_UNSPEC | FI_WAIT_SET | FI_WAIT_FD | FI_WAIT_YIELD

datatype hmem_iface = FI_HMEM_SYSTEM | FI_HMEM_CUDA | FI_HMEM_ZE | FI_HMEM_NEURON

datatype mr_device = NeuronDev u64 | ZeDev nat u64 | CudaDev u64

record mr_attr =
  mr_iov :: "(nat \<times> nat) option"
  mr_dmabuf :: bool
  iov_count :: nat
  mr_access :: u64
  mr_offset :: nat
  requested_key :: u64
  mr_iface :: hmem_iface
  mr_dev :: "mr_device option"

text \<open>The \<open>fi_info\<close> that \<open>rdma_init\<close> fills in as hints: the attributes it sets and the pointers
  \<open>rdma_freehints\<close> frees.\<close>

record fi_hints =
  h_self :: nat
  h_tx_attr :: nat
  h_rx_attr :: nat
  h_dom_name :: nat
  h_fab_name :: nat
  h_prov_ptr :: nat
  h_prov_name :: "string option"
  h_ep_type :: int
  h_rxm :: bool
  h_addr_in :: bool
  h_av_unspec :: bool
  h_mr_mode :: u64
  h_caps :: u64
  h_progress_auto :: bool
  h_tx_size :: nat
  h_rx_size :: nat
  h_bulk_data :: bool
  h_rm_enabled :: bool
  h_opt_endpoint :: bool
  h_thread_unspec :: bool
  h_src_addr :: nat
  h_dest_addr :: nat

datatype fab_call =
    FiEndpoint nat nat | FiClose nat | FiCqOpen nat nat wait_obj | FiGetWait nat
  | FiAvOpen nat int nat | FiEpBind nat nat bool | FiEnable nat | FiAvInsert nat nat nat
  | FiMrRegattr nat mr_attr u64 | FiMrDesc nat | FiMrBind nat nat | FiMrEnable nat
  | FiSend nat nat nat nat u64 | FiRecv nat nat nat nat nat
  | FiCqRead nat nat | FiCqSread nat int | FiCqReaderr nat | FiTrywait nat nat
  | Poll int int | ClockMono | Usleep nat | ReadStop
  | Calloc | Malloc nat | Free nat
  | Strdup string
  | FiAllocinfo | FiFreeinfo nat | FiGetinfo string string bool fi_hints
  | FiFabric nat | FiDomain nat nat
  | RdmaGetaddrinfo string string | RdmaFreeaddrinfo nat
  | FiDupinfo nat | AlignedAlloc nat nat | StartThread | JoinThread | CtxCancelled

text \<open>The calls of the last line are those of the RDMA connection classes (theory \<open>Rdma_Conn\<close>).
  What a call returns: its return value, the pointer written to its out-parameter, a further
  output value (errno, an operation context, seconds of a clock), the address lengths of a
  resolved address, the contents of an \<open>fi_info\<close> and the addresses of the transmit and receive
  attributes of an allocated one.\<close>

record fab_res =
  ret :: int
  out :: nat
  val :: int
  src_len :: nat
  dst_len :: nat
  out_info :: fi_info
  out_tx_attr :: nat
  out_rx_attr :: nat

type_synonym fab_trace = "(fab_call, fab_res) trace"
type_synonym fab_env = "(fab_call, fab_res) environ"

section \<open>Resource accounting\<close>

text \<open>Handles a trace opened with \<open>fi_close\<close> as their destructor, and handles it closed.\<close>

fun is_open :: "fab_call \<Rightarrow> bool" where
  "is_open (FiEndpoint _ _) = True"
| "is_open (FiCqOpen _ _ _) = True"
| "is_open (FiAvOpen _ _ _) = True"
| "is_open (FiMrRegattr _ _ _) = True"
| "is_open (FiFabric _) = True"
| "is_open (FiDomain _ _) = True"
| "is_open _ = False"

fun ev_opened :: "fab_call \<times> fab_res \<Rightarrow> nat multiset" where
  "ev_opened (c, r) = (if is_open c \<and> ret r = 0 then {#out r#} else {#})"

fun ev_closed :: "fab_call \<times> fab_res \<Rightarrow> nat multiset" where
  "ev_closed (FiClose h, r) = {#h#}"
| "ev_closed _ = {#}"

definition opened :: "fab_trace \<Rightarrow> nat multiset" where
  "opened tr = ledger ev_opened tr"

definition closed :: "fab_trace \<Rightarrow> nat multiset" where
  "closed tr = ledger ev_closed tr"

lemma opened_simps [simp]:
  "opened [] = {#}" "opened (tr @ tr') = opened tr + opened tr'"
  "opened (e # tr) = ev_opened e + opened tr"
  by (simp_all add: opened_def)

lemma closed_simps [simp]:
  "closed [] = {#}" "closed (tr @ tr') = closed tr + closed tr'"
  "closed (e # tr) = ev_closed e + closed tr"
  by (simp_all add: closed_def)

text \<open>libfabric's documented promise about handles: a successful open yields a non-null one.\<close>

definition valid_handles :: "fab_env \<Rightarrow> bool" where
  "valid_handles env \<longleftrightarrow> (\<forall>tr c. is_open c \<and> ret (env tr c) = 0 \<longrightarrow> out (env tr c) \<noteq> 0)"

definition close_fid :: "fab_env \<Rightarrow> nat \<Rightarrow> fab_trace \<Rightarrow> nat \<times> fab_trace" where
  "close_fid env h tr =
     (if h \<noteq> 0 then (0, snd (ext_call env (FiClose h) tr)) else (h, tr))"

lemma close_fid_simps [simp]:
  "fst (close_fid env h tr) = 0"
  "opened (snd (close_fid env h tr)) = opened tr"
  "closed (snd (close_fid env h tr)) = closed tr + handle h"
  by (auto simp: close_fid_def)

end
