(* ===== verification/Fabric_Cq.thy ===== *)
theory Fabric_Cq
  imports Fabric_Base
begin

text \<open>
  Completion queues, media-proxy/src/libfabric_cq.c: opening a queue for a completion method,
  the three ways to wait for one completion, and \<open>rdma_read_cq\<close>, which dispatches through the
  function pointer \<open>cq_ctx.eq_read\<close>. The spinning reader may run forever, so it takes fuel and
  \<open>None\<close> is "has not returned"; a completion entry is the operation context it carries
  (\<open>None\<close>: the entry was not written).
\<close>

section \<open>Waiting for a completion\<close>

definition count_completion :: "ep_ctx_t \<Rightarrow> ep_ctx_t" where
  "count_completion c = c\<lparr>cq_ctx := (cq_ctx c)\<lparr>cq_cntr := cq_cntr (cq_ctx c) + 1\<rparr>\<rparr>"

text \<open>\<open>rdma_cq_set_wait_attr\<close>: \<open>None\<close> is the failed assertion on a missing wait set.\<close>

definition rdma_cq_set_wait_attr :: "cq_comp_method \<Rightarrow> nat \<Rightarrow> wait_obj option" where
  "rdma_cq_set_wait_attr method ws = (case method of
      RDMA_COMP_SREAD \<Rightarrow> Some FI_WAIT_UNSPEC
    | RDMA_COMP_WAITSET \<Rightarrow> if ws = 0 then None else Some FI_WAIT_SET
    | RDMA_COMP_WAIT_FD \<Rightarrow> Some FI_WAIT_FD
    | RDMA_COMP_YIELD \<Rightarrow> Some FI_WAIT_YIELD
    | RDMA_COMP_SPIN \<Rightarrow> Some FI_WAIT_NONE)"

type_synonym comp_result = "(int \<times> int option) \<times> ep_ctx_t \<times> fab_trace"

fun spin_loop :: "fab_env \<Rightarrow> nat \<Rightarrow> int \<Rightarrow> int \<Rightarrow> ep_ctx_t \<Rightarrow> fab_trace \<Rightarrow> comp_result option" where
  "spin_loop env 0 timeout start c tr = None"
| "spin_loop env (Suc fuel) timeout start c tr =
     (let (r, tr) = ext_call env (FiCqRead (cq (cq_ctx c)) 1) tr in
      if ret r > 0 then Some ((0, Some (val r)), count_completion c, tr)
      else if ret r < 0 \<and> ret r \<noteq> - EAGAIN then Some ((ret r, None), c, tr)
      else if timeout > 0 then
        (let (now, tr) = ext_call env ClockMono tr in
         if val now - start > timeout then Some ((- ENODATA, None), c, tr)
         else spin_loop env fuel timeout start c tr)
      else if timeout = 0 then Some ((- ENODATA, None), c, tr)
      else spin_loop env fuel timeout start c tr)"

definition rdma_spin_for_comp ::
  "fab_env \<Rightarrow> nat \<Rightarrow> ep_ctx_t \<Rightarrow> int \<Rightarrow> fab_trace \<Rightarrow> comp_result option" where
  "rdma_spin_for_comp env fuel c timeout tr =
     (if timeout > 0 then
        (let (s, tr) = ext_call env ClockMono tr in spin_loop env fuel timeout (val s) c tr)
      else spin_loop env fuel timeout 0 c tr)"

definition rdma_poll_fd :: "fab_env \<Rightarrow> int \<Rightarrow> int \<Rightarrow> fab_trace \<Rightarrow> int \<times> fab_trace" where
  "rdma_poll_fd env fd timeout tr =
     (let (r, tr) = ext_call env (Poll fd timeout) tr in
      (if ret r = -1 then - val r else if ret r = 0 then - EAGAIN else 0, tr))"

definition rdma_fdwait_for_comp ::
  "fab_env \<Rightarrow> ep_ctx_t \<Rightarrow> int \<Rightarrow> fab_trace \<Rightarrow> comp_result" where
  "rdma_fdwait_for_comp env c timeout tr =
     (let (t, tr) = ext_call env (FiTrywait (fabric (ep_rdma_ctx c)) (cq (cq_ctx c))) tr;
          (p, tr) = (if ret t = 0 then rdma_poll_fd env (cq_fd (cq_ctx c)) timeout tr else (0, tr))
      in if p \<noteq> 0 then ((p, None), c, tr) else
        let (r, tr) = ext_call env (FiCqRead (cq (cq_ctx c)) 1) tr in
        if ret r > 0 then ((0, Some (val r)), count_completion c, tr)
        else if ret r < 0 then ((ret r, None), c, tr)
        else ((0, None), c, tr))"

definition rdma_wait_for_comp ::
  "fab_env \<Rightarrow> ep_ctx_t \<Rightarrow> int \<Rightarrow> fab_trace \<Rightarrow> comp_result" where
  "rdma_wait_for_comp env c timeout tr =
     (let (r, tr) = ext_call env (FiCqSread (cq (cq_ctx c)) timeout) tr in
      if ret r > 0 then ((0, Some (val r)), count_completion c, tr)
      else if ret r < 0 then ((ret r, None), c, tr)
      else ((0, None), c, tr))"

definition rdma_cq_readerr :: "fab_env \<Rightarrow> nat \<Rightarrow> fab_trace \<Rightarrow> int \<times> fab_trace" where
  "rdma_cq_readerr env q tr =
     (let (r, tr) = ext_call env (FiCqReaderr q) tr in
      (if ret r < 0 then ret r else - val r, tr))"

definition read_after_error ::
  "fi_consts \<Rightarrow> fab_env \<Rightarrow> comp_result \<Rightarrow> comp_result" where
  "read_after_error K env res = (case res of ((r, e), c, tr) \<Rightarrow>
     if r = - c_eavail K then
       (let (r', tr) = rdma_cq_readerr env (cq (cq_ctx c)) tr in ((r', e), count_completion c, tr))
     else ((r, e), c, tr))"

definition rdma_read_cq ::
  "fi_consts \<Rightarrow> fab_env \<Rightarrow> nat \<Rightarrow> ep_ctx_t \<Rightarrow> int \<Rightarrow> fab_trace \<Rightarrow> comp_result option" where
  "rdma_read_cq K env fuel c timeout tr = (case eq_read (cq_ctx c) of
      EqNull \<Rightarrow> None
    | RdmaWaitForComp \<Rightarrow> Some (read_after_error K env (rdma_wait_for_comp env c timeout tr))
    | RdmaFdwaitForComp \<Rightarrow> Some (read_after_error K env (rdma_fdwait_for_comp env c timeout tr))
    | RdmaSpinForComp \<Rightarrow>
        map_option (read_after_error K env) (rdma_spin_for_comp env fuel c timeout tr))"

section \<open>Opening a queue\<close>

definition select_reader :: "cq_comp_method \<Rightarrow> eq_read_fn" where
  "select_reader m = (case m of
      RDMA_COMP_SREAD \<Rightarrow> RdmaWaitForComp
    | RDMA_COMP_YIELD \<Rightarrow> RdmaWaitForComp
    | RDMA_COMP_WAIT_FD \<Rightarrow> RdmaFdwaitForComp
    | _ \<Rightarrow> RdmaSpinForComp)"

definition rdma_cq_open ::
  "fab_env \<Rightarrow> ep_ctx_t \<Rightarrow> nat \<Rightarrow> cq_comp_method \<Rightarrow> fab_trace
     \<Rightarrow> (int \<times> ep_ctx_t \<times> fab_trace) option" where
  "rdma_cq_open env c cq_size method tr =
     (case rdma_cq_set_wait_attr method 0 of
        None \<Rightarrow> None
      | Some wobj \<Rightarrow> Some
         (let sz = (if cq_size \<noteq> 0 then cq_size else tx_size (info (ep_rdma_ctx c)));
              (r, tr) = ext_call env (FiCqOpen (domain (ep_rdma_ctx c)) sz wobj) tr
          in if ret r \<noteq> 0 then (ret r, c, tr) else
            let c1 = c\<lparr>cq_ctx := (cq_ctx c)\<lparr>cq := out r\<rparr>\<rparr>;
                (err, c2, tr) =
                  (if method = RDMA_COMP_WAIT_FD then
                     (let (g, tr) = ext_call env (FiGetWait (out r)) tr in
                      (ret g, (if ret g = 0 then c1\<lparr>cq_ctx := (cq_ctx c1)\<lparr>cq_fd := val g\<rparr>\<rparr> else c1), tr))
                   else (0, c1, tr))
            in (err, c2\<lparr>cq_ctx := (cq_ctx c2)\<lparr>eq_read := select_reader method\<rparr>\<rparr>, tr)))"

section \<open>Termination of the spinning reader\<close>

text \<open>A clock that passes every value once it has been read often enough.\<close>

definition clock_reads :: "fab_trace \<Rightarrow> nat" where
  "clock_reads tr = length (filter (\<lambda>e. fst e = ClockMono) tr)"

definition clock_unbounded :: "fab_env \<Rightarrow> bool" where
  "clock_unbounded env \<longleftrightarrow> (\<forall>T. \<exists>n. \<forall>tr. n \<le> clock_reads tr \<longrightarrow> T < val (env tr ClockMono))"

lemma clock_reads_simps [simp]:
  "clock_reads [] = 0"
  "clock_reads (tr @ tr') = clock_reads tr + clock_reads tr'"
  "clock_reads ((c, r) # tr) = (if c = ClockMono then 1 else 0) + clock_reads tr"
  by (simp_all add: clock_reads_def)

lemma spin_loop_returns:
  assumes passed: "\<And>tr. n \<le> clock_reads tr \<Longrightarrow> start + timeout < val (env tr ClockMono)"
    and "0 < timeout" and "n - clock_reads tr < fuel"
  shows "spin_loop env fuel timeout start c tr \<noteq> None"
  using assms(3)
proof (induction fuel arbitrary: tr)
  case (Suc fuel)
  let ?rd = "(FiCqRead (cq (cq_ctx c)) 1, env tr (FiCqRead (cq (cq_ctx c)) 1))"
  let ?tr1 = "tr @ [?rd]"
  let ?tr2 = "?tr1 @ [(ClockMono, env ?tr1 ClockMono)]"
  have late: "start + timeout < val (env ?tr1 ClockMono)" if "n \<le> clock_reads tr"
    using passed [of ?tr1] that by simp
  have "spin_loop env fuel timeout start c ?tr2 \<noteq> None" if "\<not> n \<le> clock_reads tr"
    by (rule Suc.IH) (use Suc.prems that in simp)
  with late \<open>0 < timeout\<close> show ?case
    by (cases "n \<le> clock_reads tr") (auto simp: ext_call_def Let_def)
qed simp

text \<open>
  C7. The spinning completion reader returns for every non-negative timeout, whatever the
  completion queue answers, provided the monotonic clock keeps advancing; with a zero timeout it
  returns after a single poll.
\<close>

theorem rdma_spin_for_comp_returns:
  assumes "clock_unbounded env" and "0 \<le> timeout"
  shows "\<exists>fuel res. rdma_spin_for_comp env fuel c timeout tr = Some res"
proof (cases "timeout = 0")
  case True
  then have "rdma_spin_for_comp env 1 c timeout tr \<noteq> None"
    by (auto simp: rdma_spin_for_comp_def ext_call_def Let_def)
  then show ?thesis by blast
next
  case False
  let ?s = "env tr ClockMono" and ?tr = "tr @ [(ClockMono, env tr ClockMono)]"
  obtain n where n: "\<And>tr. n \<le> clock_reads tr \<Longrightarrow> val ?s + timeout < val (env tr ClockMono)"
    using assms(1) unfolding clock_unbounded_def by blast
  have "spin_loop env (Suc n) timeout (val ?s) c ?tr \<noteq> None"
    by (rule spin_loop_returns [of n "val ?s" timeout env, OF n]) (use False assms(2) in auto)
  moreover have "rdma_spin_for_comp env (Suc n) c timeout tr =
      spin_loop env (Suc n) timeout (val ?s) c ?tr"
    using False assms(2) by (simp add: rdma_spin_for_comp_def ext_call_def del: spin_loop.simps)
  ultimately show ?thesis by (metis option.exhaust)
qed

definition res0 :: fab_res where
  "res0 = \<lparr>ret = 0, out = 0, val = 0, src_len = 0, dst_len = 0,
     out_info = \<lparr>caps = 0, fi_mode = 0, mr_mode = 0, info_ep_type = 0, info_av_type = 0,
       tx_size = 0, dest_addr = 0\<rparr>, out_tx_attr = 0, out_rx_attr = 0\<rparr>"

definition rdma_ctx0 :: libfabric_ctx where
  "rdma_ctx0 = \<lparr>ctx_self = 9, fabric = 1, domain = 2, info_ptr = 3, info = out_info res0,
     ctx_kind = FI_KIND_TRANSMITTER, local_ip = ''127.0.0.1'', remote_ip = ''127.0.0.1'',
     local_port = ''8002'', remote_port = ''8003'', is_initialized = True, ep_attr_type = 3,
     addr_format = 1, provider_name = None\<rparr>"

definition ep_ctx0 :: "libfabric_ctx \<Rightarrow> ep_ctx_t" where
  "ep_ctx0 r = \<lparr>ep_self = 1, ep = 0, av = 0, data_mr = 0, data_desc = 0, dest_av_entry = 0,
     cq_ctx = \<lparr>cq = 0, waitset = 0, cq_cntr = 0, cq_fd = 0, eq_read = EqNull, external = False\<rparr>,
     ep_rdma_ctx = r, stop_flag = False\<rparr>"

text \<open>An environment in which the queue stays empty and the clock counts its readings.\<close>

definition idle_env :: fab_env where
  "idle_env tr c = (case c of
      ClockMono \<Rightarrow> res0\<lparr>val := int (clock_reads tr)\<rparr>
    | FiCqRead _ _ \<Rightarrow> res0\<lparr>ret := - EAGAIN\<rparr>
    | _ \<Rightarrow> res0)"

theorem rdma_spin_for_comp_returns_witness:
  "\<exists>fuel res. rdma_spin_for_comp idle_env fuel (ep_ctx0 rdma_ctx0) 3 [] = Some res"
proof (rule rdma_spin_for_comp_returns)
  show "clock_unbounded idle_env"
    unfolding clock_unbounded_def idle_env_def
  proof
    fix T :: int
    show "\<exists>n. \<forall>tr. n \<le> clock_reads tr \<longrightarrow>
        T < val (case ClockMono of ClockMono \<Rightarrow> res0\<lparr>val := int (clock_reads tr)\<rparr>
          | FiCqRead _ _ \<Rightarrow> res0\<lparr>ret := - EAGAIN\<rparr> | _ \<Rightarrow> res0)"
      by (rule exI [of _ "nat (T + 1)"]) (auto simp: res0_def)
  qed
qed simp

section \<open>What one read does\<close>

lemma spin_loop_result:
  assumes "spin_loop env fuel timeout start c tr = Some ((r, e), c', tr')"
  shows "if e = None then c' = c else r = 0 \<and> c' = count_completion c"
  using assms
  by (induction fuel arbitrary: tr) (auto simp: ext_call_def Let_def split: if_splits)

lemma reader_result:
  assumes "rdma_spin_for_comp env fuel c timeout tr = Some ((r, e), c', tr') \<or>
    rdma_fdwait_for_comp env c timeout tr = ((r, e), c', tr') \<or>
    rdma_wait_for_comp env c timeout tr = ((r, e), c', tr')"
  shows "if e = None then c' = c else r = 0 \<and> c' = count_completion c"
  using assms
  by (auto simp: rdma_spin_for_comp_def rdma_fdwait_for_comp_def rdma_wait_for_comp_def
      ext_call_def Let_def dest: spin_loop_result split: if_splits prod.splits)

text \<open>
  C8. Every way of reading a completion keeps the endpoint consistent: a completion entry is
  handed over only together with return value 0 and exactly one increment of \<open>cq_cntr\<close>; without
  an entry the context is unchanged, except that an error entry fetched after \<open>-FI_EAVAIL\<close> is
  counted once.
\<close>

theorem rdma_read_cq_counts:
  assumes "rdma_read_cq K env fuel c timeout tr = Some ((r, e), c', tr')" and "c_eavail K \<noteq> 0"
  shows "(c' = c \<or> c' = count_completion c) \<and> (e \<noteq> None \<longrightarrow> r = 0 \<and> c' = count_completion c)"
proof -
  obtain r0 e0 c0 tr0 where
    res: "((r, e), c', tr') = read_after_error K env ((r0, e0), c0, tr0)" and
    "rdma_spin_for_comp env fuel c timeout tr = Some ((r0, e0), c0, tr0) \<or>
     rdma_fdwait_for_comp env c timeout tr = ((r0, e0), c0, tr0) \<or>
     rdma_wait_for_comp env c timeout tr = ((r0, e0), c0, tr0)"
    using assms(1) unfolding rdma_read_cq_def
    by (auto split: eq_read_fn.splits) (metis surj_pair)+
  then have "if e0 = None then c0 = c else r0 = 0 \<and> c0 = count_completion c"
    using reader_result by blast
  with res assms(2) show ?thesis
    by (auto simp: read_after_error_def rdma_cq_readerr_def split: if_splits prod.splits)
qed

theorem rdma_read_cq_counts_witness:
  "(let c = (ep_ctx0 rdma_ctx0)\<lparr>cq_ctx := (cq_ctx (ep_ctx0 rdma_ctx0))\<lparr>eq_read := RdmaWaitForComp\<rparr>\<rparr>;
        env = (\<lambda>tr call. res0\<lparr>ret := 1, val := 77\<rparr>)
    in case rdma_read_cq libfabric_2_0 env 0 c (-1) [] of
         Some ((r, e), c', tr') \<Rightarrow> r = 0 \<and> e = Some 77 \<and> c' = count_completion c | None \<Rightarrow> False)"
proof -
  let ?c = "(ep_ctx0 rdma_ctx0)\<lparr>cq_ctx := (cq_ctx (ep_ctx0 rdma_ctx0))\<lparr>eq_read := RdmaWaitForComp\<rparr>\<rparr>"
  let ?env = "\<lambda>tr call. res0\<lparr>ret := 1, val := 77\<rparr>"
  have e: "rdma_read_cq libfabric_2_0 ?env 0 ?c (-1) [] = Some ((0, Some 77), count_completion ?c,
      [(FiCqSread (cq (cq_ctx ?c)) (-1), res0\<lparr>ret := 1, val := 77\<rparr>)])"
    by (simp add: rdma_read_cq_def read_after_error_def rdma_wait_for_comp_def ext_call_def res0_def
        libfabric_2_0_def)
  have "0 = (0::int) \<and> count_completion ?c = count_completion ?c"
    using rdma_read_cq_counts [OF e] by (simp add: libfabric_2_0_def)
  with e show ?thesis by (simp add: Let_def)
qed

end
