(* ===== verification/Fabric_Mr.thy ===== *)
theory Fabric_Mr
  imports Fabric_Base
begin

text \<open>
  Memory registration, media-proxy/src/libfabric_mr.c: which access rights an endpoint's
  capabilities require (\<open>rdma_info_to_mr_access\<close>, on 64-bit flag words), and the registration
  sequence \<open>rdma_reg_mr\<close> with every early return. The word computation is shown equal to a
  specification on sets of capabilities.
\<close>

section \<open>The functions of the source\<close>

definition rdma_fill_mr_attr ::
  "fi_consts \<Rightarrow> nat \<times> nat \<Rightarrow> nat \<Rightarrow> u64 \<Rightarrow> u64 \<Rightarrow> hmem_iface \<Rightarrow> u64 \<Rightarrow> u64 \<Rightarrow> mr_attr" where
  "rdma_fill_mr_attr K iov n access key iface device flags =
     \<lparr>mr_iov = (if flags AND flag (p_mr_dmabuf K) \<noteq> 0 then None else Some iov),
      mr_dmabuf = (flags AND flag (p_mr_dmabuf K) \<noteq> 0),
      iov_count = n, mr_access = access, mr_offset = 0, requested_key = key, mr_iface = iface,
      mr_dev = (case iface of
          FI_HMEM_NEURON \<Rightarrow> Some (NeuronDev device)
        | FI_HMEM_ZE \<Rightarrow> Some (ZeDev 0 device)
        | FI_HMEM_CUDA \<Rightarrow> Some (CudaDev device)
        | FI_HMEM_SYSTEM \<Rightarrow> None)\<rparr>"

text \<open>The result of \<open>rdma_reg_mr\<close>: its return value and what it wrote to \<open>*mr\<close> and \<open>*desc\<close>
  (\<open>None\<close>: not written).\<close>

definition rdma_reg_mr ::
  "fi_consts \<Rightarrow> fab_env \<Rightarrow> libfabric_ctx \<Rightarrow> nat \<Rightarrow> nat \<Rightarrow> nat \<Rightarrow> u64 \<Rightarrow> u64 \<Rightarrow> hmem_iface \<Rightarrow> u64
     \<Rightarrow> fab_trace \<Rightarrow> (int \<times> nat option \<times> nat option) \<times> fab_trace" where
  "rdma_reg_mr K env ctx epfid buf sz access key iface device tr =
     (let flags = (if iface \<noteq> FI_HMEM_SYSTEM then flag (p_hmem_device_only K) else 0);
          attr = rdma_fill_mr_attr K (buf, sz) 1 access key iface device flags;
          (r, tr) = ext_call env (FiMrRegattr (domain ctx) attr flags) tr
      in if ret r \<noteq> 0 then ((ret r, None, None), tr) else
        let mr = out r;
            (d, tr) = ext_call env (FiMrDesc mr) tr;
            desc = out d
        in if mr_mode (info ctx) AND flag (p_mr_endpoint K) \<noteq> 0 then
             let (b, tr) = ext_call env (FiMrBind mr epfid) tr
             in if ret b \<noteq> 0 then ((ret b, Some mr, Some desc), tr) else
               let (e, tr) = ext_call env (FiMrEnable mr) tr
               in if ret e \<noteq> 0 then ((ret e, Some mr, Some desc), tr)
                  else ((0, Some mr, Some desc), tr)
           else ((0, Some mr, Some desc), tr))"

definition rdma_rma_write_target_allowed :: "fi_consts \<Rightarrow> u64 \<Rightarrow> bool" where
  "rdma_rma_write_target_allowed K c =
     (if c AND (flag (p_rma K) OR flag (p_atomic K)) \<noteq> 0 then
        (if c AND flag (p_remote_write K) \<noteq> 0 then True
         else \<not> (c AND (flag (p_read K) OR flag (p_write K) OR flag (p_remote_write K)) \<noteq> 0))
      else False)"

definition rdma_rma_read_target_allowed :: "fi_consts \<Rightarrow> u64 \<Rightarrow> bool" where
  "rdma_rma_read_target_allowed K c =
     (if c AND (flag (p_rma K) OR flag (p_atomic K)) \<noteq> 0 then
        (if c AND flag (p_remote_read K) \<noteq> 0 then True
         else \<not> (c AND (flag (p_read K) OR flag (p_write K) OR flag (p_remote_write K)) \<noteq> 0))
      else False)"

definition rdma_check_mr_local_flag :: "fi_consts \<Rightarrow> fi_info \<Rightarrow> bool" where
  "rdma_check_mr_local_flag K i \<longleftrightarrow>
     fi_mode i AND flag (p_local_mr K) \<noteq> 0 \<or> mr_mode i AND flag (p_mr_local K) \<noteq> 0"

definition rma_flags :: "fi_consts \<Rightarrow> u64" where
  "rma_flags K = flag (p_read K) OR flag (p_write K) OR flag (p_remote_read K) OR
     flag (p_remote_write K)"

definition msg_flags :: "fi_consts \<Rightarrow> u64" where
  "msg_flags K = flag (p_send K) OR flag (p_recv K)"

definition rdma_info_to_mr_access :: "fi_consts \<Rightarrow> fi_info \<Rightarrow> u64" where
  "rdma_info_to_mr_access K i =
     (let c = caps i in
      if rdma_check_mr_local_flag K i then
        (let a = (if c AND (flag (p_msg K) OR flag (p_tagged K)) \<noteq> 0 then
                    (if c AND msg_flags K \<noteq> 0 then 0 OR (c AND msg_flags K) else 0 OR msg_flags K)
                  else 0)
         in if c AND (flag (p_rma K) OR flag (p_atomic K)) \<noteq> 0 then
              (if c AND rma_flags K \<noteq> 0 then a OR (c AND rma_flags K) else a OR rma_flags K)
            else a)
      else if c AND (flag (p_rma K) OR flag (p_atomic K)) \<noteq> 0 then
        (let a = (if rdma_rma_read_target_allowed K c then 0 OR flag (p_remote_read K) else 0)
         in if rdma_rma_write_target_allowed K c then a OR flag (p_remote_write K) else a)
      else 0)"

definition rdma_unreg_mr :: "fab_env \<Rightarrow> nat \<Rightarrow> fab_trace \<Rightarrow> fab_trace" where
  "rdma_unreg_mr env mr tr = snd (close_fid env mr tr)"

section \<open>Capabilities as sets\<close>

datatype cap = Msg | Rma | Tagged | Atomic | Read | Write | Recv | Send | RemoteRead | RemoteWrite

fun cap_pos :: "fi_consts \<Rightarrow> cap \<Rightarrow> nat" where
  "cap_pos K Msg = p_msg K"
| "cap_pos K Rma = p_rma K"
| "cap_pos K Tagged = p_tagged K"
| "cap_pos K Atomic = p_atomic K"
| "cap_pos K Read = p_read K"
| "cap_pos K Write = p_write K"
| "cap_pos K Recv = p_recv K"
| "cap_pos K Send = p_send K"
| "cap_pos K RemoteRead = p_remote_read K"
| "cap_pos K RemoteWrite = p_remote_write K"

definition caps_in :: "fi_consts \<Rightarrow> u64 \<Rightarrow> cap set" where
  "caps_in K w = {c. bit w (cap_pos K c)}"

text \<open>The access rights a set of capabilities asks for, as fi_mr(3) and fi_getinfo(3) describe
  them: naming a direction restricts the rights to it, naming none means all of them.\<close>

definition restrict_or_all :: "cap set \<Rightarrow> cap set \<Rightarrow> cap set" where
  "restrict_or_all C D = (if C \<inter> D = {} then D else C \<inter> D)"

definition rma_dirs :: "cap set" where
  "rma_dirs = {Read, Write, RemoteRead, RemoteWrite}"

definition mr_access_spec :: "bool \<Rightarrow> cap set \<Rightarrow> cap set" where
  "mr_access_spec local C =
     (if local then
        (if C \<inter> {Msg, Tagged} \<noteq> {} then restrict_or_all C {Send, Recv} else {}) \<union>
        (if C \<inter> {Rma, Atomic} \<noteq> {} then restrict_or_all C rma_dirs else {})
      else
        (if C \<inter> {Rma, Atomic} \<noteq> {}
         then restrict_or_all C rma_dirs \<inter> {RemoteRead, RemoteWrite} else {}))"

lemma cap_pos_less: "fi_consts_ok K \<Longrightarrow> cap_pos K c < 64"
  by (cases c) (simp_all add: fi_consts_ok_def cap_positions_def)

primrec cap_index :: "cap \<Rightarrow> nat" where
  "cap_index Msg = 0" | "cap_index Rma = 1" | "cap_index Tagged = 2" | "cap_index Atomic = 3"
| "cap_index Read = 4" | "cap_index Write = 5" | "cap_index Recv = 6" | "cap_index Send = 7"
| "cap_index RemoteRead = 8" | "cap_index RemoteWrite = 9"

lemma cap_pos_nth: "cap_pos K c = cap_positions K ! cap_index c" "cap_index c < length (cap_positions K)"
  by (cases c; simp add: cap_positions_def eval_nat_numeral)+

lemma cap_index_inject: "cap_index c = cap_index d \<longleftrightarrow> c = d"
  by (cases c; cases d; simp)

lemma cap_pos_inject: "fi_consts_ok K \<Longrightarrow> cap_pos K c = cap_pos K d \<longleftrightarrow> c = d"
  by (simp add: cap_pos_nth nth_eq_iff_index_eq cap_index_inject fi_consts_ok_def)

lemma flag_cap_nonzero:
  "fi_consts_ok K \<Longrightarrow> w AND flag (cap_pos K c) \<noteq> 0 \<longleftrightarrow> c \<in> caps_in K w"
  by (simp add: and_flag_nonzero cap_pos_less caps_in_def)

lemma caps_in_flag: "fi_consts_ok K \<Longrightarrow> caps_in K (flag (cap_pos K c)) = {c}"
  by (auto simp: caps_in_def cap_pos_less cap_pos_inject)

lemma caps_in_ops [simp]:
  "caps_in K (a OR b) = caps_in K a \<union> caps_in K b"
  "caps_in K (a AND b) = caps_in K a \<inter> caps_in K b"
  "caps_in K 0 = {}"
  by (auto simp: caps_in_def bit_simps)

lemmas flag_fold = cap_pos.simps [symmetric]

lemma flags_nonzero:
  assumes "fi_consts_ok K"
  shows "w AND (flag (p_msg K) OR flag (p_tagged K)) \<noteq> 0 \<longleftrightarrow> caps_in K w \<inter> {Msg, Tagged} \<noteq> {}"
    and "w AND (flag (p_rma K) OR flag (p_atomic K)) \<noteq> 0 \<longleftrightarrow> caps_in K w \<inter> {Rma, Atomic} \<noteq> {}"
    and "w AND msg_flags K \<noteq> 0 \<longleftrightarrow> caps_in K w \<inter> {Send, Recv} \<noteq> {}"
    and "w AND rma_flags K \<noteq> 0 \<longleftrightarrow> caps_in K w \<inter> rma_dirs \<noteq> {}"
  by (auto simp: msg_flags_def rma_flags_def rma_dirs_def and_or_nonzero flag_fold
      flag_cap_nonzero assms simp del: cap_pos.simps)

lemma caps_in_flags:
  assumes "fi_consts_ok K"
  shows "caps_in K (msg_flags K) = {Send, Recv}" and "caps_in K (rma_flags K) = rma_dirs"
    and "caps_in K (flag (p_remote_read K)) = {RemoteRead}"
    and "caps_in K (flag (p_remote_write K)) = {RemoteWrite}"
  by (auto simp: msg_flags_def rma_flags_def rma_dirs_def flag_fold caps_in_flag assms
      simp del: cap_pos.simps)

lemma target_allowed:
  assumes "fi_consts_ok K"
  shows "rdma_rma_read_target_allowed K w \<longleftrightarrow> caps_in K w \<inter> {Rma, Atomic} \<noteq> {} \<and>
      (RemoteRead \<in> caps_in K w \<or> caps_in K w \<inter> {Read, Write, RemoteWrite} = {})"
    and "rdma_rma_write_target_allowed K w \<longleftrightarrow> caps_in K w \<inter> {Rma, Atomic} \<noteq> {} \<and>
      (RemoteWrite \<in> caps_in K w \<or> caps_in K w \<inter> {Read, Write, RemoteWrite} = {})"
  by (auto simp: rdma_rma_read_target_allowed_def rdma_rma_write_target_allowed_def
      and_or_nonzero flag_fold flag_cap_nonzero assms simp del: cap_pos.simps)

lemma mr_access_local:
  assumes "fi_consts_ok K" "rdma_check_mr_local_flag K i"
  shows "caps_in K (rdma_info_to_mr_access K i) = mr_access_spec True (caps_in K (caps i))"
  by (simp add: rdma_info_to_mr_access_def mr_access_spec_def restrict_or_all_def Let_def
      flags_nonzero caps_in_flags assms Int_commute Un_commute)

lemma mr_access_remote:
  assumes "fi_consts_ok K" "\<not> rdma_check_mr_local_flag K i"
  shows "caps_in K (rdma_info_to_mr_access K i) =
    (if caps_in K (caps i) \<inter> {Rma, Atomic} = {} then {} else
      {d \<in> {RemoteRead, RemoteWrite}.
         d \<in> caps_in K (caps i) \<or> caps_in K (caps i) \<inter> {Read, Write, RemoteWrite} = {}})"
  by (auto simp: rdma_info_to_mr_access_def Let_def flags_nonzero caps_in_flags target_allowed
      assms)

lemma bit_flag_cap: "fi_consts_ok K \<Longrightarrow> bit (flag (cap_pos K c)) n \<longleftrightarrow> n = cap_pos K c"
  using cap_pos_less [of K c] by (auto simp: flag_def bit_simps)

lemma access_bits:
  assumes "fi_consts_ok K" and "bit (rdma_info_to_mr_access K i) n"
  shows "\<exists>c. n = cap_pos K c"
proof -
  have m: "bit (msg_flags K) n \<Longrightarrow> n = cap_pos K Send \<or> n = cap_pos K Recv"
    "bit (rma_flags K) n \<Longrightarrow> n = cap_pos K Read \<or> n = cap_pos K Write \<or> n = cap_pos K RemoteRead \<or> n = cap_pos K RemoteWrite"
    unfolding msg_flags_def rma_flags_def flag_fold by (auto simp: bit_or_iff bit_flag_cap [OF assms(1)] simp del: cap_pos.simps)
  have r: "bit (flag (p_remote_read K)) n \<Longrightarrow> n = cap_pos K RemoteRead" "bit (flag (p_remote_write K)) n \<Longrightarrow> n = cap_pos K RemoteWrite"
    unfolding flag_fold by (simp_all add: bit_flag_cap [OF assms(1)] del: cap_pos.simps)
  have "bit (msg_flags K) n \<or> bit (rma_flags K) n \<or> bit (flag (p_remote_read K)) n \<or> bit (flag (p_remote_write K)) n"
    using assms(2) by (auto simp: rdma_info_to_mr_access_def Let_def bit_or_iff bit_and_iff split: if_splits)
  then show ?thesis using m r by blast
qed

text \<open>What the code grants beyond the specification.\<close>

definition mr_access_extra :: "bool \<Rightarrow> cap set \<Rightarrow> cap set" where
  "mr_access_extra local C =
     (if \<not> local \<and> C \<inter> {Rma, Atomic} \<noteq> {} \<and> C \<inter> rma_dirs = {RemoteRead} then {RemoteWrite} else {})"

lemma mr_access_caps:
  assumes "fi_consts_ok K"
  shows "caps_in K (rdma_info_to_mr_access K i) =
    mr_access_spec (rdma_check_mr_local_flag K i) (caps_in K (caps i)) \<union>
    mr_access_extra (rdma_check_mr_local_flag K i) (caps_in K (caps i))"
proof (cases "rdma_check_mr_local_flag K i")
  case True
  then show ?thesis using mr_access_local [OF assms] by (simp add: mr_access_extra_def)
next
  case False
  have "{d \<in> {RemoteRead, RemoteWrite}. d \<in> C \<or> C \<inter> {Read, Write, RemoteWrite} = {}} =
      restrict_or_all C rma_dirs \<inter> {RemoteRead, RemoteWrite} \<union> (if C \<inter> rma_dirs = {RemoteRead} then {RemoteWrite} else {})" for C
    unfolding restrict_or_all_def rma_dirs_def by (cases "RemoteRead \<in> C") auto
  then show ?thesis using False mr_access_remote [OF assms False]
    by (simp add: mr_access_spec_def mr_access_extra_def)
qed

text \<open>
  C5. The 64-bit access word \<open>rdma_info_to_mr_access\<close> computes, for every \<open>fi_info\<close>: a bit is set if and
  only if it is the bit of a right the specification grants for the capabilities, or it is
  \<open>FI_REMOTE_WRITE\<close> in the one case in which the code grants more: without local registration, for an
  endpoint with \<open>FI_RMA\<close> or \<open>FI_ATOMIC\<close> whose only named direction is remote reading
  (\<open>rdma_rma_write_target_allowed\<close> tests \<open>FI_REMOTE_WRITE\<close> where \<open>FI_REMOTE_READ\<close> is missing).
\<close>

theorem rdma_info_to_mr_access_spec:
  assumes "fi_consts_ok K"
  shows "bit (rdma_info_to_mr_access K i) n \<longleftrightarrow>
    (\<exists>c. n = cap_pos K c \<and>
      (c \<in> mr_access_spec (rdma_check_mr_local_flag K i) (caps_in K (caps i)) \<or>
       c = RemoteWrite \<and> \<not> rdma_check_mr_local_flag K i \<and> caps_in K (caps i) \<inter> {Rma, Atomic} \<noteq> {} \<and>
         caps_in K (caps i) \<inter> rma_dirs = {RemoteRead}))"
proof -
  have "bit (rdma_info_to_mr_access K i) n \<longleftrightarrow> (\<exists>c. n = cap_pos K c \<and> c \<in> caps_in K (rdma_info_to_mr_access K i))"
    using access_bits [OF assms] by (auto simp: caps_in_def)
  then show ?thesis using mr_access_caps [OF assms] by (auto simp: mr_access_extra_def)
qed

definition tcp_info :: fi_info where
  "tcp_info = \<lparr>caps = 2, fi_mode = 0, mr_mode = 20, info_ep_type = 3, info_av_type = 0,
     tx_size = 1024, dest_addr = 0\<rparr>"

theorem rdma_info_to_mr_access_spec_witness:
  "bit (rdma_info_to_mr_access libfabric_2_0 (tcp_info\<lparr>caps := 4100, mr_mode := 0\<rparr>)) (p_remote_write libfabric_2_0)"
proof -
  let ?i = "tcp_info\<lparr>caps := 4100, mr_mode := 0\<rparr>"
  have "\<not> rdma_check_mr_local_flag libfabric_2_0 ?i"
    by (simp add: rdma_check_mr_local_flag_def libfabric_2_0_def tcp_info_def flag_def)
  moreover have "caps_in libfabric_2_0 (caps ?i) \<inter> rma_dirs = {RemoteRead}" "Rma \<in> caps_in libfabric_2_0 (caps ?i)"
    by (auto simp: caps_in_def rma_dirs_def libfabric_2_0_def)
  ultimately show ?thesis
    using rdma_info_to_mr_access_spec [OF libfabric_2_0_ok, of ?i "p_remote_write libfabric_2_0"] by (auto intro: exI [of _ RemoteWrite])
qed

section \<open>Registration\<close>

text \<open>A call that registers never loses the region: if it fails after the registration succeeded,
  the handle is still reported to the caller, who closes it.\<close>

lemma rdma_reg_mr_accounting:
  assumes "rdma_reg_mr K env ctx e buf sz access key iface device tr = ((r, mr, desc), tr')"
  shows "opened tr' = opened tr + (case mr of None \<Rightarrow> {#} | Some h \<Rightarrow> {#h#})"
    and "closed tr' = closed tr"
    and "mr = None \<Longrightarrow> r \<noteq> 0"
  using assms
  by (auto simp: rdma_reg_mr_def Let_def ext_call_def split: if_splits)

end
