(* ===== verification/Fabric_Ep.thy ===== *)
theory Fabric_Ep
  imports Fabric_Cq Fabric_Mr
begin

text \<open>
  Endpoints, media-proxy/src/libfabric_ep.c: bring-up with its four-level cleanup ladder
  (\<open>ep_init\<close>), teardown (\<open>ep_destroy\<close>), memory registration, and the send and receive loops.
  The theorems account for every handle: what an endpoint owns after \<open>ep_init\<close>, that a failed
  \<open>ep_init\<close> gives everything back, that \<open>ep_destroy\<close> closes exactly what is owned, and how long
  \<open>ep_send_buf\<close> can retry.
\<close>

section \<open>Looking an interface up\<close>

text \<open>One node of the list \<open>getifaddrs\<close> returns: its name and, where it has an address of family
  \<open>AF_INET\<close> or \<open>AF_INET6\<close>, the numeric host string \<open>getnameinfo\<close> gives for it (\<open>None\<close> where the
  address is missing, of another family, or not convertible).\<close>

type_synonym ifa = "string \<times> string option"

definition c_strncpy_terminated :: "string \<Rightarrow> nat \<Rightarrow> string" where
  "c_strncpy_terminated s n = take (n - 1) s"

fun find_interface :: "ifa list \<Rightarrow> string \<Rightarrow> nat \<Rightarrow> int \<times> string option" where
  "find_interface [] ip n = (-1, None)"
| "find_interface ((name, host) # ifs) ip n =
     (if host = Some ip then (0, Some (c_strncpy_terminated name n)) else find_interface ifs ip n)"

definition get_interface_name_by_ip :: "ifa list option \<Rightarrow> string \<Rightarrow> nat \<Rightarrow> int \<times> string option" where
  "get_interface_name_by_ip ifaddr ip n = (case ifaddr of
      None \<Rightarrow> (-1, None) | Some ifs \<Rightarrow> find_interface ifs ip n)"

section \<open>Bring-up\<close>

definition enable_ep :: "fab_env \<Rightarrow> ep_ctx_t \<Rightarrow> fab_trace \<Rightarrow> int \<times> fab_trace" where
  "enable_ep env c tr =
     (let (a, tr) = (if av c \<noteq> 0 then
                       (let (r, tr) = ext_call env (FiEpBind (ep c) (av c) False) tr in (ret r, tr))
                     else (0, tr))
      in if a \<noteq> 0 then (a, tr) else
        let (b, tr) = ext_call env (FiEpBind (ep c) (cq (cq_ctx c)) True) tr in
        if ret b \<noteq> 0 then (ret b, tr) else
        let (e, tr) = ext_call env (FiEnable (ep c)) tr in (ret e, tr))"

text \<open>\<open>ep_av_insert\<close>: its return value and the address it resolved.\<close>

definition ep_av_insert :: "fab_env \<Rightarrow> nat \<Rightarrow> nat \<Rightarrow> nat \<Rightarrow> fab_trace \<Rightarrow> (int \<times> u64) \<times> fab_trace" where
  "ep_av_insert env avh addr n tr =
     (let (r, tr) = ext_call env (FiAvInsert avh addr n) tr;
          a = word_of_int (val r)
      in if ret r < 0 then ((ret r, a), tr)
         else if ret r \<noteq> int n then ((- EINVAL, a), tr)
         else ((0, a), tr))"

definition ep_alloc_res ::
  "fi_consts \<Rightarrow> fab_env \<Rightarrow> ep_ctx_t \<Rightarrow> libfabric_ctx \<Rightarrow> nat \<Rightarrow> nat \<Rightarrow> fab_trace
     \<Rightarrow> (int \<times> ep_ctx_t) \<times> fab_trace" where
  "ep_alloc_res K env c ctx fi av_size tr =
     (let (r, tr) = ext_call env (FiEndpoint (domain ctx) fi) tr in
      if ret r \<noteq> 0 then ((ret r, c), tr) else
      let c = c\<lparr>ep := out r\<rparr> in
      case rdma_cq_open env c 0 RDMA_COMP_SREAD tr of
        None \<Rightarrow> ((- EINVAL, c), tr)
      | Some (q, c, tr) \<Rightarrow>
          if q \<noteq> 0 then ((q, c), tr)
          else if av c = 0 \<and> (info_ep_type (info ctx) = c_ep_rdm K \<or> info_ep_type (info ctx) = c_ep_dgram K)
          then (let av_type = (if info_av_type (info ctx) \<noteq> c_av_unspec K then info_av_type (info ctx) else c_av_map K);
                    (a, tr) = ext_call env (FiAvOpen (domain ctx) av_type av_size) tr in
                if ret a \<noteq> 0 then ((ret a, c), tr) else ((0, c\<lparr>av := out a\<rparr>), tr))
          else ((0, c), tr))"

text \<open>The cleanup ladder of \<open>ep_init\<close>: the labels \<open>err\<close>, \<open>err_ep\<close>, \<open>err_cq\<close> and \<open>err_av\<close>, each
  falling through to the one before.\<close>

definition err_free :: "fab_env \<Rightarrow> ep_ctx_t \<Rightarrow> fab_trace \<Rightarrow> fab_trace" where
  "err_free env c tr = snd (ext_call env (Free (ep_self c)) tr)"

definition err_ep :: "fab_env \<Rightarrow> ep_ctx_t \<Rightarrow> fab_trace \<Rightarrow> fab_trace" where
  "err_ep env c tr = err_free env c (snd (close_fid env (ep c) tr))"

definition err_cq :: "fab_env \<Rightarrow> ep_ctx_t \<Rightarrow> fab_trace \<Rightarrow> fab_trace" where
  "err_cq env c tr =
     err_ep env c (snd (close_fid env (waitset (cq_ctx c)) (snd (close_fid env (cq (cq_ctx c)) tr))))"

definition err_av :: "fab_env \<Rightarrow> ep_ctx_t \<Rightarrow> fab_trace \<Rightarrow> fab_trace" where
  "err_av env c tr = err_cq env c (snd (close_fid env (av c) tr))"

text \<open>The stages of \<open>ep_init\<close> after the argument checks. Each returns the code's \<open>ret\<close>, the
  endpoint context, the configuration (whose \<open>shared_rx_cq\<close> may have been filled in) and the
  trace; a failed stage has already run its part of the ladder.\<close>

datatype stage = Failed int ep_cfg_t fab_trace | Go ep_ctx_t ep_cfg_t fab_trace

definition init_endpoint :: "fab_env \<Rightarrow> libfabric_ctx \<Rightarrow> ep_ctx_t \<Rightarrow> ep_cfg_t \<Rightarrow> fab_trace \<Rightarrow> stage" where
  "init_endpoint env ctx c cfg tr =
     (let (r, tr) = ext_call env (FiEndpoint (domain ctx) (info_ptr ctx)) tr in
      if ret r \<noteq> 0 then Failed (ret r) cfg (err_free env c tr) else Go (c\<lparr>ep := out r\<rparr>) cfg tr)"

definition init_cq :: "fab_env \<Rightarrow> ep_ctx_t \<Rightarrow> ep_cfg_t \<Rightarrow> fab_trace \<Rightarrow> stage" where
  "init_cq env c cfg tr =
     (if shared_rx_cq cfg \<noteq> 0
      then Go (c\<lparr>cq_ctx := (cq_ctx c)\<lparr>cq := shared_rx_cq cfg, external := True\<rparr>\<rparr>) cfg tr
      else case rdma_cq_open env c 0 RDMA_COMP_SREAD tr of
        None \<Rightarrow> Failed (- EINVAL) cfg tr
      | Some (q, c, tr) \<Rightarrow>
          if q \<noteq> 0 then Failed q cfg (err_ep env c tr)
          else Go (c\<lparr>cq_ctx := (cq_ctx c)\<lparr>external := False\<rparr>\<rparr>)
                  (cfg\<lparr>shared_rx_cq := cq (cq_ctx c)\<rparr>) tr)"

definition init_av :: "fi_consts \<Rightarrow> fab_env \<Rightarrow> libfabric_ctx \<Rightarrow> ep_ctx_t \<Rightarrow> ep_cfg_t \<Rightarrow> fab_trace \<Rightarrow> stage" where
  "init_av K env ctx c cfg tr =
     (if ep_attr_type ctx = c_ep_rdm K \<or> ep_attr_type ctx = c_ep_dgram K
      then (let (a, tr) = ext_call env (FiAvOpen (domain ctx) (c_av_map K) 1) tr in
            if ret a \<noteq> 0 then Failed (ret a) cfg (err_cq env c tr) else Go (c\<lparr>av := out a\<rparr>) cfg tr)
      else Go c cfg tr)"

definition init_enable :: "fab_env \<Rightarrow> ep_ctx_t \<Rightarrow> ep_cfg_t \<Rightarrow> fab_trace \<Rightarrow> stage" where
  "init_enable env c cfg tr =
     (let (e, tr) = enable_ep env c tr in
      if e \<noteq> 0 then Failed e cfg (err_av env c tr) else Go c cfg tr)"

definition init_dest :: "fab_env \<Rightarrow> libfabric_ctx \<Rightarrow> ep_ctx_t \<Rightarrow> ep_cfg_t \<Rightarrow> fab_trace \<Rightarrow> stage" where
  "init_dest env ctx c cfg tr =
     (if dir cfg = TX \<and> dest_addr (info ctx) \<noteq> 0
      then (let ((r, a), tr) = ep_av_insert env (av c) (dest_addr (info ctx)) 1 tr in
            if r \<noteq> 0 then Failed r cfg (err_av env c tr) else Go (c\<lparr>dest_av_entry := a\<rparr>) cfg tr)
      else Go c cfg tr)"

fun and_then :: "stage \<Rightarrow> (ep_ctx_t \<Rightarrow> ep_cfg_t \<Rightarrow> fab_trace \<Rightarrow> stage) \<Rightarrow> stage" where
  "and_then (Failed r cfg tr) k = Failed r cfg tr"
| "and_then (Go c cfg tr) k = k c cfg tr"

definition new_ep_ctx :: "nat \<Rightarrow> libfabric_ctx \<Rightarrow> ep_ctx_t" where
  "new_ep_ctx p ctx = \<lparr>ep_self = p, ep = 0, av = 0, data_mr = 0, data_desc = 0, dest_av_entry = 0,
     cq_ctx = \<lparr>cq = 0, waitset = 0, cq_cntr = 0, cq_fd = 0, eq_read = EqNull, external = False\<rparr>,
     ep_rdma_ctx = ctx, stop_flag = False\<rparr>"

definition init_stages ::
  "fi_consts \<Rightarrow> fab_env \<Rightarrow> libfabric_ctx \<Rightarrow> ep_ctx_t \<Rightarrow> ep_cfg_t \<Rightarrow> fab_trace \<Rightarrow> stage" where
  "init_stages K env ctx c cfg tr =
     and_then (and_then (and_then (and_then (init_endpoint env ctx c cfg tr)
       (init_cq env)) (init_av K env ctx)) (init_enable env)) (init_dest env ctx)"

text \<open>\<open>ep_init\<close>: arguments and results are the pointer \<open>ep_ctx\<close> (outer option: NULL, inner option:
  the pointer it points to) and \<open>cfg\<close>.\<close>

type_synonym init_result = "(int \<times> ep_ctx_t option option \<times> ep_cfg_t option) \<times> fab_trace"

definition ep_init ::
  "fi_consts \<Rightarrow> fab_env \<Rightarrow> ep_ctx_t option option \<Rightarrow> ep_cfg_t option \<Rightarrow> fab_trace \<Rightarrow> init_result" where
  "ep_init K env epp cfgp tr =
     (case (epp, cfgp) of
        (Some _, Some cfg) \<Rightarrow>
          (case cfg_rdma_ctx cfg of
             None \<Rightarrow> ((- EINVAL, epp, cfgp), tr)
           | Some ctx \<Rightarrow>
              if \<not> is_initialized ctx \<or> fabric ctx = 0 \<or> domain ctx = 0 \<or> info_ptr ctx = 0
              then ((- EINVAL, epp, cfgp), tr)
              else
                let (p, tr) = ext_call env Calloc tr in
                if out p = 0 then ((- ENOMEM, Some None, cfgp), tr) else
                (case init_stages K env ctx (new_ep_ctx (out p) ctx) cfg tr of
                   Failed r cfg tr \<Rightarrow> ((r, Some None, Some cfg), tr)
                 | Go c cfg tr \<Rightarrow> ((0, Some (Some c), Some cfg), tr)))
      | _ \<Rightarrow> ((- EINVAL, epp, cfgp), tr))"

definition ep_destroy ::
  "fab_env \<Rightarrow> ep_ctx_t option option \<Rightarrow> fab_trace \<Rightarrow> (int \<times> ep_ctx_t option option) \<times> fab_trace" where
  "ep_destroy env epp tr = (case epp of
      Some (Some c) \<Rightarrow>
        (let tr = (if data_mr c \<noteq> 0 then rdma_unreg_mr env (data_mr c) tr else tr);
             tr = snd (close_fid env (ep c) tr);
             tr = (if cq (cq_ctx c) \<noteq> 0 \<and> \<not> external (cq_ctx c)
                   then snd (close_fid env (cq (cq_ctx c)) tr) else tr);
             tr = (if waitset (cq_ctx c) \<noteq> 0 \<and> \<not> external (cq_ctx c)
                   then snd (close_fid env (waitset (cq_ctx c)) tr) else tr);
             tr = snd (close_fid env (av c) tr);
             tr = snd (ext_call env (Free (ep_self c)) tr)
         in ((0, Some None), tr))
    | _ \<Rightarrow> ((- EINVAL, epp), tr))"

section \<open>Registration, sending, receiving\<close>

definition ep_reg_mr ::
  "fi_consts \<Rightarrow> fab_env \<Rightarrow> ep_ctx_t \<Rightarrow> nat \<Rightarrow> nat \<Rightarrow> fab_trace \<Rightarrow> (int \<times> ep_ctx_t) \<times> fab_trace" where
  "ep_reg_mr K env c buf sz tr =
     (let ((r, mr, desc), tr) = rdma_reg_mr K env (ep_rdma_ctx c) (ep c) buf sz
            (rdma_info_to_mr_access K (info (ep_rdma_ctx c))) (of_nat (ep_self c)) FI_HMEM_SYSTEM 0 tr;
          c = (case mr of None \<Rightarrow> c | Some h \<Rightarrow> c\<lparr>data_mr := h\<rparr>);
          c = (case desc of None \<Rightarrow> c | Some d \<Rightarrow> c\<lparr>data_desc := d\<rparr>)
      in ((r, c), tr))"

definition max_retries :: nat where "max_retries = 30"
definition backoff_us :: "nat list" where "backoff_us = [50, 100, 250, 500, 1000]"

definition transient :: "int \<Rightarrow> bool" where
  "transient r \<longleftrightarrow> r = - EAGAIN \<or> r = - ENODATA"

function send_loop ::
  "fab_env \<Rightarrow> ep_ctx_t \<Rightarrow> nat \<Rightarrow> nat \<Rightarrow> nat \<Rightarrow> fab_trace \<Rightarrow> int \<times> fab_trace" where
  "send_loop env c buf sz retry tr =
     (let (s, tr) = ext_call env ReadStop tr in
      if out s \<noteq> 0 then (- ECANCELED, tr) else
      let (r, tr) = ext_call env (FiSend (ep c) buf sz (data_desc c) (dest_av_entry c)) tr in
      if transient (ret r) then
        (let (_, tr) = ext_call env (FiCqRead (cq (cq_ctx c)) 0) tr;
             retry' = Suc retry
         in if retry' > max_retries then (- ETIMEDOUT, tr) else
            let (_, tr) = ext_call env (Usleep (backoff_us ! (if retry' < 5 then retry' else 4))) tr
            in send_loop env c buf sz retry' tr)
      else (ret r, tr))"
  by pat_completeness auto
termination
  by (relation "measure (\<lambda>(_, _, _, _, retry, _). Suc max_retries - retry)") auto

declare send_loop.simps [simp del]

definition ep_send_buf ::
  "fi_consts \<Rightarrow> fab_env \<Rightarrow> ep_ctx_t option \<Rightarrow> nat \<Rightarrow> nat \<Rightarrow> fab_trace \<Rightarrow> int \<times> fab_trace" where
  "ep_send_buf K env cp buf sz tr = (case cp of
      None \<Rightarrow> (- EINVAL, tr)
    | Some c \<Rightarrow>
        if buf = 0 \<or> sz = 0 then (- EINVAL, tr)
        else if dest_av_entry c = c_addr_unspec K then (- EINVAL, tr)
        else send_loop env c buf sz 0 tr)"

fun ep_recv_buf ::
  "nat \<Rightarrow> fab_env \<Rightarrow> ep_ctx_t \<Rightarrow> nat \<Rightarrow> nat \<Rightarrow> nat \<Rightarrow> fab_trace \<Rightarrow> (int \<times> fab_trace) option" where
  "ep_recv_buf 0 env c buf sz bctx tr = None"
| "ep_recv_buf (Suc fuel) env c buf sz bctx tr =
     (let (s, tr) = ext_call env ReadStop tr in
      if out s \<noteq> 0 then Some (- ECANCELED, tr) else
      let (r, tr) = ext_call env (FiRecv (ep c) buf sz (data_desc c) bctx) tr in
      if ret r = - EAGAIN then
        (let (_, tr) = ext_call env (FiCqRead (cq (cq_ctx c)) 0) tr
         in ep_recv_buf fuel env c buf sz bctx tr)
      else Some (ret r, tr))"

text \<open>\<open>ep_cq_read\<close>: the value written to \<open>*buf_ctx\<close> is the entry's operation context.\<close>

definition ep_cq_read ::
  "fi_consts \<Rightarrow> fab_env \<Rightarrow> nat \<Rightarrow> ep_ctx_t \<Rightarrow> int \<Rightarrow> fab_trace
     \<Rightarrow> ((int \<times> int option) \<times> ep_ctx_t \<times> fab_trace) option" where
  "ep_cq_read K env fuel c timeout tr = (case rdma_read_cq K env fuel c timeout tr of
      None \<Rightarrow> None
    | Some ((err, e), c, tr) \<Rightarrow>
        if err \<noteq> 0 then Some ((err, None), c, tr) else Some ((0, e), c, tr))"


section \<open>Ownership\<close>

text \<open>What an endpoint context has to close: a queue the caller supplied is not among it.\<close>

definition owned :: "ep_ctx_t \<Rightarrow> nat multiset" where
  "owned c = handle (ep c) + handle (av c) + handle (data_mr c) +
     (if external (cq_ctx c) then {#} else handle (cq (cq_ctx c)) + handle (waitset (cq_ctx c)))"

lemma ladder_ledger [simp]:
  "opened (err_free env c tr) = opened tr" "closed (err_free env c tr) = closed tr"
  "opened (err_ep env c tr) = opened tr" "closed (err_ep env c tr) = closed tr + handle (ep c)"
  "opened (err_cq env c tr) = opened tr"
  "closed (err_cq env c tr) =
     closed tr + handle (cq (cq_ctx c)) + handle (waitset (cq_ctx c)) + handle (ep c)"
  "opened (err_av env c tr) = opened tr"
  "closed (err_av env c tr) = closed tr + handle (av c) + handle (cq (cq_ctx c)) +
     handle (waitset (cq_ctx c)) + handle (ep c)"
  by (simp_all add: err_free_def err_ep_def err_cq_def err_av_def)

text \<open>A stage started at \<open>tr0\<close> with the caller's queue \<open>s\<close> is in order when, going on, everything
  opened is owned and nothing is closed; and when, failed, everything opened is closed again, and
  besides it only \<open>s\<close>, once anything had been opened.\<close>

definition in_order :: "nat \<Rightarrow> fab_trace \<Rightarrow> ep_ctx_t \<Rightarrow> fab_trace \<Rightarrow> bool" where
  "in_order s tr0 c tr \<longleftrightarrow> opened tr = opened tr0 + owned c \<and> closed tr = closed tr0 \<and>
     ep c \<noteq> 0 \<and> data_mr c = 0 \<and> waitset (cq_ctx c) = 0 \<and>
     external (cq_ctx c) = (s \<noteq> 0) \<and> (s \<noteq> 0 \<longrightarrow> cq (cq_ctx c) = s)"

definition given_back :: "nat \<Rightarrow> fab_trace \<Rightarrow> fab_trace \<Rightarrow> bool" where
  "given_back s tr0 tr \<longleftrightarrow> (\<exists>X. opened tr = opened tr0 + X \<and>
     closed tr = closed tr0 + X + (if X = {#} then {#} else handle s))"

fun stage_ok :: "nat \<Rightarrow> fab_trace \<Rightarrow> stage \<Rightarrow> bool" where
  "stage_ok s tr0 (Failed r cfg tr) \<longleftrightarrow> r \<noteq> 0 \<and> given_back s tr0 tr"
| "stage_ok s tr0 (Go c cfg tr) \<longleftrightarrow> in_order s tr0 c tr"

lemma stage_ok_and_then:
  assumes "stage_ok s tr0 st"
    and "\<And>c cfg tr. st = Go c cfg tr \<Longrightarrow> in_order s tr0 c tr \<Longrightarrow> stage_ok s tr0 (k c cfg tr)"
  shows "stage_ok s tr0 (and_then st k)"
  using assms by (cases st) auto

lemma valid_handlesD: "valid_handles env \<Longrightarrow> is_open c \<Longrightarrow> ret (env tr c) = 0 \<Longrightarrow> out (env tr c) \<noteq> 0"
  by (auto simp: valid_handles_def)

text \<open>From a context in order, the labels of the ladder give everything back.\<close>

lemma ladder_gives_back:
  assumes "in_order s tr0 c tr" and "opened tr' = opened tr" and "closed tr' = closed tr"
  shows "given_back s tr0 (err_av env c tr')"
    and "av c = 0 \<Longrightarrow> given_back s tr0 (err_cq env c tr')"
    and "av c = 0 \<Longrightarrow> cq (cq_ctx c) = 0 \<Longrightarrow> s = 0 \<Longrightarrow> given_back s tr0 (err_ep env c tr')"
  using assms unfolding given_back_def
  by (auto intro!: exI [of _ "owned c"] simp: in_order_def owned_def)

lemma init_endpoint_ok:
  assumes "valid_handles env" and "init_endpoint env ctx (new_ep_ctx p ctx) cfg tr = st"
  shows "case st of Failed r cfg' tr' \<Rightarrow> r \<noteq> 0 \<and> opened tr' = opened tr \<and> closed tr' = closed tr
    | Go c cfg' tr' \<Rightarrow> in_order 0 tr c tr' \<and> cfg' = cfg \<and> av c = 0 \<and> cq (cq_ctx c) = 0"
  using assms(2) valid_handlesD [OF assms(1), of "FiEndpoint (domain ctx) (info_ptr ctx)" tr]
  by (auto simp: init_endpoint_def ext_call_def new_ep_ctx_def in_order_def owned_def)

lemma init_cq_ok:
  assumes "valid_handles env" and "in_order 0 tr0 c tr" and "av c = 0" and "cq (cq_ctx c) = 0"
  shows "stage_ok (shared_rx_cq cfg) tr0 (init_cq env c cfg tr)"
proof (cases "shared_rx_cq cfg = 0")
  case True
  let ?o = "FiCqOpen (domain (ep_rdma_ctx c)) (tx_size (info (ep_rdma_ctx c))) FI_WAIT_UNSPEC"
  have b: "given_back 0 tr0 (err_ep env c (tr @ [(?o, env tr ?o)]))" if "ret (env tr ?o) \<noteq> 0"
    using ladder_gives_back(3) [OF assms(2)] assms(3,4) True that by simp
  show ?thesis
    using assms(2-4) True b valid_handlesD [OF assms(1), of ?o tr]
    by (auto simp: init_cq_def rdma_cq_open_def rdma_cq_set_wait_attr_def ext_call_def Let_def
        in_order_def owned_def)
next
  case False
  then show ?thesis using assms by (auto simp: init_cq_def in_order_def owned_def)
qed

lemma init_cq_fields:
  "init_cq env c cfg tr = Go c' cfg' tr' \<Longrightarrow> av c' = av c"
  by (auto simp: init_cq_def rdma_cq_open_def rdma_cq_set_wait_attr_def ext_call_def Let_def
      split: if_splits)

lemma init_endpoint_cq_ok:
  assumes "valid_handles env"
    and "st = and_then (init_endpoint env ctx (new_ep_ctx p ctx) cfg tr) (init_cq env)"
  shows "stage_ok (shared_rx_cq cfg) tr st \<and> (\<forall>c cfg' tr'. st = Go c cfg' tr' \<longrightarrow> av c = 0)"
proof (cases "init_endpoint env ctx (new_ep_ctx p ctx) cfg tr")
  case (Failed r cfg' tr')
  then show ?thesis using init_endpoint_ok [OF assms(1) Failed] assms(2)
    by (auto simp: given_back_def)
next
  case (Go c cfg' tr')
  then show ?thesis using init_endpoint_ok [OF assms(1) Go] assms(2)
    by (auto intro: init_cq_ok [OF assms(1)] dest: init_cq_fields)
qed

lemma init_av_ok:
  assumes "valid_handles env" and "in_order s tr0 c tr" and "av c = 0"
  shows "stage_ok s tr0 (init_av K env ctx c cfg tr)"
  using assms valid_handlesD [OF assms(1), of "FiAvOpen (domain ctx) (c_av_map K) 1" tr]
  by (auto simp: init_av_def ext_call_def Let_def intro: ladder_gives_back(2))
     (auto simp: in_order_def owned_def)

lemma enable_ep_ledger:
  assumes "enable_ep env c tr = (r, tr')"
  shows "opened tr' = opened tr" "closed tr' = closed tr"
  using assms by (auto simp: enable_ep_def ext_call_def Let_def split: if_splits)

lemma init_enable_ok:
  assumes "in_order s tr0 c tr"
  shows "stage_ok s tr0 (init_enable env c cfg tr)"
proof (cases "enable_ep env c tr")
  case (Pair r tr')
  note l = enable_ep_ledger [OF Pair]
  show ?thesis using Pair assms l
    by (auto simp: init_enable_def intro: ladder_gives_back(1)) (auto simp: in_order_def)
qed

lemma ep_av_insert_ledger:
  assumes "ep_av_insert env a p n tr = ((r, x), tr')"
  shows "opened tr' = opened tr" "closed tr' = closed tr"
  using assms by (auto simp: ep_av_insert_def ext_call_def Let_def split: if_splits)

lemma init_dest_ok:
  assumes "in_order s tr0 c tr"
  shows "stage_ok s tr0 (init_dest env ctx c cfg tr)"
proof (cases "ep_av_insert env (av c) (dest_addr (info ctx)) 1 tr")
  case (Pair rx tr')
  obtain r x where rx: "rx = (r, x)" by force
  note l = ep_av_insert_ledger [OF Pair [unfolded rx]]
  show ?thesis using Pair assms l
    by (auto simp: init_dest_def rx intro: ladder_gives_back(1)) (auto simp: in_order_def owned_def)
qed

lemma init_stages_ok:
  assumes "valid_handles env"
  shows "stage_ok (shared_rx_cq cfg) tr (init_stages K env ctx (new_ep_ctx p ctx) cfg tr)"
proof -
  let ?q = "and_then (init_endpoint env ctx (new_ep_ctx p ctx) cfg tr) (init_cq env)"
  have q: "stage_ok (shared_rx_cq cfg) tr ?q" "\<And>c cfg' tr'. ?q = Go c cfg' tr' \<Longrightarrow> av c = 0"
    using init_endpoint_cq_ok [OF assms refl, where ctx = ctx and p = p and cfg = cfg and tr = tr]
    by blast+
  have a: "stage_ok (shared_rx_cq cfg) tr (and_then ?q (init_av K env ctx))"
    by (rule stage_ok_and_then [OF q(1)]) (auto intro: init_av_ok [OF assms] dest: q(2))
  show ?thesis unfolding init_stages_def
    by (rule stage_ok_and_then [OF stage_ok_and_then [OF a]]) (rule init_enable_ok init_dest_ok, assumption)+
qed

lemma ep_init_runs:
  assumes "ep_init K env (Some x) (Some cfg) tr = ((r, p, cfg'), tr')"
  shows "(r < 0 \<and> (p = Some x \<or> p = Some None) \<and> opened tr' = opened tr \<and> closed tr' = closed tr) \<or>
    (\<exists>ctx q tr1. opened tr1 = opened tr \<and> closed tr1 = closed tr \<and>
      (case init_stages K env ctx (new_ep_ctx q ctx) cfg tr1 of
         Failed r1 cfg1 tr2 \<Rightarrow> r = r1 \<and> p = Some None \<and> tr' = tr2
       | Go c cfg1 tr2 \<Rightarrow> r = 0 \<and> p = Some (Some c) \<and> tr' = tr2))"
proof (cases "r < 0 \<and> (p = Some x \<or> p = Some None) \<and> (tr' = tr \<or> tr' = tr @ [(Calloc, env tr Calloc)])")
  case True
  then show ?thesis by auto
next
  case False
  then obtain ctx where "cfg_rdma_ctx cfg = Some ctx" and run:
    "(case init_stages K env ctx (new_ep_ctx (out (env tr Calloc)) ctx) cfg
        (tr @ [(Calloc, env tr Calloc)]) of
       Failed r cfg tr \<Rightarrow> ((r, Some None, Some cfg), tr)
     | Go c cfg tr \<Rightarrow> ((0, Some (Some c), Some cfg), tr)) = ((r, p, cfg'), tr')"
    using assms
    by (cases "cfg_rdma_ctx cfg")
       (auto simp: ep_init_def ext_call_def EINVAL_def ENOMEM_def split: if_splits)
  have t: "opened (tr @ [(Calloc, env tr Calloc)]) = opened tr"
    "closed (tr @ [(Calloc, env tr Calloc)]) = closed tr" by simp_all
  have "case init_stages K env ctx (new_ep_ctx (out (env tr Calloc)) ctx) cfg
        (tr @ [(Calloc, env tr Calloc)]) of
         Failed r1 cfg1 tr2 \<Rightarrow> r = r1 \<and> p = Some None \<and> tr' = tr2
       | Go c cfg1 tr2 \<Rightarrow> r = 0 \<and> p = Some (Some c) \<and> tr' = tr2"
    using run by (auto split: stage.splits)
  with t show ?thesis by blast
qed

text \<open>An endpoint that is up has a completion queue.\<close>

lemma and_then_Go: "and_then st k = Go c f t \<Longrightarrow> \<exists>c1 f1 t1. st = Go c1 f1 t1 \<and> k c1 f1 t1 = Go c f t"
  by (cases st) auto

lemma init_cq_nonnull: "valid_handles env \<Longrightarrow> init_cq env c f t = Go c' f' t' \<Longrightarrow> cq (cq_ctx c') \<noteq> 0"
  using valid_handlesD [of env "FiCqOpen (domain (ep_rdma_ctx c)) (tx_size (info (ep_rdma_ctx c))) FI_WAIT_UNSPEC" t]
  by (auto simp: init_cq_def rdma_cq_open_def rdma_cq_set_wait_attr_def ext_call_def Let_def split: if_splits option.splits)

lemma later_stages_cq:
  "init_av K env ctx c f t = Go c' f' t' \<Longrightarrow> cq_ctx c' = cq_ctx c"
  "init_enable env c f t = Go c' f' t' \<Longrightarrow> cq_ctx c' = cq_ctx c"
  "init_dest env ctx c f t = Go c' f' t' \<Longrightarrow> cq_ctx c' = cq_ctx c"
  by (auto simp: init_av_def init_enable_def init_dest_def Let_def split: if_splits prod.splits)

lemma ep_init_cq:
  assumes "valid_handles env" and "ep_init K env (Some x) (Some cfg) tr = ((0, Some (Some c), cfg'), tr')"
  shows "cq (cq_ctx c) \<noteq> 0"
proof -
  obtain ctx q tr1 where "case init_stages K env ctx (new_ep_ctx q ctx) cfg tr1 of
         Failed r1 cfg1 tr2 \<Rightarrow> 0 = r1 \<and> Some (Some c) = Some None \<and> tr' = tr2
       | Go c' cfg1 tr2 \<Rightarrow> (0::int) = 0 \<and> Some (Some c) = Some (Some c') \<and> tr' = tr2"
    using ep_init_runs [OF assms(2)] by auto
  then obtain f t where "init_stages K env ctx (new_ep_ctx q ctx) cfg tr1 = Go c f t"
    by (cases "init_stages K env ctx (new_ep_ctx q ctx) cfg tr1") auto
  note g = this [unfolded init_stages_def]
  obtain c4 f4 t4 where 4: "and_then (and_then (and_then (init_endpoint env ctx (new_ep_ctx q ctx) cfg tr1) (init_cq env))
      (init_av K env ctx)) (init_enable env) = Go c4 f4 t4" "init_dest env ctx c4 f4 t4 = Go c f t" using and_then_Go [OF g] by blast
  obtain c3 f3 t3 where 3: "and_then (and_then (init_endpoint env ctx (new_ep_ctx q ctx) cfg tr1) (init_cq env))
      (init_av K env ctx) = Go c3 f3 t3" "init_enable env c3 f3 t3 = Go c4 f4 t4" using and_then_Go [OF 4(1)] by blast
  obtain c2 f2 t2 where 2: "and_then (init_endpoint env ctx (new_ep_ctx q ctx) cfg tr1) (init_cq env) = Go c2 f2 t2"
    "init_av K env ctx c2 f2 t2 = Go c3 f3 t3" using and_then_Go [OF 3(1)] by blast
  have "cq (cq_ctx c2) \<noteq> 0" using and_then_Go [OF 2(1)] init_cq_nonnull [OF assms(1)] by blast
  then show ?thesis using later_stages_cq(1) [OF 2(2)] later_stages_cq(2) [OF 3(2)] later_stages_cq(3) [OF 4(2)] by simp
qed

lemma ep_init_cases:
  assumes "valid_handles env" and "ep_init K env (Some x) (Some cfg) tr = ((r, p, cfg'), tr')"
  shows "(r \<noteq> 0 \<and> (p = Some x \<or> p = Some None) \<and> given_back (shared_rx_cq cfg) tr tr') \<or>
    (\<exists>c. r = 0 \<and> p = Some (Some c) \<and> in_order (shared_rx_cq cfg) tr c tr')"
  using ep_init_runs [OF assms(2)]
proof (elim disjE exE conjE)
  fix ctx q tr1
  assume t: "opened tr1 = opened tr" "closed tr1 = closed tr"
    and run: "case init_stages K env ctx (new_ep_ctx q ctx) cfg tr1 of
         Failed r1 cfg1 tr2 \<Rightarrow> r = r1 \<and> p = Some None \<and> tr' = tr2
       | Go c cfg1 tr2 \<Rightarrow> r = 0 \<and> p = Some (Some c) \<and> tr' = tr2"
  show ?thesis
    using run init_stages_ok [OF assms(1), of cfg tr1 K ctx q] t
    by (cases "init_stages K env ctx (new_ep_ctx q ctx) cfg tr1")
       (auto simp: given_back_def in_order_def)
qed (auto simp: given_back_def)

lemma ep_reg_mr_owned:
  assumes "valid_handles env" and "data_mr c = 0" and "ep_reg_mr K env c buf sz tr = ((r, c'), tr')"
  shows "opened tr' + owned c = opened tr + owned c'" and "closed tr' = closed tr"
    and "owned c \<subseteq># owned c'"
proof -
  obtain m d where reg: "rdma_reg_mr K env (ep_rdma_ctx c) (ep c) buf sz
      (rdma_info_to_mr_access K (info (ep_rdma_ctx c))) (of_nat (ep_self c)) FI_HMEM_SYSTEM 0 tr =
      ((r, m, d), tr')"
    and c': "c' = (case d of None \<Rightarrow> (case m of None \<Rightarrow> c | Some h \<Rightarrow> c\<lparr>data_mr := h\<rparr>)
      | Some d \<Rightarrow> (case m of None \<Rightarrow> c | Some h \<Rightarrow> c\<lparr>data_mr := h\<rparr>)\<lparr>data_desc := d\<rparr>)"
    using assms(3) by (auto simp: ep_reg_mr_def Let_def split: prod.splits)
  note l = rdma_reg_mr_accounting [OF reg]
  have h: "m = Some h \<Longrightarrow> h \<noteq> 0" for h
    using reg valid_handlesD [OF assms(1)]
    by (auto simp: rdma_reg_mr_def Let_def ext_call_def split: if_splits)
  show "opened tr' + owned c = opened tr + owned c'" "closed tr' = closed tr" "owned c \<subseteq># owned c'"
    using l h c' assms(2)
    by (auto simp: owned_def split: option.splits)
qed

lemma ep_destroy_ledger:
  assumes "ep_destroy env (Some (Some c)) tr = ((d, p), tr')"
  shows "d = 0" "p = Some None" "opened tr' = opened tr" "closed tr' = closed tr + owned c"
  using assms
  by (auto simp: ep_destroy_def Let_def rdma_unreg_mr_def owned_def
      split: if_splits)

text \<open>
  C9. An endpoint's whole life is balanced: after a successful \<open>ep_init\<close>, any outcome of one
  \<open>ep_reg_mr\<close> (also one that failed half way) and \<open>ep_destroy\<close>, every handle opened on the way
  has been closed exactly once, nothing else has been closed (in particular not a queue the
  caller supplied) and the caller's pointer is NULL.
\<close>

theorem ep_lifecycle_balanced:
  assumes "valid_handles env"
    and "ep_init K env (Some x) (Some cfg) tr = ((0, Some (Some c), cfg'), tr1)"
    and "ep_reg_mr K env c buf sz tr1 = ((r, c2), tr2)"
    and "ep_destroy env (Some (Some c2)) tr2 = ((d, p), tr3)"
  shows "d = 0 \<and> p = Some None \<and>
    (\<exists>X. opened tr3 = opened tr + X \<and> closed tr3 = closed tr + X)"
proof -
  have o: "in_order (shared_rx_cq cfg) tr c tr1" using ep_init_cases [OF assms(1,2)] by auto
  then have "data_mr c = 0" by (simp add: in_order_def)
  note r = ep_reg_mr_owned [OF assms(1) this assms(3)] and d = ep_destroy_ledger [OF assms(4)]
  from o r(1) d(3) have "opened tr3 = opened tr + owned c2" by (simp add: in_order_def)
  moreover from o r(2) d(4) have "closed tr3 = closed tr + owned c2" by (simp add: in_order_def)
  ultimately show ?thesis using d(1,2) by blast
qed

text \<open>Environments for concrete runs: every open yields a fresh handle, every other call
  succeeds; \<open>failing_enable_env\<close> lets \<open>fi_enable\<close> fail.\<close>

definition fresh_env :: fab_env where
  "fresh_env tr c = (case c of
      FiAvInsert _ _ n \<Rightarrow> res0\<lparr>ret := int n\<rparr>
    | _ \<Rightarrow> res0\<lparr>out := length tr + 100\<rparr>)"

definition failing_enable_env :: fab_env where
  "failing_enable_env tr c = (case c of
      FiEnable _ \<Rightarrow> res0\<lparr>ret := -5\<rparr>
    | _ \<Rightarrow> fresh_env tr c)"

definition tx_cfg :: ep_cfg_t where
  "tx_cfg = \<lparr>cfg_rdma_ctx = Some rdma_ctx0, remote_addr = \<lparr>addr_ip = ''10.0.0.2'', addr_port = ''8002''\<rparr>,
     local_addr = \<lparr>addr_ip = ''10.0.0.1'', addr_port = ''8003''\<rparr>, dir = TX, shared_rx_cq = 0\<rparr>"

lemma fresh_env_valid: "valid_handles fresh_env"
  by (auto simp: valid_handles_def fresh_env_def res0_def split: fab_call.splits)

lemma failing_enable_env_valid: "valid_handles failing_enable_env"
  using fresh_env_valid
  by (auto simp: valid_handles_def failing_enable_env_def split: fab_call.splits)

lemmas ep_run_simps = ep_init_def init_stages_def init_endpoint_def init_cq_def rdma_cq_open_def
  rdma_cq_set_wait_attr_def init_av_def init_enable_def enable_ep_def init_dest_def ep_av_insert_def
  err_av_def err_cq_def err_ep_def err_free_def close_fid_def ext_call_def new_ep_ctx_def Let_def
  tx_cfg_def rdma_ctx0_def libfabric_2_0_def res0_def fresh_env_def failing_enable_env_def

theorem ep_lifecycle_balanced_witness:
  "\<exists>c cfg' tr1 r c2 tr2 d p tr3 X.
     ep_init libfabric_2_0 fresh_env (Some None) (Some tx_cfg) [] = ((0, Some (Some c), cfg'), tr1) \<and>
     ep_reg_mr libfabric_2_0 fresh_env c 4096 64 tr1 = ((r, c2), tr2) \<and>
     ep_destroy fresh_env (Some (Some c2)) tr2 = ((d, p), tr3) \<and> d = 0 \<and> p = Some None \<and>
     opened tr3 = X \<and> closed tr3 = X"
proof -
  have "fst (fst (ep_init libfabric_2_0 fresh_env (Some None) (Some tx_cfg) [])) = 0"
    by (simp add: ep_run_simps)
  then obtain c cfg' tr1 where
    i: "ep_init libfabric_2_0 fresh_env (Some None) (Some tx_cfg) [] = ((0, Some (Some c), cfg'), tr1)"
    using ep_init_cases [OF fresh_env_valid, of libfabric_2_0 None tx_cfg "[]"]
    by (metis prod.collapse)
  obtain r c2 tr2 where g: "ep_reg_mr libfabric_2_0 fresh_env c 4096 64 tr1 = ((r, c2), tr2)"
    by (metis prod.collapse)
  obtain d p tr3 where d: "ep_destroy fresh_env (Some (Some c2)) tr2 = ((d, p), tr3)"
    by (metis prod.collapse)
  from ep_lifecycle_balanced [OF fresh_env_valid i g d] i g d show ?thesis by auto
qed

text \<open>
  C10. An \<open>ep_init\<close> that fails for an endpoint with its own completion queue leaks nothing:
  whatever step fails, the multiset of handles it opened equals the multiset it closed, and the
  caller's pointer is either untouched or NULL.
\<close>

theorem ep_init_failure_releases:
  assumes "valid_handles env" and "shared_rx_cq cfg = 0"
    and "ep_init K env (Some x) (Some cfg) tr = ((r, p, cfg'), tr')" and "r \<noteq> 0"
  shows "(p = Some x \<or> p = Some None) \<and>
    (\<exists>X. opened tr' = opened tr + X \<and> closed tr' = closed tr + X)"
  using ep_init_cases [OF assms(1,3)] assms(2,4) by (auto simp: given_back_def)

theorem ep_init_failure_releases_witness:
  "\<exists>p cfg' tr' X. ep_init libfabric_2_0 failing_enable_env (Some None) (Some tx_cfg) [] =
     ((-5, p, cfg'), tr') \<and> opened tr' = X \<and> closed tr' = X"
proof -
  let ?i = "ep_init libfabric_2_0 failing_enable_env (Some None) (Some tx_cfg) []"
  have f: "fst (fst ?i) = -5" by (simp add: ep_run_simps)
  obtain r p cfg' tr' where i: "?i = ((r, p, cfg'), tr')" by (metis prod.collapse)
  from ep_init_failure_releases [OF failing_enable_env_valid _ i] f i show ?thesis
    by (auto simp: tx_cfg_def)
qed

text \<open>
  What an \<open>ep_init\<close> that is given the caller's completion queue closes when it fails: the handles it
  opened, and, if it got as far as opening one (the endpoint is the first), also the caller's queue,
  which it does not own. A failure before that (allocation, \<open>fi_endpoint\<close>) closes nothing.
\<close>

theorem ep_init_failure_closes_shared_cq:
  assumes "valid_handles env" and "shared_rx_cq cfg \<noteq> 0"
    and "ep_init K env (Some x) (Some cfg) tr = ((r, p, cfg'), tr')" and "r \<noteq> 0"
  shows "\<exists>X. opened tr' = opened tr + X \<and>
    closed tr' = closed tr + X + (if X = {#} then {#} else {#shared_rx_cq cfg#})"
  using ep_init_cases [OF assms(1,3)] assms(2,4) by (auto simp: given_back_def split: if_splits)

theorem ep_init_failure_closes_shared_cq_witness:
  "\<exists>p cfg' tr' X. ep_init libfabric_2_0 failing_enable_env (Some None)
      (Some (tx_cfg\<lparr>shared_rx_cq := 7\<rparr>)) [] = ((-5, p, cfg'), tr') \<and>
     opened tr' = X \<and> closed tr' = X + {#7#}"
proof -
  let ?i = "ep_init libfabric_2_0 failing_enable_env (Some None) (Some (tx_cfg\<lparr>shared_rx_cq := 7\<rparr>)) []"
  have f: "fst (fst ?i) = -5" "opened (snd ?i) \<noteq> {#}" by (simp_all add: ep_run_simps)
  obtain r p cfg' tr' where i: "?i = ((r, p, cfg'), tr')" by (metis prod.collapse)
  from ep_init_failure_closes_shared_cq [OF failing_enable_env_valid _ i] f i show ?thesis
    by (auto simp: tx_cfg_def)
qed

section \<open>Sending and receiving\<close>

text \<open>What a trace shows of a send: the attempts, those libfabric accepted, and the time slept.\<close>

fun is_send :: "fab_call \<Rightarrow> bool" where
  "is_send (FiSend _ _ _ _ _) = True"
| "is_send _ = False"

definition sends :: "fab_trace \<Rightarrow> nat" where
  "sends tr = length (filter (\<lambda>(c, r). is_send c) tr)"

definition accepted :: "fab_trace \<Rightarrow> nat" where
  "accepted tr = length (filter (\<lambda>(c, r). is_send c \<and> ret r = 0) tr)"

fun slept_us :: "fab_trace \<Rightarrow> nat" where
  "slept_us [] = 0"
| "slept_us ((Usleep n, r) # tr) = n + slept_us tr"
| "slept_us ((_, r) # tr) = slept_us tr"

lemma slept_us_append [simp]: "slept_us (xs @ ys) = slept_us xs + slept_us ys"
  by (induction xs rule: slept_us.induct) simp_all

lemma sends_simps [simp]:
  "sends [] = 0" "sends ((c, r) # tr) = (if is_send c then 1 else 0) + sends tr"
  "sends (xs @ ys) = sends xs + sends ys"
  "accepted [] = 0" "accepted ((c, r) # tr) = (if is_send c \<and> ret r = 0 then 1 else 0) + accepted tr"
  "accepted (xs @ ys) = accepted xs + accepted ys"
  by (simp_all add: sends_def accepted_def)

lemma backoff_bounded: "backoff_us ! (if n < 5 then n else 4) \<le> 1000"
proof (cases "n < 5")
  case True
  then have "n \<in> {0, 1, 2, 3, 4}" by auto
  with True show ?thesis by (auto simp: backoff_us_def)
qed (simp add: backoff_us_def)

lemma transient_errno [simp]:
  "\<not> transient (- ECANCELED)" "\<not> transient (- ETIMEDOUT)" "\<not> transient 0"
  by (simp_all add: transient_def errno_defs)

lemma errno_distinct [simp]: "ECANCELED \<noteq> 0" "ETIMEDOUT \<noteq> 0" "ECANCELED \<noteq> EAGAIN"
  by (simp_all add: errno_defs)

lemma send_loop_step:
  assumes "send_loop env c buf sz retry tr = (r, tr')"
  obtains pre where "tr' = tr @ pre" "sends pre \<le> 1" "slept_us pre = 0" "\<not> transient r"
      "accepted pre = (if r = 0 then 1 else 0)"
  | pre where "send_loop env c buf sz (Suc retry) (tr @ pre) = (r, tr')" "Suc retry \<le> max_retries"
      "sends pre = 1" "slept_us pre \<le> 1000" "accepted pre = 0"
proof -
  let ?t1 = "tr @ [(ReadStop, env tr ReadStop)]"
  let ?snd = "FiSend (ep c) buf sz (data_desc c) (dest_av_entry c)"
  let ?t2 = "?t1 @ [(?snd, env ?t1 ?snd)]"
  let ?t3 = "?t2 @ [(FiCqRead (cq (cq_ctx c)) 0, env ?t2 (FiCqRead (cq (cq_ctx c)) 0))]"
  let ?sl = "Usleep (backoff_us ! (if Suc retry < 5 then Suc retry else 4))"
  let ?t4 = "?t3 @ [(?sl, env ?t3 ?sl)]"
  have unf: "send_loop env c buf sz retry tr =
      (if out (env tr ReadStop) \<noteq> 0 then (- ECANCELED, ?t1)
       else if transient (ret (env ?t1 ?snd)) then
         (if Suc retry > max_retries then (- ETIMEDOUT, ?t3) else send_loop env c buf sz (Suc retry) ?t4)
       else (ret (env ?t1 ?snd), ?t2))"
    by (subst send_loop.simps) (simp add: ext_call_def Let_def)
  have nz: "ret (env ?t1 ?snd) \<noteq> 0" if "transient (ret (env ?t1 ?snd))" using that by auto
  consider (stop) "out (env tr ReadStop) \<noteq> 0"
    | (fin) "out (env tr ReadStop) = 0" "\<not> transient (ret (env ?t1 ?snd))"
    | (over) "out (env tr ReadStop) = 0" "transient (ret (env ?t1 ?snd))" "Suc retry > max_retries"
    | (again) "out (env tr ReadStop) = 0" "transient (ret (env ?t1 ?snd))" "Suc retry \<le> max_retries"
    by fastforce
  then show thesis
  proof cases
    case stop
    then show ?thesis using assms unf by (intro that(1)) auto
  next
    case fin
    then show ?thesis using assms unf by (intro that(1) [of "drop (length tr) ?t2"]) auto
  next
    case over
    then show ?thesis using assms unf nz
      by (intro that(1) [of "drop (length tr) ?t3"]) auto
  next
    case again
    then show ?thesis using assms unf nz backoff_bounded [of "Suc retry"]
      by (intro that(2) [of "drop (length tr) ?t4"]) auto
  qed
qed

lemma send_loop_run:
  assumes "send_loop env c buf sz retry tr = (r, tr')" and "retry \<le> max_retries"
  shows "\<exists>suf. tr' = tr @ suf \<and> sends suf \<le> Suc max_retries - retry \<and>
    slept_us suf \<le> 1000 * (max_retries - retry) \<and> \<not> transient r \<and>
    accepted suf = (if r = 0 then 1 else 0)"
  using assms
proof (induction "max_retries - retry" arbitrary: retry tr)
  case 0
  from 0(2) show ?case using 0(1,3) by (cases rule: send_loop_step) auto
next
  case (Suc n)
  from Suc.prems(1) show ?case
  proof (cases rule: send_loop_step)
    case (1 pre)
    then show ?thesis using Suc.prems(2) by (intro exI [of _ pre]) auto
  next
    case (2 pre)
    have "n = max_retries - Suc retry" using Suc.hyps(2) by arith
    from Suc.hyps(1) [OF this 2(1,2)] obtain suf where
      "tr' = (tr @ pre) @ suf" "sends suf \<le> Suc max_retries - Suc retry"
      "slept_us suf \<le> 1000 * (max_retries - Suc retry)" "\<not> transient r"
      "accepted suf = (if r = 0 then 1 else 0)" by blast
    with 2 show ?thesis by (intro exI [of _ "pre @ suf"]) auto
  qed
qed

text \<open>
  C12. \<open>ep_send_buf\<close> returns after at most 31 attempts and 30 ms of back-off, never with a
  transient error, and it reports success exactly when libfabric accepted the buffer, once.
\<close>

theorem ep_send_buf_bounded:
  assumes "ep_send_buf K env cp buf sz tr = (r, tr')"
  shows "\<exists>suf. tr' = tr @ suf \<and> sends suf \<le> 31 \<and> slept_us suf \<le> 30000 \<and> \<not> transient r \<and>
    accepted suf = (if r = 0 then 1 else 0)"
proof (cases "\<exists>c. cp = Some c \<and> send_loop env c buf sz 0 tr = (r, tr')")
  case True
  then show ?thesis using send_loop_run [where retry = 0] by (fastforce simp: max_retries_def)
next
  case False
  then show ?thesis using assms
    by (auto simp: ep_send_buf_def EINVAL_def transient_def EAGAIN_def ENODATA_def
        split: option.splits if_splits)
qed

theorem ep_send_buf_bounded_witness:
  "\<exists>tr'. ep_send_buf libfabric_2_0 (\<lambda>tr c. res0\<lparr>ret := - EAGAIN\<rparr>)
     (Some (ep_ctx0 rdma_ctx0)) 4096 64 [] = (- ETIMEDOUT, tr') \<and> sends tr' \<le> 31"
proof -
  let ?s = "ep_send_buf libfabric_2_0 (\<lambda>tr c. res0\<lparr>ret := - EAGAIN\<rparr>) (Some (ep_ctx0 rdma_ctx0)) 4096 64 []"
  have r: "fst ?s = - ETIMEDOUT"
    by (simp add: ep_send_buf_def ep_ctx0_def libfabric_2_0_def send_loop.simps ext_call_def res0_def
        transient_def max_retries_def)
  from ep_send_buf_bounded [of libfabric_2_0 _ _ _ _ "[]", OF prod.collapse [symmetric, of ?s]] r
  show ?thesis by (metis append_Nil prod.collapse)
qed

lemma ep_recv_buf_returns:
  assumes "\<And>tr. n \<le> length tr \<Longrightarrow> ret (env tr (FiRecv (ep c) buf sz (data_desc c) bctx)) \<noteq> - EAGAIN"
    and "n - length tr < fuel"
  shows "pred_option (\<lambda>(r, _). r \<noteq> - EAGAIN) (ep_recv_buf fuel env c buf sz bctx tr) \<and>
    ep_recv_buf fuel env c buf sz bctx tr \<noteq> None"
  using assms(2)
proof (induction fuel arbitrary: tr)
  case (Suc fuel)
  let ?rc = "FiRecv (ep c) buf sz (data_desc c) bctx"
  have "n - Suc (Suc (Suc (length tr))) < fuel"
    if "ret (env (tr @ [(ReadStop, env tr ReadStop)]) ?rc) = - EAGAIN"
    using that Suc.prems assms(1) [of "tr @ [(ReadStop, env tr ReadStop)]"]
    by (cases "n \<le> length tr") auto
  then show ?case by (simp add: ext_call_def Let_def Suc.IH del: not_None_eq)
qed simp

end
