(* ===== verification/Fabric_Dev.thy ===== *)
theory Fabric_Dev
  imports Fabric_Ep
begin

text \<open>
  The RDMA device context, media-proxy/src/libfabric_dev.c: the hints \<open>rdma_init\<close> passes to
  libfabric for each provider and direction, address resolution, opening of fabric and domain
  with the cleanup ladder, and \<open>rdma_deinit\<close>. The theorems account for the libfabric handles and,
  separately, for the memory, \<open>fi_info\<close> and address lists the functions allocate.
\<close>

section \<open>The functions of the source\<close>

definition free_ptr :: "fab_env \<Rightarrow> nat \<Rightarrow> fab_trace \<Rightarrow> fab_trace" where
  "free_ptr env p tr = (if p \<noteq> 0 then snd (ext_call env (Free p) tr) else tr)"

definition rdma_freehints :: "fab_env \<Rightarrow> fi_hints option \<Rightarrow> fab_trace \<Rightarrow> fab_trace" where
  "rdma_freehints env hp tr = (case hp of
      None \<Rightarrow> tr
    | Some h \<Rightarrow>
       (let tr = free_ptr env (h_tx_attr h) tr;
            tr = free_ptr env (h_rx_attr h) tr;
            tr = free_ptr env (h_dom_name h) tr;
            tr = free_ptr env (h_fab_name h) tr;
            tr = free_ptr env (h_prov_ptr h) tr;
            tr = free_ptr env (h_src_addr h) tr;
            tr = free_ptr env (h_dest_addr h) tr
        in snd (ext_call env (FiFreeinfo (h_self h)) tr)))"

definition rdma_free_res :: "fab_env \<Rightarrow> libfabric_ctx \<Rightarrow> fab_trace \<Rightarrow> libfabric_ctx \<times> fab_trace" where
  "rdma_free_res env ctx tr =
     (let (d, tr) = close_fid env (domain ctx) tr;
          (f, tr) = close_fid env (fabric ctx) tr;
          tr = (if info_ptr ctx \<noteq> 0 then snd (ext_call env (FiFreeinfo (info_ptr ctx)) tr) else tr)
      in (ctx\<lparr>domain := d, fabric := f, info_ptr := 0\<rparr>, tr))"

text \<open>\<open>fi_allocinfo\<close> returns a zeroed structure with its attribute structures allocated.\<close>

definition blank_hints :: "fab_res \<Rightarrow> fi_hints" where
  "blank_hints r = \<lparr>h_self = out r, h_tx_attr = out_tx_attr r, h_rx_attr = out_rx_attr r,
     h_dom_name = 0, h_fab_name = 0, h_prov_ptr = 0, h_prov_name = None, h_ep_type = 0, h_rxm = False,
     h_addr_in = False, h_av_unspec = False, h_mr_mode = 0, h_caps = 0, h_progress_auto = False,
     h_tx_size = 0, h_rx_size = 0, h_bulk_data = False, h_rm_enabled = False,
     h_opt_endpoint = False, h_thread_unspec = False, h_src_addr = 0, h_dest_addr = 0\<rparr>"

definition verbs_caps :: "fi_consts \<Rightarrow> conn_kind \<Rightarrow> u64" where
  "verbs_caps K kind =
     (if kind = FI_KIND_RECEIVER
      then flag (p_msg K) OR flag (p_recv K) OR flag (p_rma K) OR flag (p_remote_read K) OR
        flag (p_local_comm K)
      else flag (p_msg K) OR flag (p_send K) OR flag (p_rma K) OR flag (p_remote_write K) OR
        flag (p_local_comm K))"

definition fill_hints ::
  "fi_consts \<Rightarrow> fab_env \<Rightarrow> libfabric_ctx \<Rightarrow> fi_hints \<Rightarrow> fab_trace \<Rightarrow> fi_hints \<times> fab_trace" where
  "fill_hints K env ctx h tr =
     (if provider_name ctx = Some ''verbs'' then
        (let (p, tr) = ext_call env (Strdup ''verbs'') tr;
             h = h\<lparr>h_prov_ptr := out p, h_prov_name := Some ''verbs'', h_ep_type := c_ep_rdm K,
                   h_rxm := True, h_addr_in := True, h_av_unspec := True,
                   h_mr_mode := flag (p_mr_local K) OR flag (p_mr_allocated K) OR
                     flag (p_mr_virt_addr K) OR flag (p_mr_prov_key K),
                   h_progress_auto := True, h_caps := verbs_caps K (ctx_kind ctx)\<rparr>;
             h = (if ctx_kind ctx = FI_KIND_RECEIVER
                  then (if h_rx_attr h \<noteq> 0 then h\<lparr>h_rx_size := 1024\<rparr> else h)
                  else (if h_tx_attr h \<noteq> 0 then h\<lparr>h_tx_size := 1024\<rparr> else h))
         in (h, tr))
      else
        (let (p, tr) = ext_call env (Strdup ''tcp'') tr
         in (h\<lparr>h_mr_mode := flag (p_mr_local K) OR flag (p_mr_virt_addr K), h_ep_type := c_ep_rdm K,
               h_caps := flag (p_msg K), h_addr_in := True, h_prov_ptr := out p,
               h_prov_name := Some ''tcp'', h_bulk_data := True, h_rm_enabled := True,
               h_opt_endpoint := True, h_tx_size := 1024, h_rx_size := 1024,
               h_thread_unspec := True\<rparr>, tr)))"

text \<open>Address resolution. On failure: the error, the address list and the hints as they are, so
  that the label \<open>err\<close> can release them.\<close>

type_synonym resolved = "int \<times> nat \<times> fi_hints"

definition resolve_rx ::
  "fi_consts \<Rightarrow> fab_env \<Rightarrow> libfabric_ctx \<Rightarrow> fi_hints \<Rightarrow> fab_trace \<Rightarrow> resolved \<times> fab_trace" where
  "resolve_rx K env ctx h tr =
     (let (a, tr) = ext_call env (RdmaGetaddrinfo (local_ip ctx) (local_port ctx)) tr in
      if ret a \<noteq> 0 then ((ret a, 0, h), tr) else
      let (m, tr) = ext_call env (Malloc (src_len a)) tr in
      if out m = 0 then ((- ENOMEM, out a, h), tr)
      else ((0, out a, h\<lparr>h_src_addr := out m, h_caps := h_caps h OR flag (p_source K)\<rparr>), tr))"

definition alloc_addr ::
  "fab_env \<Rightarrow> nat \<Rightarrow> fab_trace \<Rightarrow> nat option \<times> fab_trace" where
  "alloc_addr env len tr =
     (if len > 0 then
        (let (m, tr) = ext_call env (Malloc len) tr in
         (if out m = 0 then None else Some (out m), tr))
      else (Some 0, tr))"

definition resolve_tx ::
  "fab_env \<Rightarrow> libfabric_ctx \<Rightarrow> fi_hints \<Rightarrow> fab_trace \<Rightarrow> resolved \<times> fab_trace" where
  "resolve_tx env ctx h tr =
     (let (a, tr) = ext_call env (RdmaGetaddrinfo (remote_ip ctx) (remote_port ctx)) tr in
      if ret a \<noteq> 0 then ((ret a, 0, h), tr) else
      let (s, tr) = alloc_addr env (src_len a) tr in
      case s of None \<Rightarrow> ((- ENOMEM, out a, h), tr)
      | Some sp \<Rightarrow>
          let h = h\<lparr>h_src_addr := sp\<rparr>;
              (d, tr) = alloc_addr env (dst_len a) tr
          in case d of None \<Rightarrow> ((- ENOMEM, out a, h), tr)
             | Some dp \<Rightarrow> ((0, out a, h\<lparr>h_dest_addr := dp\<rparr>), tr))"

definition rdma_resolve ::
  "fi_consts \<Rightarrow> fab_env \<Rightarrow> libfabric_ctx \<Rightarrow> fi_hints \<Rightarrow> fab_trace \<Rightarrow> resolved \<times> fab_trace" where
  "rdma_resolve K env ctx h tr =
     (if ctx_kind ctx = FI_KIND_RECEIVER then resolve_rx K env ctx h tr else resolve_tx env ctx h tr)"

text \<open>Opening: the error, what the pointer \<open>*ctx\<close> holds afterwards (the labels \<open>err_fabric\<close> and
  \<open>err_info\<close> free the context and set it to NULL) and the trace.\<close>

definition open_device ::
  "fab_env \<Rightarrow> libfabric_ctx \<Rightarrow> fi_hints \<Rightarrow> fab_trace \<Rightarrow> (int \<times> libfabric_ctx option) \<times> fab_trace" where
  "open_device env ctx h tr =
     (let (g, tr) = ext_call env
            (if ctx_kind ctx = FI_KIND_RECEIVER then FiGetinfo (local_ip ctx) (local_port ctx) True h
             else FiGetinfo (remote_ip ctx) (remote_port ctx) False h) tr
      in if ret g \<noteq> 0 then ((ret g, Some ctx), tr) else
      let ctx = ctx\<lparr>info_ptr := out g, info := out_info g\<rparr>;
          (f, tr) = ext_call env (FiFabric (info_ptr ctx)) tr
      in if ret f \<noteq> 0 then
           (let tr = snd (ext_call env (FiFreeinfo (info_ptr ctx)) tr);
                tr = snd (ext_call env (Free (ctx_self ctx)) tr)
            in ((ret f, None), tr)) else
      let ctx = ctx\<lparr>fabric := out f\<rparr>;
          (d, tr) = ext_call env (FiDomain (fabric ctx) (info_ptr ctx)) tr
      in if ret d \<noteq> 0 then
           (let tr = snd (ext_call env (FiClose (fabric ctx)) tr);
                tr = snd (ext_call env (FiFreeinfo (info_ptr ctx)) tr);
                tr = snd (ext_call env (Free (ctx_self ctx)) tr)
            in ((ret d, None), tr))
         else ((0, Some (ctx\<lparr>domain := out d\<rparr>)), tr))"

definition release_temps :: "fab_env \<Rightarrow> nat \<Rightarrow> fi_hints \<Rightarrow> fab_trace \<Rightarrow> fab_trace" where
  "release_temps env rai h tr =
     rdma_freehints env (Some h) (snd (ext_call env (RdmaFreeaddrinfo rai) tr))"

text \<open>\<open>rdma_init_fabric\<close> is not called by any other function of the file; it leaves what it opened
  in the context.\<close>

definition rdma_init_fabric ::
  "fab_env \<Rightarrow> libfabric_ctx \<Rightarrow> fi_hints \<Rightarrow> fab_trace \<Rightarrow> (int \<times> libfabric_ctx) \<times> fab_trace" where
  "rdma_init_fabric env ctx h tr =
     (let (g, tr) = ext_call env (FiGetinfo [] [] False h) tr in
      if ret g \<noteq> 0 then ((ret g, ctx), tr) else
      let ctx = ctx\<lparr>info_ptr := out g, info := out_info g\<rparr>;
          (f, tr) = ext_call env (FiFabric (info_ptr ctx)) tr
      in if ret f \<noteq> 0 then ((ret f, ctx), tr) else
      let ctx = ctx\<lparr>fabric := out f\<rparr>;
          (d, tr) = ext_call env (FiDomain (fabric ctx) (info_ptr ctx)) tr
      in if ret d \<noteq> 0 then ((ret d, ctx), tr) else ((0, ctx\<lparr>domain := out d\<rparr>), tr))"

definition rdma_init ::
  "fi_consts \<Rightarrow> fab_env \<Rightarrow> libfabric_ctx option option \<Rightarrow> fab_trace
     \<Rightarrow> (int \<times> libfabric_ctx option option) \<times> fab_trace" where
  "rdma_init K env ctxp tr = (case ctxp of
      Some (Some ctx) \<Rightarrow>
       (let (ctx, tr) = (if fabric ctx \<noteq> 0 \<or> domain ctx \<noteq> 0 \<or> info_ptr ctx \<noteq> 0
                         then rdma_free_res env ctx tr else (ctx, tr));
            (a, tr) = ext_call env FiAllocinfo tr
        in if out a = 0 then ((- ENOMEM, Some (Some ctx)), tr) else
        let (h, tr) = fill_hints K env ctx (blank_hints a) tr;
            ctx = ctx\<lparr>is_initialized := False, ep_attr_type := h_ep_type h, addr_format := c_sockaddr_in K\<rparr>;
            ((r, rai, h), tr) = rdma_resolve K env ctx h tr
        in if r \<noteq> 0 then ((r, Some (Some ctx)), release_temps env rai h tr) else
        let ((r, cp), tr) = open_device env ctx h tr;
            tr = release_temps env rai h tr
        in if r \<noteq> 0 then ((r, Some cp), tr)
           else ((0, Some (map_option (\<lambda>c. c\<lparr>is_initialized := True\<rparr>) cp)), tr))
    | _ \<Rightarrow> ((- EINVAL, ctxp), tr))"

definition rdma_deinit ::
  "fab_env \<Rightarrow> libfabric_ctx option option \<Rightarrow> fab_trace \<Rightarrow> (int \<times> libfabric_ctx option option) \<times> fab_trace" where
  "rdma_deinit env ctxp tr = (case ctxp of
      Some (Some ctx) \<Rightarrow>
       (let (ctx, tr) = rdma_free_res env ctx tr;
            (ctx, tr) = (if info_ptr ctx \<noteq> 0
                         then (ctx\<lparr>info_ptr := 0\<rparr>, snd (ext_call env (FiFreeinfo (info_ptr ctx)) tr))
                         else (ctx, tr));
            tr = snd (ext_call env (Free (ctx_self ctx)) tr)
        in ((0, Some None), tr))
    | _ \<Rightarrow> ((- EINVAL, ctxp), tr))"

section \<open>Memory accounting\<close>

fun ev_alloc :: "fab_call \<times> fab_res \<Rightarrow> nat multiset" where
  "ev_alloc (Malloc n, r) = handle (out r)"
| "ev_alloc (Strdup s, r) = handle (out r)"
| "ev_alloc (FiAllocinfo, r) =
     (if out r = 0 then {#} else handle (out r) + handle (out_tx_attr r) + handle (out_rx_attr r))"
| "ev_alloc (FiGetinfo _ _ _ _, r) = (if ret r = 0 then handle (out r) else {#})"
| "ev_alloc (RdmaGetaddrinfo _ _, r) = (if ret r = 0 then handle (out r) else {#})"
| "ev_alloc _ = {#}"

fun ev_free :: "fab_call \<times> fab_res \<Rightarrow> nat multiset" where
  "ev_free (Free p, r) = handle p"
| "ev_free (FiFreeinfo p, r) = handle p"
| "ev_free (RdmaFreeaddrinfo p, r) = handle p"
| "ev_free _ = {#}"

definition allocd :: "fab_trace \<Rightarrow> nat multiset" where
  "allocd tr = ledger ev_alloc tr"

definition freed :: "fab_trace \<Rightarrow> nat multiset" where
  "freed tr = ledger ev_free tr"

lemma mem_ledger_simps [simp]:
  "allocd [] = {#}" "allocd (tr @ tr') = allocd tr + allocd tr'" "allocd (e # tr) = ev_alloc e + allocd tr"
  "freed [] = {#}" "freed (tr @ tr') = freed tr + freed tr'" "freed (e # tr) = ev_free e + freed tr"
  by (simp_all add: allocd_def freed_def)

lemma free_ptr_ledger [simp]:
  "opened (free_ptr env p tr) = opened tr" "closed (free_ptr env p tr) = closed tr"
  "allocd (free_ptr env p tr) = allocd tr" "freed (free_ptr env p tr) = freed tr + handle p"
  by (simp_all add: free_ptr_def)

lemma close_fid_mem [simp]:
  "allocd (snd (close_fid env h tr)) = allocd tr" "freed (snd (close_fid env h tr)) = freed tr"
  by (simp_all add: close_fid_def)

definition hints_mem :: "fi_hints \<Rightarrow> nat multiset" where
  "hints_mem h = handle (h_self h) + handle (h_tx_attr h) + handle (h_rx_attr h) +
     handle (h_dom_name h) + handle (h_fab_name h) + handle (h_prov_ptr h) +
     handle (h_src_addr h) + handle (h_dest_addr h)"

lemma release_temps_ledger [simp]:
  "opened (release_temps env rai h tr) = opened tr" "closed (release_temps env rai h tr) = closed tr"
  "allocd (release_temps env rai h tr) = allocd tr"
  "freed (release_temps env rai h tr) = freed tr + handle rai + hints_mem h"
  by (simp_all add: release_temps_def rdma_freehints_def hints_mem_def ext_call_def Let_def)

lemma fill_hints_ledger:
  assumes "fill_hints K env ctx (blank_hints a) tr = (h, tr')"
  shows "opened tr' = opened tr" "closed tr' = closed tr" "freed tr' = freed tr"
    "allocd tr' = allocd tr + handle (h_prov_ptr h)"
    "hints_mem h = handle (out a) + handle (out_tx_attr a) + handle (out_rx_attr a) + handle (h_prov_ptr h)"
    "h_src_addr h = 0" "h_dest_addr h = 0" "h_ep_type h = c_ep_rdm K"
  using assms
  by (auto simp: fill_hints_def blank_hints_def hints_mem_def ext_call_def Let_def split: if_splits)

lemma alloc_addr_ledger:
  assumes "alloc_addr env len tr = (p, tr')"
  shows "opened tr' = opened tr \<and> closed tr' = closed tr \<and> freed tr' = freed tr \<and>
    allocd tr' = allocd tr + (case p of None \<Rightarrow> {#} | Some q \<Rightarrow> handle q)"
  using assms by (auto simp: alloc_addr_def ext_call_def Let_def split: if_splits)

lemma rdma_resolve_ledger:
  assumes "rdma_resolve K env ctx h tr = ((r, rai, h'), tr')" and "h_src_addr h = 0" "h_dest_addr h = 0"
  shows "opened tr' = opened tr" "closed tr' = closed tr" "freed tr' = freed tr"
    "allocd tr' + hints_mem h = allocd tr + handle rai + hints_mem h'"
  using assms
  by (auto simp: rdma_resolve_def resolve_rx_def resolve_tx_def ext_call_def Let_def hints_mem_def
      split: if_splits prod.splits option.splits dest!: alloc_addr_ledger)

lemma open_device_ledger:
  assumes "open_device env ctx h tr = ((r, cp), tr')"
  shows "r \<noteq> 0 \<Longrightarrow> \<exists>X M. opened tr' = opened tr + X \<and> closed tr' = closed tr + X \<and>
      allocd tr' = allocd tr + M \<and> (cp = None \<or> cp = Some ctx) \<and>
      freed tr' = freed tr + M + (if cp = None then handle (ctx_self ctx) else {#})"
    and "r = 0 \<Longrightarrow> \<exists>c. cp = Some c \<and> opened tr' = opened tr + {#fabric c, domain c#} \<and>
      closed tr' = closed tr \<and> allocd tr' = allocd tr + handle (info_ptr c) \<and> freed tr' = freed tr \<and>
      ctx_self c = ctx_self ctx \<and> (valid_handles env \<longrightarrow> fabric c \<noteq> 0 \<and> domain c \<noteq> 0)"
  using assms valid_handlesD [of env]
  by (auto simp: open_device_def ext_call_def Let_def split: if_splits)

lemma rdma_free_res_ledger:
  assumes "rdma_free_res env ctx tr = (ctx', tr')"
  shows "opened tr' = opened tr" "closed tr' = closed tr + handle (domain ctx) + handle (fabric ctx)"
    "allocd tr' = allocd tr" "freed tr' = freed tr + handle (info_ptr ctx)"
    "ctx' = ctx\<lparr>domain := 0, fabric := 0, info_ptr := 0\<rparr>"
  using assms
  by (auto simp: rdma_free_res_def Let_def split_beta handle_def)

lemma rdma_init_ledger:
  assumes "valid_handles env" and "fabric ctx = 0" "domain ctx = 0" "info_ptr ctx = 0"
    and "rdma_init K env (Some (Some ctx)) tr = ((r, p), tr')"
  shows "r \<noteq> 0 \<Longrightarrow> \<exists>cp X M. p = Some cp \<and> opened tr' = opened tr + X \<and> closed tr' = closed tr + X \<and>
      allocd tr' = allocd tr + M \<and>
      freed tr' = freed tr + M + (if cp = None then handle (ctx_self ctx) else {#})"
    and "r = 0 \<Longrightarrow> \<exists>c M. p = Some (Some c) \<and> is_initialized c \<and>
      opened tr' = opened tr + {#fabric c, domain c#} \<and> closed tr' = closed tr \<and>
      allocd tr' = allocd tr + M + handle (info_ptr c) \<and> freed tr' = freed tr + M \<and>
      ctx_self c = ctx_self ctx \<and> fabric c \<noteq> 0 \<and> domain c \<noteq> 0"
proof -
  let ?a = "env tr FiAllocinfo" and ?tr = "tr @ [(FiAllocinfo, env tr FiAllocinfo)]"
  obtain h tr2 where f: "fill_hints K env ctx (blank_hints ?a) ?tr = (h, tr2)" by force
  let ?c = "ctx\<lparr>is_initialized := False, ep_attr_type := h_ep_type h, addr_format := c_sockaddr_in K\<rparr>"
  obtain r3 rai h3 tr3 where s: "rdma_resolve K env ?c h tr2 = ((r3, rai, h3), tr3)"
    by (metis prod.collapse)
  obtain r4 cp tr4 where o: "open_device env ?c h3 tr3 = ((r4, cp), tr4)" by (metis prod.collapse)
  note F = fill_hints_ledger [OF f] and S = rdma_resolve_ledger [OF s F(6,7)]
    and O = open_device_ledger [OF o]
  have "rdma_init K env (Some (Some ctx)) tr =
    (if out ?a = 0 then ((- ENOMEM, Some (Some ctx)), ?tr)
     else if r3 \<noteq> 0 then ((r3, Some (Some ?c)), release_temps env rai h3 tr3)
     else if r4 \<noteq> 0 then ((r4, Some cp), release_temps env rai h3 tr4)
     else ((0, Some (map_option (\<lambda>c. c\<lparr>is_initialized := True\<rparr>) cp)), release_temps env rai h3 tr4))"
    using assms(2-4) by (simp add: rdma_init_def ext_call_def f s o Let_def)
  note run = assms(5) [symmetric, unfolded this]
  have m: "allocd tr3 = allocd tr + handle rai + hints_mem h3" if "out ?a \<noteq> 0"
    using S(4) F(4,5) that by (simp add: ac_simps)
  {
    assume "r \<noteq> 0"
    consider "out ?a = 0" | "out ?a \<noteq> 0" "r3 \<noteq> 0" | "out ?a \<noteq> 0" "r3 = 0" "r4 \<noteq> 0"
      using run \<open>r \<noteq> 0\<close> by (auto split: if_splits)
    then show "\<exists>cp X M. p = Some cp \<and> opened tr' = opened tr + X \<and> closed tr' = closed tr + X \<and>
      allocd tr' = allocd tr + M \<and>
      freed tr' = freed tr + M + (if cp = None then handle (ctx_self ctx) else {#})"
    proof cases
      case 3
      with O(1) obtain X M where "opened tr4 = opened tr3 + X" "closed tr4 = closed tr3 + X"
        "allocd tr4 = allocd tr3 + M"
        "freed tr4 = freed tr3 + M + (if cp = None then handle (ctx_self ctx) else {#})" by auto
      then show ?thesis using 3 run m F S
        by (intro exI [of _ cp] exI [of _ X] exI [of _ "handle rai + hints_mem h3 + M"]) auto
    qed (use run m F S in auto)
  }
  {
    assume "r = 0"
    then have z: "out ?a \<noteq> 0" "r3 = 0" "r4 = 0" using run by (auto simp: ENOMEM_def split: if_splits)
    with O(2) obtain c where "cp = Some c" "opened tr4 = opened tr3 + {#fabric c, domain c#}"
      "closed tr4 = closed tr3" "allocd tr4 = allocd tr3 + handle (info_ptr c)" "freed tr4 = freed tr3"
      "ctx_self c = ctx_self ctx" "fabric c \<noteq> 0" "domain c \<noteq> 0" using assms(1) by auto
    then show "\<exists>c M. p = Some (Some c) \<and> is_initialized c \<and>
      opened tr' = opened tr + {#fabric c, domain c#} \<and> closed tr' = closed tr \<and>
      allocd tr' = allocd tr + M + handle (info_ptr c) \<and> freed tr' = freed tr + M \<and>
      ctx_self c = ctx_self ctx \<and> fabric c \<noteq> 0 \<and> domain c \<noteq> 0"
      using z run m F S
      by (intro exI [of _ "c\<lparr>is_initialized := True\<rparr>"] exI [of _ "handle rai + hints_mem h3"]) auto
  }
qed

text \<open>
  C13. A failed \<open>rdma_init\<close> on a context without resources leaks nothing: handles opened and
  closed balance, and so do memory, \<open>fi_info\<close> and address lists; the caller's context itself is
  freed exactly when the pointer comes back NULL, so the caller may always free what is left.
\<close>

theorem rdma_init_failure_releases:
  assumes "valid_handles env" and "fabric ctx = 0" "domain ctx = 0" "info_ptr ctx = 0"
    and "rdma_init K env (Some (Some ctx)) tr = ((r, p), tr')" and "r \<noteq> 0"
  shows "\<exists>cp X M. p = Some cp \<and> opened tr' = opened tr + X \<and> closed tr' = closed tr + X \<and>
    allocd tr' = allocd tr + M \<and>
    freed tr' = freed tr + M + (if cp = None then handle (ctx_self ctx) else {#})"
  by (rule rdma_init_ledger(1) [OF assms])

definition failing_domain_env :: fab_env where
  "failing_domain_env tr c = (case c of
      FiDomain _ _ \<Rightarrow> res0\<lparr>ret := -22\<rparr>
    | _ \<Rightarrow> fresh_env tr c)"

definition idle_ctx :: libfabric_ctx where
  "idle_ctx = rdma_ctx0\<lparr>fabric := 0, domain := 0, info_ptr := 0, is_initialized := False\<rparr>"

lemma failing_domain_env_valid: "valid_handles failing_domain_env"
  using fresh_env_valid
  by (auto simp: valid_handles_def failing_domain_env_def res0_def split: fab_call.splits)

lemmas dev_run_simps = rdma_init_def fill_hints_def rdma_resolve_def resolve_tx_def alloc_addr_def
  open_device_def ext_call_def Let_def idle_ctx_def rdma_ctx0_def res0_def fresh_env_def
  failing_domain_env_def libfabric_2_0_def

theorem rdma_init_failure_releases_witness:
  "\<exists>tr' X M. rdma_init libfabric_2_0 failing_domain_env (Some (Some idle_ctx)) [] =
     ((-22, Some None), tr') \<and> opened tr' = X \<and> closed tr' = X \<and> allocd tr' = M \<and>
     freed tr' = M + {#9#}"
proof -
  let ?i = "rdma_init libfabric_2_0 failing_domain_env (Some (Some idle_ctx)) []"
  have f: "fst ?i = (-22, Some None)" by (simp add: dev_run_simps)
  obtain r p tr' where i: "?i = ((r, p), tr')" by (metis prod.collapse)
  from rdma_init_failure_releases [OF failing_domain_env_valid _ _ _ i] f i show ?thesis
    by (auto simp: idle_ctx_def rdma_ctx0_def)
qed

text \<open>
  C14. Initialising a device context and deinitialising it is balanced: \<open>rdma_init\<close> succeeds with
  a usable context that holds one fabric and one domain, and after \<open>rdma_deinit\<close> every handle and
  every allocation made on the way, and the context itself, have been released exactly once.
\<close>

theorem rdma_device_lifecycle_balanced:
  assumes "valid_handles env" and "fabric ctx = 0" "domain ctx = 0" "info_ptr ctx = 0"
    and "rdma_init K env (Some (Some ctx)) tr = ((0, p), tr1)"
    and "rdma_deinit env p tr1 = ((d, q), tr2)"
  shows "d = 0 \<and> q = Some None \<and>
    (\<exists>X M. opened tr2 = opened tr + X \<and> closed tr2 = closed tr + X \<and>
       allocd tr2 = allocd tr + M \<and> freed tr2 = freed tr + M + handle (ctx_self ctx))"
proof -
  from rdma_init_ledger(2) [OF assms(1-5) refl] obtain c M where c: "p = Some (Some c)"
    "opened tr1 = opened tr + {#fabric c, domain c#}" "closed tr1 = closed tr"
    "allocd tr1 = allocd tr + M + handle (info_ptr c)" "freed tr1 = freed tr + M"
    "ctx_self c = ctx_self ctx" "fabric c \<noteq> 0" "domain c \<noteq> 0" by blast
  obtain c' tr' where f: "rdma_free_res env c tr1 = (c', tr')" by force
  note F = rdma_free_res_ledger [OF f]
  from assms(6) c(1) f F(5) have "d = 0 \<and> q = Some None \<and> tr2 = tr' @ [(Free (ctx_self c), env tr' (Free (ctx_self c)))]"
    by (auto simp: rdma_deinit_def ext_call_def)
  with c F show ?thesis
    by (intro conjI exI [of _ "{#fabric c, domain c#}"] exI [of _ "M + handle (info_ptr c)"])
       (auto simp: ac_simps)
qed

theorem rdma_device_lifecycle_balanced_witness:
  "\<exists>p tr1 d q tr2 X M. rdma_init libfabric_2_0 fresh_env (Some (Some idle_ctx)) [] = ((0, p), tr1) \<and>
     rdma_deinit fresh_env p tr1 = ((d, q), tr2) \<and> opened tr2 = X \<and> closed tr2 = X \<and>
     allocd tr2 = M \<and> freed tr2 = M + {#9#}"
proof -
  let ?i = "rdma_init libfabric_2_0 fresh_env (Some (Some idle_ctx)) []"
  have f: "fst (fst ?i) = 0" by (simp add: dev_run_simps)
  obtain p tr1 where i: "?i = ((0, p), tr1)" using f by (metis prod.collapse)
  obtain d q tr2 where d: "rdma_deinit fresh_env p tr1 = ((d, q), tr2)" by (metis prod.collapse)
  from rdma_device_lifecycle_balanced [OF fresh_env_valid _ _ _ i d] i d show ?thesis
    by (auto simp: idle_ctx_def rdma_ctx0_def)
qed

end
