(* ===== verification/Dataplane_Ptr.thy ===== *)
theory Dataplane_Ptr
  imports Prelude
begin

text \<open>
  The lock-free pointer cell of the data plane, \<open>mesh::sync::DataplaneAtomicPtr\<close>
  (media-proxy/src/mesh/sync.cc and include/mesh/sync.h). The cell is a record of its two
  64-bit atomics. Each atomic access of the four methods is one function on that record;
  \<open>load_next_lock\<close>, \<open>unlock\<close> and \<open>store_wait\<close> compose them as the source does, and
  \<open>dap_step\<close> interleaves the same accesses for one hot-path thread and any number of regular
  threads that contend for the mutex. The theorems are about every interleaving.
  Atomics are modelled as sequentially consistent.
\<close>

section \<open>The cell and its atomic accesses\<close>

record dap =
  current :: u64
  next_val :: u64

definition dap_init :: dap where
  "dap_init = \<lparr>current = 0, next_val = 0\<rparr>"

definition STATE_UNLOCKED :: u64 where "STATE_UNLOCKED = 0"
definition STATE_LOCKED :: u64 where "STATE_LOCKED = 2"
definition FLAG_NEW_VALUE :: u64 where "FLAG_NEW_VALUE = 1"

definition has_new :: "u64 \<Rightarrow> bool" where
  "has_new x \<longleftrightarrow> x AND FLAG_NEW_VALUE \<noteq> 0"

definition tag :: "u64 \<Rightarrow> u64" where
  "tag p = p OR FLAG_NEW_VALUE"

definition untag :: "u64 \<Rightarrow> u64" where
  "untag x = x AND NOT FLAG_NEW_VALUE"

definition load :: "dap \<Rightarrow> u64" where
  "load d = current d"

definition store_xchg :: "u64 \<Rightarrow> dap \<Rightarrow> u64 \<times> dap" where
  "store_xchg v d = (next_val d, d\<lparr>next_val := tag v\<rparr>)"

definition store_current :: "u64 \<Rightarrow> dap \<Rightarrow> dap" where
  "store_current v d = d\<lparr>current := v\<rparr>"

definition load_next_xchg :: "dap \<Rightarrow> u64 \<times> dap" where
  "load_next_xchg d = (next_val d, d\<lparr>next_val := STATE_LOCKED\<rparr>)"

definition load_next_take :: "u64 \<Rightarrow> dap \<Rightarrow> u64 \<times> dap" where
  "load_next_take nv d =
     (if has_new nv then (untag nv, store_current (untag nv) d) else (current d, d))"

definition unlock_xchg :: "dap \<Rightarrow> u64 \<times> dap" where
  "unlock_xchg d = (next_val d, d\<lparr>next_val := STATE_UNLOCKED\<rparr>)"

definition unlock_publish :: "u64 \<Rightarrow> dap \<Rightarrow> dap" where
  "unlock_publish nv d = (if has_new nv then store_current (untag nv) d else d)"

section \<open>The methods, run without interference\<close>

definition load_next_lock :: "dap \<Rightarrow> u64 \<times> dap" where
  "load_next_lock d = (let (nv, d1) = load_next_xchg d in load_next_take nv d1)"

definition unlock :: "dap \<Rightarrow> dap" where
  "unlock d = (let (nv, d1) = unlock_xchg d in unlock_publish nv d1)"

text \<open>
  \<open>store_wait\<close> returns \<open>None\<close> where the code would keep sleeping: the cell is locked and,
  with no other thread to unlock it, \<open>current\<close> never becomes the new value.
\<close>

definition store_wait :: "u64 \<Rightarrow> dap \<Rightarrow> dap option" where
  "store_wait v d =
     (let (prev, d1) = store_xchg v d
      in if prev = STATE_LOCKED then (if current d1 = v then Some d1 else None)
         else Some (store_current v d1))"

lemmas dap_access_defs [mesh_defs] = load_def store_xchg_def store_current_def
  load_next_xchg_def load_next_take_def unlock_xchg_def unlock_publish_def

section \<open>Interleavings\<close>

text \<open>
  The hot-path thread: between \<open>unlock\<close> and \<open>load_next_lock\<close> (\<open>HIdle\<close>), after the
  exchange of \<open>load_next_lock\<close> with the value it returned, in the critical section with the
  pointer it uses, after the exchange of \<open>unlock\<close>. A regular thread in \<open>store_wait\<close>:
  waiting for the mutex, holding it before the exchange, after the exchange with the previous
  value, sleeping in the loop.
\<close>

datatype hot_pc = HIdle | HTake u64 | HCrit u64 | HPublish u64

datatype writer_pc = WIdle | WEnter u64 | WLocked u64 | WXchg u64 u64 | WSpin u64

record dap_sys =
  cell :: dap
  hot :: hot_pc
  writers :: "nat \<Rightarrow> writer_pc"
  mx :: "nat option"
  latest :: u64

text \<open>\<open>latest\<close> is not a field of the source: it records the value of the last exchange made by
  \<open>store_wait\<close>, and no rule reads it except the guard \<open>P\<close> that states what callers do.\<close>

definition dap_start :: dap_sys where
  "dap_start = \<lparr>cell = dap_init, hot = HIdle, writers = (\<lambda>_. WIdle), mx = None, latest = 0\<rparr>"

definition dap_sys_init :: "dap_sys \<Rightarrow> bool" where
  "dap_sys_init s \<longleftrightarrow> s = dap_start"

datatype dap_label =
    LockXchg | Take | UnlockXchg | Publish
  | Call nat u64 | Acquire nat | StoreXchg nat u64 | StoreRet nat u64 | Sleep nat
  | SpinAgain nat | SpinRet nat u64

text \<open>A pointer stored in the cell has bit 0 clear: it points to an object of alignment two
  or more, or is null.\<close>

definition aligned :: "u64 \<Rightarrow> bool" where
  "aligned p \<longleftrightarrow> \<not> has_new p"

inductive dap_step :: "(u64 \<Rightarrow> u64 \<Rightarrow> bool) \<Rightarrow> dap_sys \<Rightarrow> dap_label \<Rightarrow> dap_sys \<Rightarrow> bool"
  for P :: "u64 \<Rightarrow> u64 \<Rightarrow> bool" where
  lock_xchg: "hot s = HIdle \<Longrightarrow> load_next_xchg (cell s) = (nv, d) \<Longrightarrow>
     dap_step P s LockXchg (s\<lparr>cell := d, hot := HTake nv\<rparr>)"
| take: "hot s = HTake nv \<Longrightarrow> load_next_take nv (cell s) = (p, d) \<Longrightarrow>
     dap_step P s Take (s\<lparr>cell := d, hot := HCrit p\<rparr>)"
| unlock_x: "hot s = HCrit p \<Longrightarrow> unlock_xchg (cell s) = (nv, d) \<Longrightarrow>
     dap_step P s UnlockXchg (s\<lparr>cell := d, hot := HPublish nv\<rparr>)"
| publish: "hot s = HPublish nv \<Longrightarrow>
     dap_step P s Publish (s\<lparr>cell := unlock_publish nv (cell s), hot := HIdle\<rparr>)"
| call: "writers s i = WIdle \<Longrightarrow> aligned v \<Longrightarrow>
     dap_step P s (Call i v) (s\<lparr>writers := (writers s)(i := WEnter v)\<rparr>)"
| acquire: "writers s i = WEnter v \<Longrightarrow> mx s = None \<Longrightarrow>
     dap_step P s (Acquire i) (s\<lparr>writers := (writers s)(i := WLocked v), mx := Some i\<rparr>)"
| store_x: "writers s i = WLocked v \<Longrightarrow> P (latest s) v \<Longrightarrow>
     store_xchg v (cell s) = (prev, d) \<Longrightarrow>
     dap_step P s (StoreXchg i v)
       (s\<lparr>cell := d, writers := (writers s)(i := WXchg v prev), latest := v\<rparr>)"
| store_ret: "writers s i = WXchg v prev \<Longrightarrow> prev \<noteq> STATE_LOCKED \<Longrightarrow>
     dap_step P s (StoreRet i v)
       (s\<lparr>cell := store_current v (cell s), writers := (writers s)(i := WIdle), mx := None\<rparr>)"
| sleep: "writers s i = WXchg v prev \<Longrightarrow> prev = STATE_LOCKED \<Longrightarrow>
     dap_step P s (Sleep i) (s\<lparr>writers := (writers s)(i := WSpin v)\<rparr>)"
| spin_again: "writers s i = WSpin v \<Longrightarrow> current (cell s) \<noteq> v \<Longrightarrow>
     dap_step P s (SpinAgain i) s"
| spin_ret: "writers s i = WSpin v \<Longrightarrow> current (cell s) = v \<Longrightarrow>
     dap_step P s (SpinRet i v) (s\<lparr>writers := (writers s)(i := WIdle), mx := None\<rparr>)"


section \<open>The tag bit\<close>

lemma has_new_iff: "has_new x \<longleftrightarrow> bit x 0"
  by (auto simp: has_new_def FLAG_NEW_VALUE_def and_one_eq bit_0 odd_iff_mod_2_eq_one)

lemma aligned_iff: "aligned p \<longleftrightarrow> \<not> bit p 0"
  by (simp add: aligned_def has_new_iff)

lemma aligned_consts [simp]: "aligned 0" "aligned STATE_UNLOCKED" "aligned STATE_LOCKED"
  by (simp_all add: aligned_iff STATE_UNLOCKED_def STATE_LOCKED_def bit_0)

lemma has_new_tag [simp]: "has_new (tag p)"
  by (simp add: has_new_iff tag_def FLAG_NEW_VALUE_def bit_or_iff bit_1_iff)

lemma has_new_consts [simp]: "\<not> has_new 0" "\<not> has_new STATE_UNLOCKED" "\<not> has_new STATE_LOCKED"
  using aligned_consts by (simp_all add: aligned_def)

lemma untag_tag [simp]: "aligned p \<Longrightarrow> untag (tag p) = p"
  by (rule bit_word_eqI)
    (auto simp: untag_def tag_def FLAG_NEW_VALUE_def aligned_iff bit_simps bit_1_iff intro: gr0I)

lemma tag_neq_consts [simp]:
  "tag p \<noteq> 0" "tag p \<noteq> STATE_UNLOCKED" "tag p \<noteq> STATE_LOCKED"
  "0 \<noteq> tag p" "STATE_UNLOCKED \<noteq> tag p" "STATE_LOCKED \<noteq> tag p"
  using has_new_tag [of p] has_new_consts by metis+

lemma tag_inject [simp]: "aligned p \<Longrightarrow> aligned q \<Longrightarrow> tag p = tag q \<longleftrightarrow> p = q"
  by (metis untag_tag)

lemma locked_neq_unlocked [simp]: "STATE_LOCKED \<noteq> STATE_UNLOCKED" "STATE_UNLOCKED \<noteq> STATE_LOCKED"
  by (simp_all add: STATE_UNLOCKED_def STATE_LOCKED_def)

section \<open>The invariant\<close>

definition in_mutex :: "writer_pc \<Rightarrow> bool" where
  "in_mutex w = (case w of WIdle \<Rightarrow> False | WEnter _ \<Rightarrow> False | _ \<Rightarrow> True)"

definition writer_value_ok :: "writer_pc \<Rightarrow> bool" where
  "writer_value_ok w = (case w of WIdle \<Rightarrow> True | WEnter v \<Rightarrow> aligned v | WLocked v \<Rightarrow> aligned v
     | WXchg v _ \<Rightarrow> aligned v | WSpin v \<Rightarrow> aligned v)"

definition holder :: "dap_sys \<Rightarrow> writer_pc" where
  "holder s = (case mx s of None \<Rightarrow> WIdle | Some i \<Rightarrow> writers s i)"

definition quiet_ok :: "dap \<Rightarrow> hot_pc \<Rightarrow> bool" where
  "quiet_ok d h = (case h of
      HIdle \<Rightarrow> next_val d = STATE_UNLOCKED \<or> next_val d = tag (current d)
    | HTake nv \<Rightarrow> next_val d = STATE_LOCKED \<and> (nv = STATE_UNLOCKED \<or> nv = tag (current d))
    | HCrit u \<Rightarrow> next_val d = STATE_LOCKED \<and> u = current d
    | HPublish nv \<Rightarrow> nv = STATE_LOCKED \<and>
        (next_val d = STATE_UNLOCKED \<or> next_val d = tag (current d)))"

definition wait_ok :: "u64 \<Rightarrow> dap \<Rightarrow> hot_pc \<Rightarrow> bool" where
  "wait_ok v d h = (if current d = v then quiet_ok d h else
     (case h of
       HIdle \<Rightarrow> False
     | HTake nv \<Rightarrow> next_val d = tag v \<and> (nv = STATE_UNLOCKED \<or> nv = tag (current d))
     | HCrit u \<Rightarrow> next_val d = tag v \<and> u = current d
     | HPublish nv \<Rightarrow> nv = tag v \<and> next_val d = STATE_UNLOCKED))"

definition direct_ok :: "u64 \<Rightarrow> dap \<Rightarrow> hot_pc \<Rightarrow> bool" where
  "direct_ok v d h = (if current d = v then quiet_ok d h else
     (case h of
       HIdle \<Rightarrow> next_val d = tag v
     | HTake nv \<Rightarrow> next_val d = STATE_LOCKED \<and> nv = tag v
     | HCrit u \<Rightarrow> False
     | HPublish nv \<Rightarrow> nv = STATE_LOCKED \<and> next_val d = tag v))"

definition phase_ok :: "writer_pc \<Rightarrow> u64 \<Rightarrow> dap \<Rightarrow> hot_pc \<Rightarrow> bool" where
  "phase_ok w lv d h = (case w of
      WXchg v prev \<Rightarrow> v = lv \<and> (if prev = STATE_LOCKED then wait_ok v d h else direct_ok v d h)
    | WSpin v \<Rightarrow> v = lv \<and> wait_ok v d h
    | _ \<Rightarrow> current d = lv \<and> quiet_ok d h)"

definition mutex_ok :: "dap_sys \<Rightarrow> bool" where
  "mutex_ok s \<longleftrightarrow> (\<forall>i. writer_value_ok (writers s i)) \<and>
     (\<forall>i. in_mutex (writers s i) \<longleftrightarrow> mx s = Some i)"

definition dap_inv :: "dap_sys \<Rightarrow> bool" where
  "dap_inv s \<longleftrightarrow> aligned (current (cell s)) \<and> aligned (latest s) \<and> mutex_ok s \<and>
     phase_ok (holder s) (latest s) (cell s) (hot s)"

lemmas pc_defs = in_mutex_def writer_value_ok_def
lemmas phase_defs = phase_ok_def quiet_ok_def wait_ok_def direct_ok_def

abbreviation (input) distinct_stores :: "u64 \<Rightarrow> u64 \<Rightarrow> bool" where
  "distinct_stores old new \<equiv> old \<noteq> new"

lemma dap_inv_init: "dap_sys_init s \<Longrightarrow> dap_inv s"
  by (simp add: dap_sys_init_def dap_start_def dap_init_def dap_inv_def mutex_ok_def pc_defs phase_defs holder_def
      STATE_UNLOCKED_def)

lemma mutex_okD:
  assumes "mutex_ok s" "in_mutex (writers s i)"
  shows "mx s = Some i" "holder s = writers s i" "writer_value_ok (writers s i)"
  using assms by (auto simp: mutex_ok_def holder_def)

lemma mutex_ok_upd:
  assumes "mutex_ok s" "writer_value_ok w" "in_mutex (writers s i)" "in_mutex w" "mx t = mx s"
    "writers t = (writers s)(i := w)"
  shows "mutex_ok t" "holder t = w"
  using assms by (auto simp: mutex_ok_def holder_def)

lemma mutex_ok_leave:
  assumes "mutex_ok s" "in_mutex (writers s i)" "mx t = None" "writers t = (writers s)(i := WIdle)"
  shows "mutex_ok t" "holder t = WIdle"
  using assms by (auto simp: mutex_ok_def holder_def pc_defs)

lemma mutex_ok_enter:
  assumes "mutex_ok s" "mx s = None" "writers s i = WEnter v" "mx t = Some i"
    "writers t = (writers s)(i := WLocked v)"
  shows "mutex_ok t" "holder t = WLocked v"
proof -
  have "writer_value_ok (writers s i)" using assms(1) by (simp add: mutex_ok_def)
  then have "aligned v" using assms(3) by (simp add: writer_value_ok_def)
  with assms show "mutex_ok t" "holder t = WLocked v"
    by (auto simp: mutex_ok_def holder_def pc_defs)
qed

lemma mutex_ok_call:
  assumes "mutex_ok s" "writers s i = WIdle" "aligned v" "mx t = mx s"
    "writers t = (writers s)(i := WEnter v)"
  shows "mutex_ok t" "holder t = holder s"
proof -
  have "\<not> in_mutex (writers s i)" using assms(2) by (simp add: in_mutex_def)
  then have "mx s \<noteq> Some i" using assms(1) by (auto simp: mutex_ok_def)
  then show "holder t = holder s" using assms by (auto simp: holder_def split: option.splits)
  show "mutex_ok t" using assms \<open>mx s \<noteq> Some i\<close> by (auto simp: mutex_ok_def pc_defs)
qed

lemma hot_frame [simp]:
  "holder (s\<lparr>cell := d, hot := h\<rparr>) = holder s" "mutex_ok (s\<lparr>cell := d, hot := h\<rparr>) = mutex_ok s"
  by (simp_all add: holder_def mutex_ok_def split: option.splits)

lemma hot_phase:
  assumes "phase_ok w lv d h" "aligned (current d)" "aligned lv"
  shows "h = HIdle \<Longrightarrow> load_next_xchg d = (nv, d') \<Longrightarrow>
           phase_ok w lv d' (HTake nv) \<and> aligned (current d')"
    and "h = HTake nv \<Longrightarrow> load_next_take nv d = (p, d') \<Longrightarrow>
           phase_ok w lv d' (HCrit p) \<and> aligned (current d')"
    and "h = HCrit p \<Longrightarrow> unlock_xchg d = (nv, d') \<Longrightarrow>
           phase_ok w lv d' (HPublish nv) \<and> aligned (current d')"
    and "h = HPublish nv \<Longrightarrow>
           phase_ok w lv (unlock_publish nv d) HIdle \<and> aligned (current (unlock_publish nv d))"
  using assms
  by (cases w; auto simp: phase_defs dap_access_defs split: if_splits)+

lemma hot_step_inv:
  assumes "dap_step distinct_stores s l t" "dap_inv s" "l \<in> {LockXchg, Take, UnlockXchg, Publish}"
  shows "dap_inv t"
proof -
  have *: "phase_ok (holder s) (latest s) (cell s) (hot s)" "aligned (current (cell s))"
    "aligned (latest s)" "mutex_ok s" using assms(2) by (simp_all add: dap_inv_def)
  show ?thesis using assms(1,3) *(4) hot_phase [OF *(1-3)] *(3)
    by (cases rule: dap_step.cases) (simp_all add: dap_inv_def)
qed

lemma holderD:
  assumes "dap_inv s" "writers s i = w" "in_mutex w"
  shows "holder s = w" "writer_value_ok w" "mutex_ok s" "in_mutex (writers s i)"
  using assms mutex_okD [of s i] by (auto simp: dap_inv_def)

lemma writer_step_inv:
  assumes "dap_step distinct_stores s l t" "dap_inv s" "l \<notin> {LockXchg, Take, UnlockXchg, Publish}"
  shows "dap_inv t"
  using assms
proof (cases rule: dap_step.cases)
  case (call i v)
  have "mutex_ok t" "holder t = holder s"
    using mutex_ok_call [of s i v t] call assms(2) by (simp_all add: dap_inv_def)
  with call assms(2) show ?thesis by (simp add: dap_inv_def phase_ok_def)
next
  case (acquire i v)
  have "mutex_ok t" "holder t = WLocked v" "holder s = WIdle"
    using mutex_ok_enter [of s i v t] acquire assms(2) by (simp_all add: dap_inv_def holder_def)
  with acquire assms(2) show ?thesis by (simp add: dap_inv_def phase_ok_def)
next
  case (store_x i v prev d)
  note h = holderD [OF assms(2) store_x(3)]
  have "mutex_ok t" "holder t = WXchg v prev"
    using mutex_ok_upd [of s "WXchg v prev" i t] store_x h by (simp_all add: pc_defs)
  with store_x assms(2) h show ?thesis
    by (auto simp: dap_inv_def phase_defs dap_access_defs pc_defs split: hot_pc.splits)
next
  case (store_ret i v prev)
  note h = holderD [OF assms(2) store_ret(3)]
  have "mutex_ok t" "holder t = WIdle"
    using mutex_ok_leave [of s i t] store_ret h by (simp_all add: pc_defs)
  with store_ret assms(2) h show ?thesis
    by (auto simp: dap_inv_def phase_defs dap_access_defs pc_defs split: hot_pc.splits if_splits)
next
  case (sleep i v prev)
  note h = holderD [OF assms(2) sleep(3)]
  have "mutex_ok t" "holder t = WSpin v"
    using mutex_ok_upd [of s "WSpin v" i t] sleep h by (simp_all add: pc_defs)
  with sleep assms(2) h show ?thesis by (auto simp: dap_inv_def phase_ok_def pc_defs)
next
  case (spin_ret i v)
  note h = holderD [OF assms(2) spin_ret(3)]
  have "mutex_ok t" "holder t = WIdle"
    using mutex_ok_leave [of s i t] spin_ret h by (simp_all add: pc_defs)
  with spin_ret assms(2) h show ?thesis by (auto simp: dap_inv_def phase_defs pc_defs)
qed auto

interpretation dap: inductive_invariant dap_sys_init "dap_step distinct_stores" dap_inv
proof unfold_locales
  fix s :: dap_sys
  assume "dap_sys_init s"
  then show "dap_inv s" by (rule dap_inv_init)
next
  fix s l t
  assume "dap_inv s" "dap_step distinct_stores s l t"
  then show "dap_inv t" using hot_step_inv writer_step_inv by blast
qed

section \<open>Executable steps\<close>

text \<open>A label determines its step: \<open>dap_exec\<close> computes it, and \<open>dap_exec_iff\<close> shows it is the
  same relation. Runs of concrete labels are evaluated with it.\<close>

fun dap_exec :: "(u64 \<Rightarrow> u64 \<Rightarrow> bool) \<Rightarrow> dap_sys \<Rightarrow> dap_label \<Rightarrow> dap_sys option" where
  "dap_exec P s LockXchg = (case hot s of
     HIdle \<Rightarrow> (let (nv, d) = load_next_xchg (cell s) in Some (s\<lparr>cell := d, hot := HTake nv\<rparr>))
   | _ \<Rightarrow> None)"
| "dap_exec P s Take = (case hot s of
     HTake nv \<Rightarrow> (let (p, d) = load_next_take nv (cell s) in Some (s\<lparr>cell := d, hot := HCrit p\<rparr>))
   | _ \<Rightarrow> None)"
| "dap_exec P s UnlockXchg = (case hot s of
     HCrit p \<Rightarrow> (let (nv, d) = unlock_xchg (cell s) in Some (s\<lparr>cell := d, hot := HPublish nv\<rparr>))
   | _ \<Rightarrow> None)"
| "dap_exec P s Publish = (case hot s of
     HPublish nv \<Rightarrow> Some (s\<lparr>cell := unlock_publish nv (cell s), hot := HIdle\<rparr>) | _ \<Rightarrow> None)"
| "dap_exec P s (Call i v) = (if writers s i = WIdle \<and> aligned v
     then Some (s\<lparr>writers := (writers s)(i := WEnter v)\<rparr>) else None)"
| "dap_exec P s (Acquire i) = (case writers s i of
     WEnter v \<Rightarrow> (if mx s = None
       then Some (s\<lparr>writers := (writers s)(i := WLocked v), mx := Some i\<rparr>) else None)
   | _ \<Rightarrow> None)"
| "dap_exec P s (StoreXchg i v) = (if writers s i = WLocked v \<and> P (latest s) v
     then (let (prev, d) = store_xchg v (cell s) in
       Some (s\<lparr>cell := d, writers := (writers s)(i := WXchg v prev), latest := v\<rparr>)) else None)"
| "dap_exec P s (StoreRet i v) = (case writers s i of
     WXchg v' prev \<Rightarrow> (if v' = v \<and> prev \<noteq> STATE_LOCKED then Some (s\<lparr>cell :=
       store_current v (cell s), writers := (writers s)(i := WIdle), mx := None\<rparr>) else None)
   | _ \<Rightarrow> None)"
| "dap_exec P s (Sleep i) = (case writers s i of
     WXchg v prev \<Rightarrow> (if prev = STATE_LOCKED
       then Some (s\<lparr>writers := (writers s)(i := WSpin v)\<rparr>) else None)
   | _ \<Rightarrow> None)"
| "dap_exec P s (SpinAgain i) = (case writers s i of
     WSpin v \<Rightarrow> (if current (cell s) \<noteq> v then Some s else None) | _ \<Rightarrow> None)"
| "dap_exec P s (SpinRet i v) = (if writers s i = WSpin v \<and> current (cell s) = v
     then Some (s\<lparr>writers := (writers s)(i := WIdle), mx := None\<rparr>) else None)"

lemma dap_exec_iff: "dap_exec P s l = Some t \<longleftrightarrow> dap_step P s l t"
proof
  assume "dap_exec P s l = Some t"
  then show "dap_step P s l t"
    by (cases l) (auto intro: dap_step.intros split: hot_pc.splits writer_pc.splits prod.splits
        if_splits)
next
  assume "dap_step P s l t"
  then show "dap_exec P s l = Some t" by (cases rule: dap_step.cases) auto
qed

fun dap_run :: "(u64 \<Rightarrow> u64 \<Rightarrow> bool) \<Rightarrow> dap_sys \<Rightarrow> dap_label list \<Rightarrow> dap_sys option" where
  "dap_run P s [] = Some s"
| "dap_run P s (l # ls) = (case dap_exec P s l of None \<Rightarrow> None | Some t \<Rightarrow> dap_run P t ls)"

lemma dap_run_iff: "dap_run P s ls = Some t \<longleftrightarrow> steps (dap_step P) s ls t"
proof (induction ls arbitrary: s)
  case Nil
  then show ?case by (auto intro: steps_nil elim: steps_nilE)
next
  case (Cons l ls)
  show ?case
    by (auto simp: dap_exec_iff [symmetric] Cons.IH split: option.splits
        intro: steps_cons elim!: steps_consE)
qed

lemma dap_run_reach: "dap_run P dap_start ls = Some t \<Longrightarrow> reach dap_sys_init (dap_step P) t"
  by (rule reach_steps [of "dap_step P" dap_start ls])
    (simp_all add: dap_run_iff dap_sys_init_def reach_init)

section \<open>The cell as a plain pointer\<close>

text \<open>
  What a client of the cell relies on when its own calls do not overlap: \<open>load\<close> returns the last
  stored value, \<open>store_wait\<close> returns at once, a hot-path section sees that value and leaves it.
\<close>

locale pointer_cell =
  fixes ready :: "'d \<Rightarrow> bool"
    and get :: "'d \<Rightarrow> 'p"
    and put :: "'p \<Rightarrow> 'd \<Rightarrow> 'd option"
    and enter :: "'d \<Rightarrow> 'p \<times> 'd"
    and leave :: "'d \<Rightarrow> 'd"
    and good :: "'p \<Rightarrow> bool"
  assumes put_get: "ready d \<Longrightarrow> good p \<Longrightarrow> \<exists>d'. put p d = Some d' \<and> ready d' \<and> get d' = p"
    and section_get: "ready d \<Longrightarrow> enter d = (p, d1) \<Longrightarrow>
          p = get d \<and> ready (leave d1) \<and> get (leave d1) = get d"
begin

lemma section_twice:
  assumes "ready d" "enter d = (p, d1)" "enter (leave d1) = (q, d2)"
  shows "q = p"
  using section_get [OF assms(1,2)] section_get [of "leave d1"] assms(3) by metis

lemma put_then_section:
  assumes "ready d" "good p" "put p d = Some d'" "enter d' = (q, d1)"
  shows "q = p"
  using put_get [OF assms(1,2)] section_get [of d'] assms(3,4) by auto

end

definition dap_ready :: "dap \<Rightarrow> bool" where
  "dap_ready d \<longleftrightarrow> aligned (current d) \<and>
     (next_val d = STATE_UNLOCKED \<or> next_val d = tag (current d))"

lemma dap_ready_init [simp]: "dap_ready dap_init"
  by (simp add: dap_ready_def dap_init_def STATE_UNLOCKED_def)

interpretation dpc: pointer_cell dap_ready load store_wait load_next_lock unlock aligned
  by unfold_locales
    (auto simp: dap_ready_def store_wait_def load_next_lock_def unlock_def dap_access_defs
      split: if_splits)

section \<open>Properties of every interleaving\<close>

text \<open>
  C1. Publication and grace period. In every interleaving in which each stored value differs from
  the one stored before it, the moment \<open>store_wait(v)\<close> returns the cell holds \<open>v\<close> and the hot
  path is not inside a critical section with any other pointer. The caller may therefore delete
  the object the previous pointer referred to.
\<close>

theorem store_wait_grace_period:
  assumes "reach dap_sys_init (dap_step distinct_stores) s"
    and "dap_step distinct_stores s l t" and "l = StoreRet i v \<or> l = SpinRet i v"
  shows "load (cell t) = v \<and> (\<forall>u. hot t = HCrit u \<longrightarrow> u = v) \<and> mx t = None"
proof -
  have s: "dap_inv s" by (rule dap.inv_reach [OF assms(1)])
  have t: "dap_inv t" by (rule dap.inv_step [OF s assms(2)])
  have mx: "mx t = None" using assms(2,3) by (auto elim: dap_step.cases)
  have "current (cell t) = v" using assms(2,3)
    by (auto elim!: dap_step.cases simp: dap_access_defs)
  moreover have "quiet_ok (cell t) (hot t)"
    using t mx by (simp add: dap_inv_def holder_def phase_ok_def)
  ultimately show ?thesis using mx by (auto simp: quiet_ok_def load_def)
qed

theorem store_wait_grace_period_witness:
  "\<exists>s t. reach dap_sys_init (dap_step distinct_stores) s \<and>
     dap_step distinct_stores s (SpinRet 0 16) t \<and> load (cell t) = 16"
proof -
  let ?ls = "[Call 0 8, Acquire 0, StoreXchg 0 8, StoreRet 0 8, LockXchg, Take, Call 0 16,
    Acquire 0, StoreXchg 0 16, Sleep 0, UnlockXchg, Publish]"
  obtain s where s: "dap_run distinct_stores dap_start ?ls = Some s"
    and w: "writers s 0 = WSpin 16" and c: "current (cell s) = 16"
    by (simp add: dap_start_def dap_init_def dap_access_defs aligned_def has_new_def untag_def
        tag_def STATE_LOCKED_def STATE_UNLOCKED_def FLAG_NEW_VALUE_def)
  let ?t = "s\<lparr>writers := (writers s)(0 := WIdle), mx := None\<rparr>"
  have r: "reach dap_sys_init (dap_step distinct_stores) s" by (rule dap_run_reach [OF s])
  have st: "dap_step distinct_stores s (SpinRet 0 16) ?t" by (rule spin_ret [OF w c])
  from store_wait_grace_period [OF r st, of 0 16] r st show ?thesis by blast
qed

lemma hot_values:
  assumes "dap_inv s"
  shows "hot s = HTake nv \<Longrightarrow>
      nv = STATE_UNLOCKED \<or> nv = tag (current (cell s)) \<or> nv = tag (latest s)"
    and "hot s = HPublish nv \<Longrightarrow> nv = STATE_LOCKED \<or> nv = tag (latest s)"
    and "writers s i = WXchg v prev \<Longrightarrow> v = latest s"
    and "writers s i = WSpin v \<Longrightarrow> v = latest s"
    and "writers s i = WLocked v \<Longrightarrow> aligned v"
    and "aligned (current (cell s))" and "aligned (latest s)"
proof -
  have ph: "phase_ok (holder s) (latest s) (cell s) (hot s)" using assms by (simp add: dap_inv_def)
  show "hot s = HTake nv \<Longrightarrow>
      nv = STATE_UNLOCKED \<or> nv = tag (current (cell s)) \<or> nv = tag (latest s)"
    and "hot s = HPublish nv \<Longrightarrow> nv = STATE_LOCKED \<or> nv = tag (latest s)"
    using ph by (cases "holder s"; auto simp: phase_defs split: if_splits)+
  show "writers s i = WXchg v prev \<Longrightarrow> v = latest s" and "writers s i = WSpin v \<Longrightarrow> v = latest s"
    using ph holderD [OF assms] by (auto simp: phase_defs in_mutex_def)
  show "writers s i = WLocked v \<Longrightarrow> aligned v"
    using holderD(2) [OF assms, of i "WLocked v"] by (simp add: pc_defs)
  show "aligned (current (cell s))" and "aligned (latest s)" using assms by (simp_all add: dap_inv_def)
qed

definition retired :: "u64 \<Rightarrow> dap_sys \<Rightarrow> bool" where
  "retired p s \<longleftrightarrow> p \<noteq> latest s \<and> p \<noteq> current (cell s) \<and> next_val (cell s) \<noteq> tag p \<and>
     hot s \<notin> {HCrit p, HTake (tag p), HPublish (tag p)}"

lemma retired_step:
  assumes "dap_step distinct_stores a l b" "dap_inv a" "\<forall>i. l \<noteq> StoreXchg i p" "aligned p"
    and "retired p a"
  shows "retired p b"
  using assms(1,3-) hot_values [OF assms(2)]
  by (cases rule: dap_step.cases)
    (auto simp: retired_def dap_access_defs split: if_splits)

lemma retired_quiet:
  assumes "dap_inv s" "mx s = None" "p \<noteq> latest s" "aligned p"
  shows "retired p s"
  using assms
  by (auto simp: retired_def dap_inv_def holder_def phase_defs split: hot_pc.splits)

text \<open>
  C2. Safe reclamation. In every interleaving in which each stored value differs from the one stored
  before it: once \<open>store_wait\<close> has returned, a pointer that was replaced stays out of the hot path
  for as long as no thread stores it again; no later critical section uses it.
\<close>

theorem replaced_pointer_unused:
  assumes "reach dap_sys_init (dap_step distinct_stores) s" and "mx s = None"
    and "p \<noteq> latest s" and "aligned p"
    and "steps (dap_step distinct_stores) s ls t" and "\<forall>i. StoreXchg i p \<notin> set ls"
  shows "hot t \<noteq> HCrit p \<and> load (cell t) \<noteq> p"
proof -
  have inv: "dap_inv s" by (rule dap.inv_reach [OF assms(1)])
  have "retired p t"
  proof (rule dap.preserved_along [OF assms(5) inv, of "retired p"])
    show "retired p s" by (rule retired_quiet [OF inv assms(2-4)])
  next
    fix a l b
    assume "l \<in> set ls" "dap_step distinct_stores a l b" "dap_inv a" "retired p a"
    then show "retired p b" using retired_step [of a l b p] assms(4,6) by auto
  qed
  then show ?thesis by (auto simp: retired_def load_def)
qed

lemmas dap_eval = dap_start_def dap_init_def dap_access_defs aligned_def has_new_def untag_def
  tag_def STATE_LOCKED_def STATE_UNLOCKED_def FLAG_NEW_VALUE_def

theorem replaced_pointer_unused_witness:
  "\<exists>s t. reach dap_sys_init (dap_step distinct_stores) s \<and> (8::u64) \<noteq> latest s \<and>
     steps (dap_step distinct_stores) s [LockXchg, Take] t \<and> hot t = HCrit 16 \<and> hot t \<noteq> HCrit 8"
proof -
  let ?ls = "[Call 0 8, Acquire 0, StoreXchg 0 8, StoreRet 0 8, Call 1 16, Acquire 1,
    StoreXchg 1 16, StoreRet 1 16]"
  obtain s where s: "dap_run distinct_stores dap_start ?ls = Some s"
    and m: "mx s = None" and l: "latest s = 16"
    and e: "\<exists>t. dap_run distinct_stores s [LockXchg, Take] = Some t \<and> hot t = HCrit 16"
    by (simp add: dap_eval)
  from e obtain t where t: "dap_run distinct_stores s [LockXchg, Take] = Some t"
    and h: "hot t = HCrit 16" by blast
  have r: "reach dap_sys_init (dap_step distinct_stores) s" by (rule dap_run_reach [OF s])
  have st: "steps (dap_step distinct_stores) s [LockXchg, Take] t"
    using t by (simp only: dap_run_iff)
  have n: "8 \<noteq> latest s" by (simp add: l)
  have "hot t \<noteq> HCrit 8 \<and> load (cell t) \<noteq> 8"
    by (rule replaced_pointer_unused [OF r m n _ st]) (simp_all add: dap_eval)
  with r n st h show ?thesis by blast
qed

text \<open>
  C3. \<open>store_wait\<close> does not outlast the critical section it waits for: from any reachable state in
  which a thread sleeps in the loop, at most three accesses of the hot path (finish
  \<open>load_next_lock\<close>, the two of \<open>unlock\<close>) lead to a state in which it returns.
\<close>

lemma spin_idle:
  assumes "dap_inv s" "writers s i = WSpin v" "hot s = HIdle"
  shows "current (cell s) = v"
  using assms holderD [OF assms(1,2)]
  by (auto simp: dap_inv_def phase_defs in_mutex_def split: if_splits)

theorem store_wait_returns:
  assumes "reach dap_sys_init (dap_step distinct_stores) s" and "writers s i = WSpin v"
  shows "\<exists>ls t u. set ls \<subseteq> {Take, UnlockXchg, Publish} \<and> length ls \<le> 3 \<and>
    steps (dap_step distinct_stores) s ls t \<and> dap_step distinct_stores t (SpinRet i v) u"
proof -
  have inv: "dap_inv s" by (rule dap.inv_reach [OF assms(1)])
  let ?R = "steps (dap_step distinct_stores) s"
  define ls where "ls = (case hot s of HIdle \<Rightarrow> [] | HTake _ \<Rightarrow> [Take, UnlockXchg, Publish]
     | HCrit _ \<Rightarrow> [UnlockXchg, Publish] | HPublish _ \<Rightarrow> [Publish])"
  have len: "set ls \<subseteq> {Take, UnlockXchg, Publish}" "length ls \<le> 3"
    by (auto simp: ls_def split: hot_pc.splits)
  obtain t where t: "dap_run distinct_stores s ls = Some t" "hot t = HIdle" "writers t = writers s"
    by (cases "hot s") (auto simp: ls_def dap_access_defs split_beta)
  have st: "?R ls t" using t(1) by (simp only: dap_run_iff)
  have "current (cell t) = v"
    by (rule spin_idle [OF dap.inv_steps [OF st inv], of i]) (simp_all add: t assms(2))
  then have "dap_step distinct_stores t (SpinRet i v) (t\<lparr>writers := (writers t)(i := WIdle), mx := None\<rparr>)"
    by (intro spin_ret) (simp_all add: t(3) assms(2))
  with len st show ?thesis by blast
qed

theorem store_wait_returns_witness:
  "\<exists>s ls t u. writers s 0 = WSpin (16::u64) \<and> length ls \<le> 3 \<and>
     steps (dap_step distinct_stores) s ls t \<and> dap_step distinct_stores t (SpinRet 0 16) u"
proof -
  let ?ls = "[LockXchg, Take, Call 0 16, Acquire 0, StoreXchg 0 16, Sleep 0]"
  obtain s where s: "dap_run distinct_stores dap_start ?ls = Some s"
    and w: "writers s 0 = WSpin 16" by (simp add: dap_eval)
  from store_wait_returns [OF dap_run_reach [OF s] w] w show ?thesis by blast
qed

text \<open>
  C4. The distinctness condition is needed. Let the hot path be inside a critical section with the
  pointer \<open>v\<close> the cell holds. A thread that stores another pointer \<open>w\<close> has to sleep and cannot return
  while the section lasts. But if it stores \<open>v\<close> again first, that call returns although the section
  lasts, and it hides the lock: the next call, storing \<open>w\<close>, returns without sleeping, and the hot path
  is still inside its section with \<open>v\<close>.
\<close>

theorem store_wait_same_value_unsafe:
  assumes "hot s = HCrit v" and "load (cell s) = v" and "next_val (cell s) = STATE_LOCKED"
    and "mx s = None" and "writers s i = WIdle" and "aligned v" and "aligned w" and "v \<noteq> w"
  shows "(\<exists>t. steps (dap_step (\<lambda>_ _. True)) s [Call i w, Acquire i, StoreXchg i w, Sleep i] t \<and> hot t = HCrit v \<and>
            \<not> (\<exists>u. dap_step (\<lambda>_ _. True) t (SpinRet i w) u) \<and> \<not> (\<exists>u. dap_step (\<lambda>_ _. True) t (StoreRet i w) u)) \<and>
    (\<exists>t u. steps (dap_step (\<lambda>_ _. True)) s [Call i v, Acquire i, StoreXchg i v, Sleep i, SpinRet i v] t \<and> hot t = HCrit v \<and>
       steps (dap_step (\<lambda>_ _. True)) t [Call i w, Acquire i, StoreXchg i w, StoreRet i w] u \<and>
       load (cell u) = w \<and> mx u = None \<and> hot u = HCrit v)"
proof -
  have v: "aligned v" "tag v \<noteq> STATE_LOCKED" "current (cell s) = v" using assms by (simp_all add: load_def)
  note run = dap_run_iff [symmetric] dap_exec_iff [symmetric]
  have "\<exists>t. dap_run (\<lambda>_ _. True) s [Call i w, Acquire i, StoreXchg i w, Sleep i] = Some t \<and> hot t = HCrit v \<and>
      writers t i = WSpin w \<and> current (cell t) = v"
    using assms v by (simp add: store_xchg_def Let_def)
  moreover have "\<exists>t. dap_run (\<lambda>_ _. True) s [Call i v, Acquire i, StoreXchg i v, Sleep i, SpinRet i v] = Some t \<and>
      hot t = HCrit v \<and> next_val (cell t) = tag v \<and> mx t = None \<and> writers t i = WIdle"
    using assms v by (simp add: store_xchg_def Let_def)
  moreover have "\<exists>u. dap_run (\<lambda>_ _. True) t [Call i w, Acquire i, StoreXchg i w, StoreRet i w] = Some u \<and>
      load (cell u) = w \<and> mx u = None \<and> hot u = hot t"
    if "next_val (cell t) = tag v" "mx t = None" "writers t i = WIdle" for t
    using that assms(7) v by (simp add: store_xchg_def store_current_def load_def Let_def)
  ultimately show ?thesis unfolding run using assms(8) by fastforce
qed

theorem store_wait_same_value_unsafe_witness:
  "\<exists>s t u. reach dap_sys_init (dap_step (\<lambda>_ _. True)) s \<and> hot s = HCrit 8 \<and>
     steps (dap_step (\<lambda>_ _. True)) s [Call 0 8, Acquire 0, StoreXchg 0 8, Sleep 0, SpinRet 0 8] t \<and>
     steps (dap_step (\<lambda>_ _. True)) t [Call 0 16, Acquire 0, StoreXchg 0 16, StoreRet 0 16] u \<and>
     load (cell u) = 16 \<and> hot u = HCrit 8"
proof -
  let ?ls = "[Call 0 8, Acquire 0, StoreXchg 0 8, StoreRet 0 8, LockXchg, Take]"
  obtain s where s: "dap_run (\<lambda>_ _. True) dap_start ?ls = Some s"
    and c: "hot s = HCrit 8" "load (cell s) = 8" "next_val (cell s) = STATE_LOCKED" "mx s = None" "writers s 0 = WIdle"
    by (simp add: dap_eval)
  have "aligned 8" "aligned 16" "(8 :: u64) \<noteq> 16" by (simp_all add: dap_eval)
  from store_wait_same_value_unsafe [OF c this] dap_run_reach [OF s] c(1) show ?thesis by blast
qed

end
