(* ===== verification/Connection.thy ===== *)
theory Connection
  imports Dataplane_Ptr
begin

text \<open>
  The media proxy's base connection class, media-proxy/src/mesh/conn.cc and include/mesh/conn.h:
  its state machine (\<open>establish\<close>, \<open>suspend\<close>, \<open>resume\<close>, \<open>shutdown\<close> and the threaded variants), the
  hot path \<open>transmit\<close> / \<open>do_receive\<close> over a store of connection objects, links through the
  data-plane pointer cell, and the counters with their widths. The virtual methods of derived
  classes are arguments: \<open>on_establish\<close> and \<open>on_shutdown\<close> with the contract \<open>conn_backend\<close>, which
  every derived class of the development interprets, and \<open>on_receive\<close>. Logging is left out.
\<close>

section \<open>Data\<close>

datatype kind = Kundefined | Ktransmitter | Kreceiver

datatype state = not_configured | configured | establishing | active | suspended | closing | closed_st
  | deleting

datatype status = Sinitial | Stransition | Shealthy | Sfailure | Sshutdown

datatype result = success | error_not_supported | error_wrong_state | error_no_link_assigned
  | error_bad_argument | error_out_of_memory | error_general_failure | error_context_cancelled
  | error_conn_config_invalid | error_buf_config_invalid | error_payload_config_invalid
  | error_already_initialized | error_initialization_failed | error_memory_registration_failed
  | error_thread_creation_failed | error_no_buffer | error_timeout

record metrics =
  inbound_bytes :: u64
  outbound_bytes :: u64
  transactions_succeeded :: u32
  transactions_failed :: u32
  errors :: u32
  prev_timestamp_ms :: int
  prev_inbound_bytes :: u64
  prev_outbound_bytes :: u64
  prev_errors :: u32
  prev_transactions_succeeded :: u32

definition metrics0 :: metrics where
  "metrics0 = \<lparr>inbound_bytes = 0, outbound_bytes = 0, transactions_succeeded = 0,
     transactions_failed = 0, errors = 0, prev_timestamp_ms = 0, prev_inbound_bytes = 0,
     prev_outbound_bytes = 0, prev_errors = 0, prev_transactions_succeeded = 0\<rparr>"

text \<open>Derived classes: a multipoint group with its list of outputs and the pointer cell of the
  hot path's copy of it, or any other class.\<close>

datatype conn_class = CGroup "u64 list" dap | COther nat

record conn_obj =
  o_kind :: kind
  o_state :: state
  o_status :: status
  o_link :: dap
  o_metrics :: metrics
  o_class :: conn_class

definition new_connection :: "conn_class \<Rightarrow> kind \<Rightarrow> conn_obj" where
  "new_connection cl k = \<lparr>o_kind = k, o_state = not_configured, o_status = Sinitial,
     o_link = dap_init, o_metrics = metrics0, o_class = cl\<rparr>"

section \<open>State and status\<close>

definition set_state :: "state \<Rightarrow> conn_obj \<Rightarrow> conn_obj" where
  "set_state s c = c\<lparr>o_state := s\<rparr>"

definition set_status :: "status \<Rightarrow> conn_obj \<Rightarrow> conn_obj" where
  "set_status s c = c\<lparr>o_status := s\<rparr>"

definition conn_status :: "conn_obj \<Rightarrow> status" where
  "conn_status c = (case o_state c of
      not_configured \<Rightarrow> Sinitial
    | configured \<Rightarrow> Sinitial
    | establishing \<Rightarrow> Stransition
    | closing \<Rightarrow> Stransition
    | closed_st \<Rightarrow> Sshutdown
    | deleting \<Rightarrow> Sshutdown
    | _ \<Rightarrow> o_status c)"

definition set_result :: "result \<Rightarrow> conn_obj \<Rightarrow> result \<times> conn_obj" where
  "set_result r c =
     (r, if r \<noteq> success then c\<lparr>o_metrics := (o_metrics c)\<lparr>errors := errors (o_metrics c) + 1\<rparr>\<rparr> else c)"

text \<open>A virtual method that may change the object.\<close>

type_synonym conn_op = "conn_obj \<Rightarrow> result \<times> conn_obj"

definition establish :: "conn_op \<Rightarrow> conn_op" where
  "establish on_establish c = (case o_state c of
      configured \<Rightarrow> (let (r, c) = on_establish (set_state establishing c) in set_result r c)
    | closed_st \<Rightarrow> (let (r, c) = on_establish (set_state establishing c) in set_result r c)
    | _ \<Rightarrow> set_result error_wrong_state c)"

text \<open>The threaded variants return before the virtual method has run; \<open>started\<close> says whether the
  thread could be created, and \<open>run_establish\<close> and \<open>run_shutdown\<close> are what the thread does.\<close>

definition establish_async :: "bool \<Rightarrow> conn_op" where
  "establish_async started c = (case o_state c of
      configured \<Rightarrow> set_result (if started then success else error_out_of_memory) (set_state establishing c)
    | closed_st \<Rightarrow> set_result (if started then success else error_out_of_memory) (set_state establishing c)
    | _ \<Rightarrow> set_result error_wrong_state c)"

definition run_establish :: "conn_op \<Rightarrow> conn_obj \<Rightarrow> conn_obj" where
  "run_establish on_establish c = snd (on_establish c)"

definition suspend :: conn_op where
  "suspend c = (if o_state c \<noteq> active then set_result error_wrong_state c
     else set_result success (set_state suspended c))"

definition resume :: conn_op where
  "resume c = (if o_state c \<noteq> suspended then set_result error_wrong_state c
     else set_result success (set_state active c))"

definition shutdown :: "conn_op \<Rightarrow> conn_op" where
  "shutdown on_shutdown c = (case o_state c of
      closed_st \<Rightarrow> set_result success c
    | deleting \<Rightarrow> set_result error_wrong_state c
    | _ \<Rightarrow> (let (r, c) = on_shutdown (set_state closing c) in set_result r c))"

definition shutdown_async :: "bool \<Rightarrow> conn_op" where
  "shutdown_async started c = (case o_state c of
      closed_st \<Rightarrow> set_result success c
    | deleting \<Rightarrow> set_result error_wrong_state c
    | _ \<Rightarrow> set_result (if started then success else error_out_of_memory) (set_state closing c))"

text \<open>The shutdown thread deletes the object: the destructor sets \<open>deleting\<close> and runs \<open>on_delete\<close>.\<close>

definition destroy :: "(conn_obj \<Rightarrow> conn_obj) \<Rightarrow> conn_obj \<Rightarrow> conn_obj" where
  "destroy on_delete c = on_delete (set_state deleting c)"

definition run_shutdown :: "conn_op \<Rightarrow> (conn_obj \<Rightarrow> conn_obj) \<Rightarrow> conn_obj \<Rightarrow> conn_obj" where
  "run_shutdown on_shutdown on_delete c = destroy on_delete (snd (on_shutdown c))"

section \<open>The contract of a derived class\<close>

lemma set_state_sel [simp]:
  "o_state (set_state s c) = s" "o_kind (set_state s c) = o_kind c" "o_link (set_state s c) = o_link c"
  "o_metrics (set_state s c) = o_metrics c" "o_class (set_state s c) = o_class c"
  "o_status (set_state s c) = o_status c"
  by (simp_all add: set_state_def)

lemma set_status_sel [simp]:
  "o_state (set_status s c) = o_state c" "o_kind (set_status s c) = o_kind c"
  "o_link (set_status s c) = o_link c" "o_metrics (set_status s c) = o_metrics c"
  "o_class (set_status s c) = o_class c" "o_status (set_status s c) = s"
  by (simp_all add: set_status_def)

lemma set_result_sel [simp]:
  "fst (set_result r c) = r" "o_state (snd (set_result r c)) = o_state c"
  "o_link (snd (set_result r c)) = o_link c" "o_kind (snd (set_result r c)) = o_kind c"
  "o_class (snd (set_result r c)) = o_class c" "o_status (snd (set_result r c)) = o_status c"
  "set_result success c = (success, c)"
  by (simp_all add: set_result_def)

text \<open>The public life of a connection until its destructor runs: any sequence of calls, each allowed in any
  state.\<close>

datatype api_call = Configure | Establish | Suspend | Resume | Shutdown

inductive api_step :: "conn_op \<Rightarrow> conn_op \<Rightarrow> conn_obj \<Rightarrow> api_call \<Rightarrow> conn_obj \<Rightarrow> bool"
  for on_establish on_shutdown :: conn_op where
  st_configure: "api_step on_establish on_shutdown c Configure (set_state configured c)"
| st_establish: "establish on_establish c = (r, c') \<Longrightarrow> api_step on_establish on_shutdown c Establish c'"
| st_suspend: "suspend c = (r, c') \<Longrightarrow> api_step on_establish on_shutdown c Suspend c'"
| st_resume: "resume c = (r, c') \<Longrightarrow> api_step on_establish on_shutdown c Resume c'"
| st_shutdown: "shutdown on_shutdown c = (r, c') \<Longrightarrow> api_step on_establish on_shutdown c Shutdown c'"

text \<open>What a derived class promises: \<open>on_establish\<close>, entered in \<open>establishing\<close>, succeeds into a
  state in which the connection can be used or resumed and fails into one from which it is not;
  \<open>on_shutdown\<close>, entered in \<open>closing\<close>, succeeds into \<open>closed\<close>; neither changes the kind.\<close>

locale conn_backend =
  fixes on_establish on_shutdown :: conn_op
  assumes establish_ok: "o_state c = establishing \<Longrightarrow> on_establish c = (r, c') \<Longrightarrow>
      (if r = success then o_state c' \<in> {active, suspended} else o_state c' \<in> {establishing, closed_st}) \<and>
      o_kind c' = o_kind c"
    and shutdown_ok: "o_state c = closing \<Longrightarrow> on_shutdown c = (r, c') \<Longrightarrow>
      (if r = success then o_state c' = closed_st else o_state c' \<in> {closing, closed_st}) \<and>
      o_kind c' = o_kind c"
begin

lemma establish_cases:
  assumes "establish on_establish c = (r, c')"
  shows "if o_state c \<in> {configured, closed_st}
    then (if r = success then o_state c' \<in> {active, suspended} else o_state c' \<in> {establishing, closed_st})
    else r = error_wrong_state \<and> o_state c' = o_state c"
proof -
  obtain r1 c1 where e: "on_establish (set_state establishing c) = (r1, c1)" by force
  have o: "if r1 = success then o_state c1 \<in> {active, suspended} else o_state c1 \<in> {establishing, closed_st}"
    using establish_ok [OF _ e] by (auto split: if_splits)
  show ?thesis
  proof (cases "o_state c \<in> {configured, closed_st}")
    case True
    then have "set_result r1 c1 = (r, c')" using assms by (auto simp: establish_def e)
    then have "r1 = r" "o_state c1 = o_state c'" using set_result_sel(1,2) by (metis prod.sel)+
    with True o show ?thesis by (auto split: if_splits)
  next
    case False
    then have "set_result error_wrong_state c = (r, c')"
      using assms by (auto simp: establish_def split: state.splits)
    then have "r = error_wrong_state" "o_state c' = o_state c" using set_result_sel(1,2) by (metis prod.sel)+
    with False show ?thesis by simp
  qed
qed

lemma shutdown_cases:
  assumes "shutdown on_shutdown c = (r, c')"
  shows "if o_state c = closed_st then r = success \<and> c' = c
    else if o_state c = deleting then r = error_wrong_state \<and> o_state c' = deleting
    else if r = success then o_state c' = closed_st else o_state c' \<in> {closing, closed_st}"
proof -
  obtain r1 c1 where e: "on_shutdown (set_state closing c) = (r1, c1)" by force
  have o: "if r1 = success then o_state c1 = closed_st else o_state c1 \<in> {closing, closed_st}"
    using shutdown_ok [OF _ e] by (auto split: if_splits)
  show ?thesis
  proof (cases "o_state c \<in> {closed_st, deleting}")
    case True
    then show ?thesis using assms by (auto simp: shutdown_def set_result_def)
  next
    case False
    then have "set_result r1 c1 = (r, c')" using assms by (auto simp: shutdown_def e split: state.splits)
    then have "r1 = r" "o_state c1 = o_state c'" using set_result_sel(1,2) by (metis prod.sel)+
    with False o show ?thesis by auto
  qed
qed

lemma active_only_after_establish:
  assumes "api_step on_establish on_shutdown c l c'" and "o_state c' = active" and "o_state c \<noteq> active"
  shows "(l = Establish \<and> o_state c \<in> {configured, closed_st}) \<or> (l = Resume \<and> o_state c = suspended)"
  using assms
proof (induction rule: api_step.induct)
  case (st_establish c r c')
  then show ?case using establish_cases [OF st_establish(1)] by (auto split: if_splits)
next
  case (st_shutdown c r c')
  then show ?case using shutdown_cases [OF st_shutdown(1)] by (auto split: if_splits)
next
  case (st_suspend c r c')
  then have "c' = snd (suspend c)" by simp
  then show ?case using st_suspend by (auto simp: suspend_def split: if_splits)
next
  case (st_resume c r c')
  then have "c' = snd (resume c)" by simp
  then show ?case using st_resume by (auto simp: resume_def split: if_splits)
qed auto

end

section \<open>Objects and the hot path\<close>

text \<open>Objects and heap-allocated output lists by address; \<open>w_log\<close> records each invocation of a
  concrete class's \<open>on_receive\<close> (address, buffer, size), which no definition reads.\<close>

record world =
  w_objs :: "u64 \<Rightarrow> conn_obj option"
  w_lists :: "u64 \<Rightarrow> u64 list option"
  w_log :: "(u64 \<times> nat \<times> u32) list"

definition upd :: "u64 \<Rightarrow> (conn_obj \<Rightarrow> conn_obj) \<Rightarrow> world \<Rightarrow> world" where
  "upd a f w = w\<lparr>w_objs := (w_objs w)(a := map_option f (w_objs w a))\<rparr>"

definition upd_metrics :: "u64 \<Rightarrow> (metrics \<Rightarrow> metrics) \<Rightarrow> world \<Rightarrow> world" where
  "upd_metrics a f w = upd a (\<lambda>c. c\<lparr>o_metrics := f (o_metrics c)\<rparr>) w"

definition note_result :: "u64 \<Rightarrow> result \<Rightarrow> world \<Rightarrow> world" where
  "note_result a r w = upd a (\<lambda>c. snd (set_result r c)) w"

text \<open>The calls below return \<open>None\<close> when they follow a pointer to a deleted object. A virtual
  \<open>on_receive\<close> gets the object's address, the buffer and its size.\<close>

type_synonym receive_method = "u64 \<Rightarrow> nat \<Rightarrow> u32 \<Rightarrow> world \<Rightarrow> (result \<times> u32 \<times> world) option"

definition count_transaction :: "result \<Rightarrow> u32 \<Rightarrow> metrics \<Rightarrow> metrics" where
  "count_transaction r sent m =
     (let m = m\<lparr>outbound_bytes := outbound_bytes m + ucast sent\<rparr> in
      if r = success then m\<lparr>transactions_succeeded := transactions_succeeded m + 1\<rparr>
      else m\<lparr>transactions_failed := transactions_failed m + 1\<rparr>)"

definition do_receive :: "receive_method \<Rightarrow> receive_method" where
  "do_receive on_receive a ptr sz w = (case w_objs w a of
      None \<Rightarrow> None
    | Some c \<Rightarrow>
        if ptr = 0 \<or> sz = 0 then Some (error_no_buffer, 0, note_result a error_no_buffer w) else
        let w = upd_metrics a (\<lambda>m. m\<lparr>inbound_bytes := inbound_bytes m + ucast sz\<rparr>) w in
        if o_state c \<noteq> active then Some (error_wrong_state, 0, w) else
        (case on_receive a ptr sz w of
           None \<Rightarrow> None
         | Some (r, sent, w) \<Rightarrow> Some (r, sent, upd_metrics a (count_transaction r sent) w)))"

definition on_receive_default :: receive_method where
  "on_receive_default a ptr sz w = Some (error_not_supported, 0, w)"

definition transmit :: "receive_method \<Rightarrow> u64 \<Rightarrow> nat \<Rightarrow> u32 \<Rightarrow> world \<Rightarrow> (result \<times> world) option" where
  "transmit on_receive a ptr sz w = (case w_objs w a of
      None \<Rightarrow> None
    | Some c \<Rightarrow>
        if o_state c \<noteq> active then Some (error_wrong_state, note_result a error_wrong_state w)
        else if ptr = 0 \<or> sz = 0 then Some (error_no_buffer, note_result a error_no_buffer w) else
        let (l, d) = load_next_lock (o_link c);
            w = upd a (\<lambda>c. c\<lparr>o_link := d\<rparr>) w
        in if l = 0 then
             Some (error_no_link_assigned,
               note_result a error_no_link_assigned (upd a (\<lambda>c. c\<lparr>o_link := unlock (o_link c)\<rparr>) w))
           else
             let w = upd_metrics a (\<lambda>m. m\<lparr>inbound_bytes := inbound_bytes m + ucast sz\<rparr>) w in
             (case do_receive on_receive l ptr sz w of
                None \<Rightarrow> None
              | Some (r, sent, w) \<Rightarrow>
                  Some (r, upd_metrics a (count_transaction r sent)
                    (upd a (\<lambda>c. c\<lparr>o_link := unlock (o_link c)\<rparr>) w))))"

text \<open>\<open>transmit\<close> of one connection, as the receiving classes call it.\<close>

type_synonym 'w transmit_fn = "nat \<Rightarrow> u32 \<Rightarrow> 'w \<Rightarrow> (result \<times> 'w) option"

text \<open>\<open>set_link\<close>, run while no hot path holds the cell: \<open>None\<close> if it would have to wait.\<close>

definition base_set_link :: "u64 \<Rightarrow> u64 \<Rightarrow> world \<Rightarrow> (result \<times> world) option" where
  "base_set_link a new_link w = (case w_objs w a of
      None \<Rightarrow> None
    | Some c \<Rightarrow>
        if load (o_link c) = new_link then Some (success, w)
        else (case store_wait new_link (o_link c) of
            None \<Rightarrow> None
          | Some d \<Rightarrow> Some (success, upd a (\<lambda>c. c\<lparr>o_link := d\<rparr>) w)))"

section \<open>Telemetry\<close>

text \<open>\<open>collect\<close>: the fields it adds and the metrics it leaves. The rates are computed in 64 bits and
  divided by the elapsed time; \<open>None\<close> is the division by zero of a second collection with the same
  timestamp.\<close>

record metric_fields =
  f_state :: state
  f_link :: bool
  f_in :: u64
  f_out :: u64
  f_strn :: u32
  f_ftrn :: u32
  f_err :: u32
  f_inbw :: "u64 option"
  f_outbw :: "u64 option"
  f_tps :: "u64 option"
  f_errd :: u32

definition rate :: "u64 \<Rightarrow> u64 \<Rightarrow> u64 \<Rightarrow> u64" where
  "rate delta scale dt = (delta * scale * 1000) div dt"

definition collect :: "conn_obj \<Rightarrow> int \<Rightarrow> (metric_fields \<times> conn_obj) option" where
  "collect c timestamp_ms =
     (let m = o_metrics c;
          dt = word_of_int (timestamp_ms - prev_timestamp_ms m) :: u64;
          inbw = (if prev_inbound_bytes m \<noteq> 0
                  then Some (rate (inbound_bytes m - prev_inbound_bytes m) 8 dt div 1000) else None);
          outbw = (if prev_outbound_bytes m \<noteq> 0
                   then Some (rate (outbound_bytes m - prev_outbound_bytes m) 8 dt div 1000) else None);
          tps = (if prev_transactions_succeeded m \<noteq> 0
                 then Some (rate (ucast (transactions_succeeded m - prev_transactions_succeeded m)) 10 dt)
                 else None)
      in if dt = 0 \<and> (inbw \<noteq> None \<or> outbw \<noteq> None \<or> tps \<noteq> None) then None
         else Some
          (\<lparr>f_state = o_state c, f_link = (load (o_link c) \<noteq> 0), f_in = inbound_bytes m,
            f_out = outbound_bytes m, f_strn = transactions_succeeded m,
            f_ftrn = transactions_failed m, f_err = errors m, f_inbw = inbw, f_outbw = outbw,
            f_tps = tps, f_errd = errors m - prev_errors m\<rparr>,
           c\<lparr>o_metrics := m\<lparr>prev_timestamp_ms := timestamp_ms, prev_inbound_bytes := inbound_bytes m,
              prev_outbound_bytes := outbound_bytes m, prev_errors := errors m,
              prev_transactions_succeeded := transactions_succeeded m\<rparr>\<rparr>))"

definition str_unknown :: string where "str_unknown = ''?unknown?''"

fun state2str :: "state \<Rightarrow> string" where
  "state2str not_configured = ''not configured''"
| "state2str configured = ''configured''"
| "state2str establishing = ''establishing''"
| "state2str active = ''active''"
| "state2str suspended = ''suspended''"
| "state2str closing = ''closing''"
| "state2str closed_st = ''closed''"
| "state2str deleting = ''deleting''"

fun kind2str :: "kind \<Rightarrow> bool \<Rightarrow> string" where
  "kind2str Kundefined brief = (if brief then ''Undef'' else ''undefined'')"
| "kind2str Ktransmitter brief = (if brief then ''Tx'' else ''transmitter'')"
| "kind2str Kreceiver brief = (if brief then ''Rx'' else ''receiver'')"

fun status2str :: "status \<Rightarrow> string" where
  "status2str Sinitial = ''initial''"
| "status2str Stransition = ''transition''"
| "status2str Shealthy = ''healthy''"
| "status2str Sfailure = ''failure''"
| "status2str Sshutdown = ''shutdown''"

end
