(* ===== verification/Multipoint.thy ===== *)
theory Multipoint
  imports Connection
begin

text \<open>
  Multipoint groups, media-proxy/src/mesh/multipoint.cc: a connection that takes data from one
  input and hands it to a list of outputs. The list used by the hot path is a heap-allocated copy
  behind a second data-plane pointer cell; \<open>set_hotpath_outputs\<close> replaces it and deletes the old
  copy. The operations are on the object store of the theory \<open>Connection\<close>; the address of a new
  list is an argument (\<open>new\<close> of the source). The theorems are about the fan-out, the copies of the
  list, and the counters.
\<close>

section \<open>The list behind the hot path\<close>

definition group_ptr :: "conn_obj \<Rightarrow> dap" where
  "group_ptr c = (case o_class c of CGroup outs d \<Rightarrow> d | _ \<Rightarrow> dap_init)"

definition group_outputs :: "conn_obj \<Rightarrow> u64 list" where
  "group_outputs c = (case o_class c of CGroup outs d \<Rightarrow> outs | _ \<Rightarrow> [])"

definition set_group_ptr :: "dap \<Rightarrow> conn_obj \<Rightarrow> conn_obj" where
  "set_group_ptr d c = c\<lparr>o_class := (case o_class c of CGroup outs _ \<Rightarrow> CGroup outs d | x \<Rightarrow> x)\<rparr>"

definition set_group_outputs :: "u64 list \<Rightarrow> conn_obj \<Rightarrow> conn_obj" where
  "set_group_outputs outs c = c\<lparr>o_class := (case o_class c of CGroup _ d \<Rightarrow> CGroup outs d | x \<Rightarrow> x)\<rparr>"

definition new_group :: conn_obj where
  "new_group = new_connection (CGroup [] dap_init) Ktransmitter"

text \<open>\<open>set_hotpath_outputs\<close>: \<open>fresh\<close> is the address \<open>new\<close> returned when a list is given. \<open>None\<close> if
  the store would have to wait for the hot path.\<close>

definition set_hotpath_outputs :: "u64 \<Rightarrow> u64 list option \<Rightarrow> u64 \<Rightarrow> world \<Rightarrow> world option" where
  "set_hotpath_outputs fresh outs g w = (case w_objs w g of
      None \<Rightarrow> None
    | Some c \<Rightarrow>
       (let new_ptr = (case outs of None \<Rightarrow> 0 | Some _ \<Rightarrow> fresh);
            w = (case outs of None \<Rightarrow> w | Some l \<Rightarrow> w\<lparr>w_lists := (w_lists w)(fresh \<mapsto> l)\<rparr>);
            prev = load (group_ptr c)
        in case store_wait new_ptr (group_ptr c) of
             None \<Rightarrow> None
           | Some d \<Rightarrow>
               let w = upd g (set_group_ptr d) w
               in Some (if prev \<noteq> 0 then w\<lparr>w_lists := (w_lists w)(prev := None)\<rparr> else w)))"

section \<open>Links and outputs\<close>

definition group_configure :: "u64 \<Rightarrow> world \<Rightarrow> world" where
  "group_configure g w = upd g (set_state configured) w"

text \<open>\<open>Group::set_link\<close>: a requester that asks for no link is removed, from the input or from the
  first place it has among the outputs.\<close>

definition group_set_link ::
  "u64 \<Rightarrow> u64 \<Rightarrow> u64 \<Rightarrow> u64 \<Rightarrow> world \<Rightarrow> (result \<times> world) option" where
  "group_set_link fresh g new_link requester w = (case w_objs w g of
      None \<Rightarrow> None
    | Some c \<Rightarrow>
        if new_link = 0 \<and> requester \<noteq> 0 then
          (if requester = load (o_link c) then base_set_link g 0 w
           else
             let outs = remove1 requester (group_outputs c);
                 w = upd g (set_group_outputs outs) w
             in map_option (\<lambda>w. (success, w)) (set_hotpath_outputs fresh (Some outs) g w))
        else base_set_link g new_link w)"

definition assign_input :: "u64 \<Rightarrow> u64 \<Rightarrow> u64 \<Rightarrow> world \<Rightarrow> (result \<times> world) option" where
  "assign_input fresh g input w = (case w_objs w input of
      None \<Rightarrow> None
    | Some i \<Rightarrow> if o_kind i \<noteq> Kreceiver then Some (error_bad_argument, w)
               else group_set_link fresh g input 0 w)"

definition add_output :: "u64 \<Rightarrow> u64 \<Rightarrow> u64 \<Rightarrow> world \<Rightarrow> (result \<times> world) option" where
  "add_output fresh g output w = (case (w_objs w output, w_objs w g) of
      (Some o', Some c) \<Rightarrow>
        if o_kind o' \<noteq> Ktransmitter then Some (error_bad_argument, w) else
        let outs = group_outputs c @ [output];
            w = upd g (set_group_outputs outs) w
        in map_option (\<lambda>w. (success, w)) (set_hotpath_outputs fresh (Some outs) g w)
    | _ \<Rightarrow> None)"

definition delete_all_outputs :: "conn_obj \<Rightarrow> conn_obj" where
  "delete_all_outputs c = set_group_outputs [] c"

definition outputs_num :: "conn_obj \<Rightarrow> nat" where
  "outputs_num c = length (group_outputs c)"

section \<open>Virtual methods of a group\<close>

definition group_on_establish :: conn_op where
  "group_on_establish c = (success, set_status Shealthy (set_state active c))"

text \<open>\<open>on_shutdown\<close> on the object store, and its effect on the object alone.\<close>

definition group_on_shutdown :: "u64 \<Rightarrow> world \<Rightarrow> (result \<times> world) option" where
  "group_on_shutdown g w = (case base_set_link g 0 w of
      None \<Rightarrow> None
    | Some (_, w) \<Rightarrow>
        (case set_hotpath_outputs 0 None g (upd g (set_group_outputs []) w) of
           None \<Rightarrow> None
         | Some w \<Rightarrow> Some (success, upd g (\<lambda>c. set_status Sshutdown (set_state closed_st c)) w)))"

definition stored :: "u64 \<Rightarrow> dap \<Rightarrow> dap" where
  "stored v d = (case store_wait v d of None \<Rightarrow> d | Some d' \<Rightarrow> d')"

definition group_on_shutdown_obj :: conn_op where
  "group_on_shutdown_obj c =
     (success, set_status Sshutdown (set_state closed_st (set_group_ptr (stored 0 (group_ptr c))
        (set_group_outputs []
          (c\<lparr>o_link := (if load (o_link c) = 0 then o_link c else stored 0 (o_link c))\<rparr>)))))"

text \<open>The loop of \<open>Group::on_receive\<close> over the outputs: bytes sent and number of failures.\<close>

fun deliver_all ::
  "receive_method \<Rightarrow> u64 list \<Rightarrow> nat \<Rightarrow> u32 \<Rightarrow> world \<Rightarrow> (u32 \<times> u32 \<times> world) option" where
  "deliver_all recv [] ptr sz w = Some (0, 0, w)"
| "deliver_all recv (out # outs) ptr sz w =
     (if out = 0 then
        map_option (\<lambda>(tot, errs, w). (tot, errs + 1, w)) (deliver_all recv outs ptr sz w)
      else (case recv out ptr sz w of
          None \<Rightarrow> None
        | Some (r, sent, w) \<Rightarrow>
            map_option (\<lambda>(tot, errs, w). (sent + tot, (if r = success then 0 else 1) + errs, w))
              (deliver_all recv outs ptr sz w)))"

definition count_group :: "u32 \<Rightarrow> u32 \<Rightarrow> metrics \<Rightarrow> metrics" where
  "count_group tot errs m =
     (let m = m\<lparr>outbound_bytes := outbound_bytes m + ucast tot, errors := errors m + errs\<rparr> in
      if errs = 0 then m\<lparr>transactions_succeeded := transactions_succeeded m + 1\<rparr>
      else m\<lparr>transactions_failed := transactions_failed m + 1\<rparr>)"

definition unlock_outputs :: "u64 \<Rightarrow> world \<Rightarrow> world" where
  "unlock_outputs g w = upd g (\<lambda>c. set_group_ptr (unlock (group_ptr c)) c) w"

definition group_on_receive :: "receive_method \<Rightarrow> receive_method" where
  "group_on_receive recv g ptr sz w = (case w_objs w g of
      None \<Rightarrow> None
    | Some c \<Rightarrow>
        if o_state c \<noteq> active then Some (error_wrong_state, 0, note_result g error_wrong_state w)
        else if load (o_link c) = 0
        then Some (error_no_link_assigned, 0, note_result g error_no_link_assigned w) else
        let w = upd_metrics g (\<lambda>m. m\<lparr>inbound_bytes := inbound_bytes m + ucast sz\<rparr>) w;
            (p, d) = load_next_lock (group_ptr c);
            w = upd g (set_group_ptr d) w
        in if p = 0 then Some (error_no_link_assigned, 0, unlock_outputs g w) else
          (case w_lists w p of
             None \<Rightarrow> None
           | Some [] \<Rightarrow> Some (error_no_link_assigned, 0, unlock_outputs g w)
           | Some outs \<Rightarrow>
               (case deliver_all recv outs ptr sz w of
                  None \<Rightarrow> None
                | Some (tot, errs, w) \<Rightarrow>
                    Some (success, sz, upd_metrics g (count_group tot errs) (unlock_outputs g w)))))"

text \<open>Virtual dispatch: a group hands data to its outputs through their \<open>do_receive\<close>; every other
  class is the argument \<open>recv\<close>, whose calls are recorded. The fuel bounds the nesting of groups.\<close>

fun dispatch :: "nat \<Rightarrow> (u64 \<Rightarrow> nat \<Rightarrow> u32 \<Rightarrow> result \<times> u32) \<Rightarrow> receive_method" where
  "dispatch n recv a ptr sz w = (case w_objs w a of
      None \<Rightarrow> None
    | Some c \<Rightarrow>
       (case o_class c of
          COther k \<Rightarrow>
            (let (r, sent) = recv a ptr sz in Some (r, sent, w\<lparr>w_log := w_log w @ [(a, ptr, sz)]\<rparr>))
        | CGroup _ _ \<Rightarrow>
            (case n of 0 \<Rightarrow> None
             | Suc m \<Rightarrow> group_on_receive (do_receive (dispatch m recv)) a ptr sz w)))"

declare dispatch.simps [simp del]

section \<open>A group is a connection\<close>

lemma upd_objs: "w_objs (upd a f w) b = (if b = a then map_option f (w_objs w a) else w_objs w b)"
  by (simp add: upd_def)

lemma upd_other [simp]: "w_lists (upd a f w) = w_lists w" "w_log (upd a f w) = w_log w"
  by (simp_all add: upd_def)

lemma group_sel [simp]:
  "o_state (set_group_ptr d c) = o_state c" "o_link (set_group_ptr d c) = o_link c"
  "o_kind (set_group_ptr d c) = o_kind c" "o_status (set_group_ptr d c) = o_status c"
  "o_metrics (set_group_ptr d c) = o_metrics c"
  "o_state (set_group_outputs l c) = o_state c" "o_link (set_group_outputs l c) = o_link c"
  "o_kind (set_group_outputs l c) = o_kind c" "o_status (set_group_outputs l c) = o_status c"
  "o_metrics (set_group_outputs l c) = o_metrics c"
  "group_outputs (set_group_ptr d c) = group_outputs c" "group_ptr (set_group_outputs l c) = group_ptr c"
  by (simp_all add: set_group_ptr_def set_group_outputs_def group_outputs_def group_ptr_def
      split: conn_class.splits)

text \<open>The shutdown of a group on the object store changes the object as \<open>group_on_shutdown_obj\<close>.\<close>

lemma group_on_shutdown_refines:
  assumes "w_objs w g = Some c" and "group_on_shutdown g w = Some (r, w')"
  shows "w_objs w' g = Some (snd (group_on_shutdown_obj c)) \<and> r = fst (group_on_shutdown_obj c)"
proof -
  have gp: "group_ptr (c\<lparr>o_link := x\<rparr>) = group_ptr c" for x by (simp add: group_ptr_def)
  from assms show ?thesis
    by (auto simp: group_on_shutdown_def base_set_link_def set_hotpath_outputs_def upd_objs Let_def
        group_on_shutdown_obj_def stored_def gp split: option.splits if_splits)
qed

interpretation grp: conn_backend group_on_establish group_on_shutdown_obj
  by unfold_locales (auto simp: group_on_establish_def group_on_shutdown_obj_def)

abbreviation group_api :: "conn_obj \<Rightarrow> api_call \<Rightarrow> conn_obj \<Rightarrow> bool" where
  "group_api \<equiv> api_step group_on_establish group_on_shutdown_obj"

text \<open>The states of a group: what each call makes of the state it finds. \<open>group_run\<close> is the state after a
  sequence of calls on a new group.\<close>

fun group_state :: "state \<Rightarrow> api_call \<Rightarrow> state" where
  "group_state st Configure = configured"
| "group_state st Establish = (if st = configured \<or> st = closed_st then active else st)"
| "group_state st Suspend = (if st = active then suspended else st)"
| "group_state st Resume = (if st = suspended then active else st)"
| "group_state st Shutdown = (if st = deleting then deleting else closed_st)"

definition group_run :: "api_call list \<Rightarrow> state" where
  "group_run ls = foldl group_state not_configured ls"

lemma group_run_simps [simp]: "group_run [] = not_configured" "group_run (ls @ [l]) = group_state (group_run ls) l"
  by (simp_all add: group_run_def)

lemma group_api_state: "group_api c l c' \<Longrightarrow> o_state c' = group_state (o_state c) l"
  by (induction rule: api_step.induct)
    (auto simp: establish_def suspend_def resume_def shutdown_def set_result_def group_on_establish_def
      group_on_shutdown_obj_def split: state.splits if_splits)

lemma group_steps_state: "steps group_api c ls c' \<Longrightarrow> o_state c' = foldl group_state (o_state c) ls"
  by (induction rule: steps.induct) (simp_all add: group_api_state)

text \<open>The calls that put a group into a state it can be established in.\<close>

abbreviation (input) resets :: "api_call list \<Rightarrow> bool" where
  "resets ls \<equiv> Configure \<in> set ls \<or> Shutdown \<in> set ls"

lemma group_run_states: "group_run ls \<in> (if resets ls then {configured, active, suspended, closed_st} else {not_configured})"
proof (induction ls rule: rev_induct)
  case (snoc l ls)
  then show ?case by (cases l) (auto split: if_splits)
qed simp

lemma group_usable_iff:
  "group_run ls \<in> {active, suspended} \<longleftrightarrow>
    (\<exists>ls1 ls2. ls = ls1 @ Establish # ls2 \<and> resets ls1 \<and> \<not> resets ls2)" (is "?U ls \<longleftrightarrow> ?D ls")
proof (induction ls rule: rev_induct)
  case (snoc l ls)
  have last: "?D (ls @ [l]) \<longleftrightarrow> (if l = Establish then ?D ls \<or> resets ls else ?D ls \<and> \<not> resets [l])"
  proof (cases "l = Establish")
    case True
    have "?D (ls @ [l])" if d: "?D ls"
    proof -
      from d obtain ls1 ls2 where "ls = ls1 @ Establish # ls2" "resets ls1" "\<not> resets ls2" by blast
      then show ?thesis using True by (intro exI [of _ ls1] exI [of _ "ls2 @ [l]"]) auto
    qed
    moreover have "?D (ls @ [l])" if "resets ls" using that True by (intro exI [of _ ls] exI [of _ "[]"]) auto
    moreover have "?D ls \<or> resets ls" if "?D (ls @ [l])" using that by (auto simp: append_eq_append_conv2 append_eq_Cons_conv Cons_eq_append_conv)
    ultimately show ?thesis using True by auto
  next
    case False
    have "?D ls \<and> \<not> resets [l]" if d: "?D (ls @ [l])"
    proof -
      from d obtain ls1 ls2 where e: "ls @ [l] = ls1 @ Establish # ls2" "resets ls1" "\<not> resets ls2" by blast
      then obtain ls3 where "ls2 = ls3 @ [l]" using False by (cases ls2 rule: rev_cases) auto
      with e show ?thesis by auto
    qed
    moreover have "?D (ls @ [l])" if "?D ls" "\<not> resets [l]"
    proof -
      from that obtain ls1 ls2 where "ls = ls1 @ Establish # ls2" "resets ls1" "\<not> resets ls2" by blast
      then show ?thesis using that(2) by (intro exI [of _ ls1] exI [of _ "ls2 @ [l]"]) auto
    qed
    ultimately show ?thesis using False by auto
  qed
  show ?case
  proof (cases l)
    case Establish
    then show ?thesis using last snoc group_run_states [of ls] by (auto split: if_splits)
  qed (use last snoc group_run_states [of ls] in \<open>auto split: if_splits\<close>)
qed simp

text \<open>
  C25. The life of a multipoint group under any sequence of calls, refused ones included: its state is
  the one the table \<open>group_state\<close> gives, and it can be used for data or be resumed if and only if some
  establish came after a configure or a shutdown and no configure or shutdown came after it.
\<close>

theorem group_lifecycle:
  assumes "steps group_api new_group ls c"
  shows "o_state c = group_run ls \<and>
    (o_state c \<in> {active, suspended} \<longleftrightarrow> (\<exists>ls1 ls2. ls = ls1 @ Establish # ls2 \<and>
       (Configure \<in> set ls1 \<or> Shutdown \<in> set ls1) \<and> Configure \<notin> set ls2 \<and> Shutdown \<notin> set ls2))"
proof -
  have "o_state new_group = not_configured" by (simp add: new_group_def new_connection_def)
  then have "o_state c = group_run ls" using group_steps_state [OF assms] by (simp add: group_run_def)
  then show ?thesis using group_usable_iff [of ls] by auto
qed

lemma unconfigured_group_run:
  "\<exists>c. steps group_api new_group [Shutdown, Establish] c"
proof -
  obtain c1 where 1: "shutdown group_on_shutdown_obj new_group = (success, c1)" by (auto simp: shutdown_def new_group_def
      new_connection_def group_on_shutdown_obj_def)
  obtain r c2 where 2: "establish group_on_establish c1 = (r, c2)" by force
  from 1 2 show ?thesis by (blast intro: steps.intros api_step.intros)
qed

theorem group_lifecycle_witness:
  "\<exists>c. steps group_api new_group [Shutdown, Establish] c \<and> o_state c = active"
proof -
  obtain c where c: "steps group_api new_group [Shutdown, Establish] c"
    using unconfigured_group_run by blast
  from group_lifecycle [OF c] c show ?thesis by (auto simp: group_run_def)
qed

text \<open>
  If the thread of \<open>establish_async\<close> cannot be created the caller is told so, but the connection keeps
  the state \<open>establishing\<close>: with any derived class, whatever is called after that, every establish is
  refused and the status stays in transition, until the connection is configured or shut down.
\<close>

theorem establish_async_failure_sticks:
  assumes "o_state c = configured \<or> o_state c = closed_st"
    and "steps (api_step est shut) (snd (establish_async False c)) ls c'" and "Configure \<notin> set ls" and "Shutdown \<notin> set ls"
  shows "fst (establish_async False c) = error_out_of_memory \<and> fst (establish est c') = error_wrong_state \<and>
    fst (establish_async started c') = error_wrong_state \<and> conn_status c' = Stransition"
proof -
  have "o_state (snd (establish_async False c)) = establishing" using assms(1) by (auto simp: establish_async_def)
  from assms(2) this assms(3,4) have "o_state c' = establishing"
  proof (induction rule: steps.induct)
    case (steps_cons s l t ls u)
    from steps_cons.hyps(1) steps_cons.prems have "o_state t = establishing"
      by (cases rule: api_step.cases) (auto simp: establish_def suspend_def resume_def set_result_def)
    then show ?case using steps_cons by simp
  qed simp
  then show ?thesis using assms(1) by (auto simp: establish_async_def establish_def conn_status_def)
qed

theorem establish_async_failure_sticks_witness:
  "\<exists>c'. steps group_api (snd (establish_async False (set_state configured new_group))) [Establish, Resume] c' \<and>
     fst (establish group_on_establish c') = error_wrong_state"
proof -
  obtain c' where c': "steps group_api (snd (establish_async False (set_state configured new_group))) [Establish, Resume] c'"
    by (metis (no_types) st_establish st_resume steps.intros surj_pair)
  from establish_async_failure_sticks [OF _ c'] c' show ?thesis by auto
qed

section \<open>Publication of the outputs\<close>

definition hot_ok :: "u64 \<Rightarrow> world \<Rightarrow> bool" where
  "hot_ok g w \<longleftrightarrow> (case w_objs w g of None \<Rightarrow> False | Some c \<Rightarrow>
     (case o_class c of
        CGroup outs d \<Rightarrow> dap_ready d \<and>
          (if load d = 0 then outs = [] else w_lists w (load d) = Some outs)
      | _ \<Rightarrow> False)) \<and> w_lists w 0 = None"

definition outputs_of :: "u64 \<Rightarrow> world \<Rightarrow> u64 list" where
  "outputs_of g w = (case w_objs w g of None \<Rightarrow> [] | Some c \<Rightarrow> group_outputs c)"

definition hot_ptr :: "u64 \<Rightarrow> world \<Rightarrow> u64" where
  "hot_ptr g w = (case w_objs w g of None \<Rightarrow> 0 | Some c \<Rightarrow> load (group_ptr c))"

text \<open>Replacing the list behind the hot path: the new list is published and exactly the old copy
  is deleted.\<close>

lemma set_hotpath_outputs_ok:
  assumes "w_objs w g = Some c" and "o_class c = CGroup outs d" and "dap_ready d" and "w_lists w 0 = None"
    and "fresh \<noteq> 0" and "aligned fresh" and "w_lists w fresh = None"
    and "load d \<noteq> 0 \<Longrightarrow> w_lists w (load d) \<noteq> None"
  shows "\<exists>w'. set_hotpath_outputs fresh (Some outs) g w = Some w' \<and> hot_ok g w' \<and>
    outputs_of g w' = outs \<and> hot_ptr g w' = fresh \<and>
    dom (w_lists w') = insert fresh (dom (w_lists w) - {load d})"
proof -
  obtain d' where d': "store_wait fresh d = Some d'" "dap_ready d'" "load d' = fresh"
    using dpc.put_get [OF assms(3,6)] by blast
  have gp: "group_ptr c = d" using assms(2) by (simp add: group_ptr_def)
  have cl: "o_class (set_group_ptr d' c) = CGroup outs d'" using assms(2) by (simp add: set_group_ptr_def)
  have ne: "load d \<noteq> fresh" using assms(5,7,8) by (cases "load d = 0") auto
  let ?w = "upd g (set_group_ptr d') (w\<lparr>w_lists := (w_lists w)(fresh \<mapsto> outs)\<rparr>)"
  have s: "set_hotpath_outputs fresh (Some outs) g w = Some
      (if load d \<noteq> 0 then ?w\<lparr>w_lists := (w_lists ?w)(load d := None)\<rparr> else ?w)"
    using assms(1) d'(1) by (simp add: set_hotpath_outputs_def gp Let_def)
  have o: "w_objs ?w g = Some (set_group_ptr d' c)" using assms(1) by (simp add: upd_objs)
  define w' where "w' = (if load d \<noteq> 0 then ?w\<lparr>w_lists := (w_lists ?w)(load d := None)\<rparr> else ?w)"
  have "w_objs w' g = Some (set_group_ptr d' c)" using o by (simp add: w'_def)
  moreover have "w_lists w' = (w_lists w)(load d := None, fresh \<mapsto> outs)"
    using assms(4,5,7) ne by (cases "load d = 0") (auto simp: w'_def fun_eq_iff)
  ultimately have "hot_ok g w' \<and> outputs_of g w' = outs \<and> hot_ptr g w' = fresh \<and>
      dom (w_lists w') = insert fresh (dom (w_lists w) - {load d})"
    using cl d'(2,3) assms(4,5)
    by (auto simp: hot_ok_def outputs_of_def hot_ptr_def group_outputs_def group_ptr_def)
  then show ?thesis using s unfolding w'_def [symmetric] by blast
qed

lemma hot_okD:
  assumes "hot_ok g w"
  obtains c outs d where "w_objs w g = Some c" "o_class c = CGroup outs d" "dap_ready d"
    "load d \<noteq> 0 \<Longrightarrow> w_lists w (load d) = Some outs" "load d = 0 \<Longrightarrow> outs = []"
    "w_lists w 0 = None" "outputs_of g w = outs" "hot_ptr g w = load d"
  using assms
  by (auto simp: hot_ok_def outputs_of_def hot_ptr_def group_outputs_def group_ptr_def
      split: option.splits conn_class.splits if_splits)

lemma publish_outputs:
  assumes "hot_ok g w" and "w_lists w fresh = None" and "fresh \<noteq> 0" and "aligned fresh"
  shows "\<exists>w'. set_hotpath_outputs fresh (Some outs) g (upd g (set_group_outputs outs) w) = Some w' \<and>
    hot_ok g w' \<and> outputs_of g w' = outs \<and> hot_ptr g w' = fresh \<and>
    dom (w_lists w') = insert fresh (dom (w_lists w) - {hot_ptr g w})"
proof -
  obtain c os d where c: "w_objs w g = Some c" "o_class c = CGroup os d" "dap_ready d"
    "load d \<noteq> 0 \<Longrightarrow> w_lists w (load d) = Some os" "w_lists w 0 = None" "hot_ptr g w = load d"
    using hot_okD [OF assms(1)] by metis
  let ?w = "upd g (set_group_outputs outs) w"
  have "w_objs ?w g = Some (set_group_outputs outs c)" using c(1) by (simp add: upd_objs)
  moreover have "o_class (set_group_outputs outs c) = CGroup outs d"
    using c(2) by (simp add: set_group_outputs_def)
  ultimately show ?thesis
    using set_hotpath_outputs_ok [of ?w g "set_group_outputs outs c" outs d fresh] c(3-6) assms(2-4)
    by auto
qed

text \<open>
  C27. Changing the outputs of a group publishes exactly the new list to the hot path: adding an
  output appends it, removing a requester removes its first occurrence; both return at once when
  the hot path is outside, the copy the hot path used before is deleted and no other, and nothing
  of the group is left dangling.
\<close>

theorem group_outputs_published:
  assumes "hot_ok g w" and "w_lists w fresh = None" and "fresh \<noteq> 0" and "aligned fresh"
    and "w_objs w out = Some oc"
  shows "(o_kind oc = Ktransmitter \<longrightarrow>
      (\<exists>w'. add_output fresh g out w = Some (success, w') \<and> hot_ok g w' \<and>
         outputs_of g w' = outputs_of g w @ [out] \<and>
         dom (w_lists w') = insert fresh (dom (w_lists w) - {hot_ptr g w}))) \<and>
    (out \<noteq> 0 \<and> (\<forall>c. w_objs w g = Some c \<longrightarrow> load (o_link c) \<noteq> out) \<longrightarrow>
      (\<exists>w'. group_set_link fresh g 0 out w = Some (success, w') \<and> hot_ok g w' \<and>
         outputs_of g w' = remove1 out (outputs_of g w) \<and>
         dom (w_lists w') = insert fresh (dom (w_lists w) - {hot_ptr g w})))"
proof -
  obtain c os d where c: "w_objs w g = Some c" "o_class c = CGroup os d" "outputs_of g w = os"
    using hot_okD [OF assms(1)] by metis
  then have g: "group_outputs c = os" by (simp add: group_outputs_def)
  obtain w1 where w1: "set_hotpath_outputs fresh (Some (os @ [out])) g
      (upd g (set_group_outputs (os @ [out])) w) = Some w1" "hot_ok g w1" "outputs_of g w1 = os @ [out]"
      "dom (w_lists w1) = insert fresh (dom (w_lists w) - {hot_ptr g w})"
    using publish_outputs [OF assms(1-4)] by blast
  obtain w2 where w2: "set_hotpath_outputs fresh (Some (remove1 out os)) g
      (upd g (set_group_outputs (remove1 out os)) w) = Some w2" "hot_ok g w2"
      "outputs_of g w2 = remove1 out os"
      "dom (w_lists w2) = insert fresh (dom (w_lists w) - {hot_ptr g w})"
    using publish_outputs [OF assms(1-4)] by blast
  show ?thesis
    using c g w1 w2 assms(5) by (auto simp: add_output_def group_set_link_def Let_def)
qed

definition tx_obj :: conn_obj where
  "tx_obj = (new_connection (COther 0) Ktransmitter)\<lparr>o_state := active\<rparr>"

definition rx_obj :: conn_obj where
  "rx_obj = (new_connection (COther 1) Kreceiver)\<lparr>o_state := active\<rparr>"

text \<open>A store with an active group at 16 and two active transmitters.\<close>

definition demo_world :: world where
  "demo_world = \<lparr>w_objs = (\<lambda>a. if a = 16 then
        Some (new_group\<lparr>o_state := active, o_link := \<lparr>current = 64, next_val = 0\<rparr>\<rparr>)
      else if a = 32 \<or> a = 48 then Some tx_obj else if a = 64 then Some rx_obj else None),
     w_lists = (\<lambda>_. None), w_log = []\<rparr>"

lemma demo_hot_ok: "hot_ok 16 demo_world"
  by (simp add: hot_ok_def demo_world_def new_group_def new_connection_def load_def dap_init_def
      dap_ready_def STATE_UNLOCKED_def)

lemma aligned_256: "aligned 256"
  by (simp add: aligned_iff)

theorem group_outputs_published_witness:
  "\<exists>w'. add_output 256 16 32 demo_world = Some (success, w') \<and> hot_ok 16 w' \<and> outputs_of 16 w' = [32]"
proof -
  have d: "w_lists demo_world 256 = None" "w_objs demo_world 32 = Some tx_obj"
    "o_kind tx_obj = Ktransmitter" "outputs_of 16 demo_world = []"
    by (simp_all add: demo_world_def tx_obj_def new_connection_def outputs_of_def group_outputs_def
        new_group_def)
  from group_outputs_published [OF demo_hot_ok d(1) _ aligned_256 d(2)] d(3,4) show ?thesis by auto
qed

section \<open>Fan-out\<close>

text \<open>What handing over data never changes: kind, state, link, outputs and class of any object.\<close>

definition shape :: "conn_obj \<Rightarrow> kind \<times> state \<times> dap \<times> u64 list \<times> nat option" where
  "shape c = (o_kind c, o_state c, o_link c, group_outputs c,
     (case o_class c of COther k \<Rightarrow> Some k | _ \<Rightarrow> None))"

definition same_shape :: "world \<Rightarrow> world \<Rightarrow> bool" where
  "same_shape w w' \<longleftrightarrow> (\<forall>a. map_option shape (w_objs w' a) = map_option shape (w_objs w a)) \<and>
     w_lists w' = w_lists w"

lemma same_shape_refl [simp]: "same_shape w w"
  by (simp add: same_shape_def)

lemma same_shape_trans: "same_shape w1 w2 \<Longrightarrow> same_shape w2 w3 \<Longrightarrow> same_shape w1 w3"
  by (simp add: same_shape_def)

lemma same_shape_upd: "(\<And>c. shape (f c) = shape c) \<Longrightarrow> same_shape w (upd a f w)"
  by (simp add: same_shape_def upd_objs option.map_comp comp_def)

lemma shape_metrics [simp]: "shape (c\<lparr>o_metrics := m\<rparr>) = shape c"
  by (simp add: shape_def group_outputs_def)

lemma shape_group_ptr [simp]: "shape (set_group_ptr d c) = shape c"
  by (simp add: shape_def group_outputs_def set_group_ptr_def split: conn_class.splits)

definition is_other :: "world \<Rightarrow> u64 \<Rightarrow> bool" where
  "is_other w a \<longleftrightarrow> (\<exists>c k. w_objs w a = Some c \<and> o_class c = COther k)"

definition is_active :: "world \<Rightarrow> u64 \<Rightarrow> bool" where
  "is_active w a \<longleftrightarrow> (case w_objs w a of None \<Rightarrow> False | Some c \<Rightarrow> o_state c = active)"

lemma same_shapeD:
  assumes "same_shape w w'"
  shows "is_other w' a = is_other w a" "is_active w' a = is_active w a"
proof -
  have m: "map_option shape (w_objs w' a) = map_option shape (w_objs w a)"
    using assms by (simp add: same_shape_def)
  show "is_other w' a = is_other w a" "is_active w' a = is_active w a"
    using m by (cases "w_objs w a"; cases "w_objs w' a";
        auto simp: is_other_def is_active_def shape_def split: conn_class.splits)+
qed

lemma same_shape_step:
  "same_shape w w1 \<Longrightarrow> (\<And>c. shape (f c) = shape c) \<Longrightarrow> same_shape w (upd a f w1)"
  by (blast intro: same_shape_trans same_shape_upd)

lemma same_shape_metrics: "same_shape w w1 \<Longrightarrow> same_shape w (upd_metrics a f w1)"
  unfolding upd_metrics_def by (rule same_shape_step) simp_all

lemma same_shape_active: "same_shape w w' \<Longrightarrow> is_active w' = is_active w"
  by (rule ext) (rule same_shapeD(2))

lemmas same_shape_intros = same_shape_metrics same_shape_step same_shape_refl

text \<open>One output of a class other than a group.\<close>

lemma receive_other:
  assumes "is_other w a" and "ptr \<noteq> 0" and "sz \<noteq> 0"
  shows "\<exists>r sent w'. do_receive (dispatch n recv) a ptr sz w = Some (r, sent, w') \<and> same_shape w w' \<and>
    (\<forall>b. b \<noteq> a \<longrightarrow> w_objs w' b = w_objs w b) \<and>
    w_log w' = w_log w @ (if is_active w a then [(a, ptr, sz)] else [])"
proof -
  obtain c k where c: "w_objs w a = Some c" "o_class c = COther k"
    using assms(1) by (auto simp: is_other_def)
  let ?w1 = "upd_metrics a (\<lambda>m. m\<lparr>inbound_bytes := inbound_bytes m + ucast sz\<rparr>) w"
  let ?w2 = "?w1\<lparr>w_log := w_log w @ [(a, ptr, sz)]\<rparr>"
  obtain r sent where r: "recv a ptr sz = (r, sent)" by force
  have d: "dispatch n recv a ptr sz ?w1 = Some (r, sent, ?w2)"
    using c r by (subst dispatch.simps) (simp add: upd_metrics_def upd_objs)
  have s1: "same_shape w ?w1" unfolding upd_metrics_def by (rule same_shape_upd) simp
  then have s2: "same_shape w ?w2" by (simp add: same_shape_def)
  show ?thesis
  proof (cases "o_state c = active")
    case True
    let ?w3 = "upd_metrics a (count_transaction r sent) ?w2"
    have "same_shape ?w2 ?w3" unfolding upd_metrics_def by (rule same_shape_upd) simp
    with s2 have "same_shape w ?w3" by (rule same_shape_trans)
    moreover have "do_receive (dispatch n recv) a ptr sz w = Some (r, sent, ?w3)"
      using True c assms(2,3) d by (simp add: do_receive_def Let_def)
    ultimately show ?thesis using True c by (auto simp: upd_metrics_def upd_objs is_active_def)
  next
    case False
    then have "do_receive (dispatch n recv) a ptr sz w = Some (error_wrong_state, 0, ?w1)"
      using c assms(2,3) by (simp add: do_receive_def Let_def)
    then show ?thesis using False c s1 by (auto simp: upd_metrics_def upd_objs is_active_def)
  qed
qed

lemma deliver_all_others:
  assumes "\<And>a. a \<in> set outs \<Longrightarrow> a \<noteq> 0 \<and> is_other w a" and "ptr \<noteq> 0" and "sz \<noteq> 0"
  shows "\<exists>tot errs w'. deliver_all (do_receive (dispatch n recv)) outs ptr sz w = Some (tot, errs, w') \<and>
    same_shape w w' \<and> (\<forall>b. b \<notin> set outs \<longrightarrow> w_objs w' b = w_objs w b) \<and>
    w_log w' = w_log w @ map (\<lambda>a. (a, ptr, sz)) (filter (is_active w) outs)"
  using assms(1)
proof (induction outs arbitrary: w)
  case (Cons a outs)
  obtain r sent w1 where w1: "do_receive (dispatch n recv) a ptr sz w = Some (r, sent, w1)"
    "same_shape w w1" "\<forall>b. b \<noteq> a \<longrightarrow> w_objs w1 b = w_objs w b"
    "w_log w1 = w_log w @ (if is_active w a then [(a, ptr, sz)] else [])"
    using receive_other [OF _ assms(2,3), of w a n recv] Cons.prems by auto
  have "b \<noteq> 0 \<and> is_other w1 b" if "b \<in> set outs" for b
    using Cons.prems [of b] that same_shapeD(1) [OF w1(2)] by simp
  from Cons.IH [OF this] obtain tot errs w2 where w2:
    "deliver_all (do_receive (dispatch n recv)) outs ptr sz w1 = Some (tot, errs, w2)"
    "same_shape w1 w2" "\<forall>b. b \<notin> set outs \<longrightarrow> w_objs w2 b = w_objs w1 b"
    "w_log w2 = w_log w1 @ map (\<lambda>a. (a, ptr, sz)) (filter (is_active w1) outs)" by blast
  have "filter (is_active w1) outs = filter (is_active w) outs"
    using same_shape_active [OF w1(2)] by simp
  moreover have "a \<noteq> 0" using Cons.prems by simp
  ultimately show ?case
    using w1 w2 same_shape_trans [OF w1(2) w2(2)] by auto
qed simp

lemma group_receive_run:
  assumes "hot_ok g w" and "is_active w g" and "ptr \<noteq> 0" and "sz \<noteq> 0"
    and "\<And>c. w_objs w g = Some c \<Longrightarrow> load (o_link c) \<noteq> 0"
    and "outputs_of g w \<noteq> []" and "\<And>a. a \<in> set (outputs_of g w) \<Longrightarrow> a \<noteq> 0 \<and> is_other w a"
  shows "\<exists>w'. do_receive (dispatch (Suc n) recv) g ptr sz w = Some (success, sz, w') \<and> same_shape w w' \<and>
    w_log w' = w_log w @ map (\<lambda>a. (a, ptr, sz)) (filter (is_active w) (outputs_of g w)) \<and>
    (\<exists>c c'. w_objs w g = Some c \<and> w_objs w' g = Some c' \<and>
      inbound_bytes (o_metrics c') = inbound_bytes (o_metrics c) + ucast sz + ucast sz)"
proof -
  obtain c outs d where c: "w_objs w g = Some c" "o_class c = CGroup outs d" "dap_ready d"
    "load d \<noteq> 0 \<Longrightarrow> w_lists w (load d) = Some outs" "load d = 0 \<Longrightarrow> outs = []" "outputs_of g w = outs"
    using hot_okD [OF assms(1)] by metis
  have p: "load d \<noteq> 0" using c(5,6) assms(6) by auto
  obtain q d1 where e: "load_next_lock d = (q, d1)" by force
  then have q: "q = load d" using dpc.section_get [OF c(3)] by blast
  let ?add = "\<lambda>m. m\<lparr>inbound_bytes := inbound_bytes m + ucast sz\<rparr>"
  define w2 where "w2 = upd g (set_group_ptr d1) (upd_metrics g ?add (upd_metrics g ?add w))"
  have s2: "same_shape w w2"
    unfolding w2_def by (intro same_shape_intros) simp
  have "a \<noteq> 0 \<and> is_other w2 a" if "a \<in> set outs" for a
    using assms(7) [of a] that c(6) same_shapeD(1) [OF s2] by simp
  from deliver_all_others [of outs w2 ptr sz n recv, OF this assms(3,4)] obtain tot errs w3 where w3:
    "deliver_all (do_receive (dispatch n recv)) outs ptr sz w2 = Some (tot, errs, w3)"
    "same_shape w2 w3" "\<forall>b. b \<notin> set outs \<longrightarrow> w_objs w3 b = w_objs w2 b"
    "w_log w3 = w_log w2 @ map (\<lambda>a. (a, ptr, sz)) (filter (is_active w2) outs)" by blast
  let ?w4 = "upd_metrics g (count_transaction success sz)
    (upd_metrics g (count_group tot errs) (unlock_outputs g w3))"
  have "same_shape w3 ?w4"
    unfolding unlock_outputs_def by (intro same_shape_intros) simp
  then have s4: "same_shape w ?w4" using s2 w3(2) same_shape_trans by blast
  have st: "o_state c = active" using assms(2) c(1) by (simp add: is_active_def)
  have lk: "load (o_link c) \<noteq> 0" using assms(5) c(1) by blast
  obtain a0 rest where outs: "outs = a0 # rest" using c(6) assms(6) by (cases outs) auto
  have gr: "group_on_receive (do_receive (dispatch n recv)) g ptr sz (upd_metrics g ?add w) =
      Some (success, sz, upd_metrics g (count_group tot errs) (unlock_outputs g w3))"
    using c(1,2,4) p st lk e q w3(1) [unfolded w2_def] outs
    by (simp add: group_on_receive_def upd_metrics_def upd_objs group_ptr_def Let_def)
  have "do_receive (dispatch (Suc n) recv) g ptr sz w = Some (success, sz, ?w4)"
    using c(1,2) st assms(3,4) gr
    by (simp add: do_receive_def Let_def dispatch.simps [of "Suc n"] upd_metrics_def upd_objs)
  moreover have "w_log ?w4 = w_log w @ map (\<lambda>a. (a, ptr, sz)) (filter (is_active w) outs)"
    using w3(4) same_shape_active [OF s2] by (simp add: upd_metrics_def unlock_outputs_def w2_def)
  moreover have "g \<notin> set outs" using assms(7) [of g] c(1,2,6) by (auto simp: is_other_def)
  then have "w_objs w3 g = Some (set_group_ptr d1 (c\<lparr>o_metrics := ?add (?add (o_metrics c))\<rparr>))"
    using w3(3) c(1) by (simp add: w2_def upd_metrics_def upd_objs)
  then have "\<exists>c'. w_objs ?w4 g = Some c' \<and>
      inbound_bytes (o_metrics c') = inbound_bytes (o_metrics c) + ucast sz + ucast sz"
    by (simp add: upd_metrics_def unlock_outputs_def upd_objs count_transaction_def count_group_def Let_def)
  ultimately show ?thesis using s4 c(1,6) by auto
qed

text \<open>
  C28. Fan-out of a multipoint group: data handed to an active group that has an input reaches
  every active output exactly once, in the order of the list, with the same buffer and size, and no
  inactive one; the group reports success and the whole size as sent, whatever its outputs answer;
  kinds, states, links and output lists are unchanged.
\<close>

theorem group_fan_out:
  assumes "hot_ok g w" and "is_active w g" and "ptr \<noteq> 0" and "sz \<noteq> 0"
    and "\<And>c. w_objs w g = Some c \<Longrightarrow> load (o_link c) \<noteq> 0"
    and "outputs_of g w \<noteq> []" and "\<And>a. a \<in> set (outputs_of g w) \<Longrightarrow> a \<noteq> 0 \<and> is_other w a"
  shows "\<exists>w'. do_receive (dispatch (Suc n) recv) g ptr sz w = Some (success, sz, w') \<and> same_shape w w' \<and>
    w_log w' = w_log w @ map (\<lambda>a. (a, ptr, sz)) (filter (is_active w) (outputs_of g w))"
  using group_receive_run [OF assms, of n recv] by blast

definition fan_world :: world where
  "fan_world = demo_world\<lparr>w_objs := (w_objs demo_world)(16 \<mapsto>
       new_group\<lparr>o_state := active, o_link := \<lparr>current = 64, next_val = 0\<rparr>,
         o_class := CGroup [32, 48] \<lparr>current = 256, next_val = 0\<rparr>\<rparr>),
     w_lists := (\<lambda>_. None)(256 \<mapsto> [32, 48])\<rparr>"

lemma fan_world_ok:
  "hot_ok 16 fan_world" "is_active fan_world 16" "outputs_of 16 fan_world = [32, 48]"
  "\<And>c. w_objs fan_world 16 = Some c \<Longrightarrow> load (o_link c) \<noteq> 0"
  "\<And>a. a \<in> set (outputs_of 16 fan_world) \<Longrightarrow> a \<noteq> 0 \<and> is_other fan_world a"
  "is_active fan_world 32" "is_active fan_world 48" "w_log fan_world = []"
  by (auto simp: hot_ok_def fan_world_def load_def dap_ready_def aligned_iff STATE_UNLOCKED_def
      is_active_def outputs_of_def group_outputs_def is_other_def demo_world_def tx_obj_def
      new_connection_def)

theorem group_fan_out_witness:
  "\<exists>w'. do_receive (dispatch 1 (\<lambda>a p s. (success, s))) 16 4096 1280 fan_world = Some (success, 1280, w') \<and>
     w_log w' = [(32, 4096, 1280), (48, 4096, 1280)]"
  using group_fan_out [OF fan_world_ok(1,2) _ _ fan_world_ok(4) _ fan_world_ok(5), of 4096 1280 0
      "\<lambda>a p s. (success, s)"] fan_world_ok
  by auto

text \<open>
  The counters of a group count every buffer twice: \<open>do_receive\<close> of the base class and
  \<open>on_receive\<close> of the group both add the size to \<open>inbound_bytes\<close>.
\<close>

theorem group_inbound_counted_twice:
  assumes "hot_ok g w" and "is_active w g" and "ptr \<noteq> 0" and "sz \<noteq> 0"
    and "\<And>c. w_objs w g = Some c \<Longrightarrow> load (o_link c) \<noteq> 0"
    and "outputs_of g w \<noteq> []" and "\<And>a. a \<in> set (outputs_of g w) \<Longrightarrow> a \<noteq> 0 \<and> is_other w a"
  shows "\<exists>w' c c'. do_receive (dispatch (Suc n) recv) g ptr sz w = Some (success, sz, w') \<and>
    w_objs w g = Some c \<and> w_objs w' g = Some c' \<and>
    inbound_bytes (o_metrics c') = inbound_bytes (o_metrics c) + 2 * ucast sz"
  using group_receive_run [OF assms, of n recv] by (auto simp: algebra_simps)

theorem group_inbound_counted_twice_witness:
  "\<exists>w' c'. do_receive (dispatch 1 (\<lambda>a p s. (success, s))) 16 4096 1280 fan_world = Some (success, 1280, w') \<and>
     w_objs w' 16 = Some c' \<and> inbound_bytes (o_metrics c') = 2560"
proof -
  from group_inbound_counted_twice [OF fan_world_ok(1,2) _ _ fan_world_ok(4) _ fan_world_ok(5), of 4096
      1280 0 "\<lambda>a p s. (success, s)"] fan_world_ok(3)
  obtain w' c c' where "do_receive (dispatch (Suc 0) (\<lambda>a p s. (success, s))) 16 4096 1280 fan_world =
      Some (success, 1280, w')" "w_objs fan_world 16 = Some c" "w_objs w' 16 = Some c'"
    "inbound_bytes (o_metrics c') = inbound_bytes (o_metrics c) + 2 * ucast (1280 :: u32)" by auto
  moreover from this(2) have "inbound_bytes (o_metrics c) = 0"
    by (auto simp: fan_world_def new_group_def new_connection_def metrics0_def)
  ultimately show ?thesis by simp
qed

section \<open>From an input through a group to its outputs\<close>

lemma upd_link_frame:
  assumes "a \<noteq> g"
  shows "hot_ok g (upd a (\<lambda>c. c\<lparr>o_link := d\<rparr>) w) = hot_ok g w"
    and "outputs_of g (upd a (\<lambda>c. c\<lparr>o_link := d\<rparr>) w) = outputs_of g w"
    and "is_active (upd a (\<lambda>c. c\<lparr>o_link := d\<rparr>) w) b = is_active w b"
    and "is_other (upd a (\<lambda>c. c\<lparr>o_link := d\<rparr>) w) b = is_other w b"
  using assms
  by (auto simp: hot_ok_def outputs_of_def is_active_def is_other_def upd_objs
      split: option.splits conn_class.splits)

lemma upd_metrics_frame:
  assumes "a \<noteq> g"
  shows "hot_ok g (upd_metrics a f w) = hot_ok g w"
    and "outputs_of g (upd_metrics a f w) = outputs_of g w"
    and "is_active (upd_metrics a f w) b = is_active w b"
    and "is_other (upd_metrics a f w) b = is_other w b"
  using assms
  by (auto simp: hot_ok_def outputs_of_def is_active_def is_other_def upd_metrics_def upd_objs
      split: option.splits conn_class.splits)

text \<open>
  C30. End to end: a buffer transmitted by an active input that is linked to an active group
  reaches every active output of the group exactly once and in order; the input's own pointer cell
  is unlocked again afterwards and still links to the group.
\<close>

theorem transmit_through_group:
  assumes "w_objs w a = Some ca" and "o_state ca = active" and "dap_ready (o_link ca)"
    and "load (o_link ca) = g" and "g \<noteq> 0" and "a \<noteq> g"
    and "hot_ok g w" and "is_active w g" and "ptr \<noteq> 0" and "sz \<noteq> 0"
    and "\<And>c. w_objs w g = Some c \<Longrightarrow> load (o_link c) \<noteq> 0"
    and "outputs_of g w \<noteq> []" and "\<And>b. b \<in> set (outputs_of g w) \<Longrightarrow> b \<noteq> 0 \<and> is_other w b"
  shows "\<exists>w' ca'. transmit (dispatch (Suc n) recv) a ptr sz w = Some (success, w') \<and>
    w_log w' = w_log w @ map (\<lambda>b. (b, ptr, sz)) (filter (is_active w) (outputs_of g w)) \<and>
    w_objs w' a = Some ca' \<and> o_state ca' = active \<and> dap_ready (o_link ca') \<and> load (o_link ca') = g"
proof -
  obtain q d where e: "load_next_lock (o_link ca) = (q, d)" by force
  have qd: "q = g" "dap_ready (unlock d)" "load (unlock d) = g"
    using dpc.section_get [OF assms(3) e] assms(4) by auto
  let ?add = "\<lambda>m. m\<lparr>inbound_bytes := inbound_bytes m + ucast sz\<rparr>"
  define w1 where "w1 = upd_metrics a ?add (upd a (\<lambda>c. c\<lparr>o_link := d\<rparr>) w)"
  note fr = upd_link_frame [OF assms(6)] upd_metrics_frame [OF assms(6)]
  have g1: "w_objs w1 g = w_objs w g" using assms(6) by (simp add: w1_def upd_metrics_def upd_objs)
  have h1: "hot_ok g w1" "is_active w1 g" "outputs_of g w1 = outputs_of g w"
    using assms(7,8) by (simp_all add: w1_def fr)
  have "b \<noteq> 0 \<and> is_other w1 b" if "b \<in> set (outputs_of g w1)" for b
    using assms(13) that by (simp add: h1(3)) (simp add: w1_def fr)
  moreover have "load (o_link c) \<noteq> 0" if "w_objs w1 g = Some c" for c using assms(11) that g1 by simp
  moreover have "outputs_of g w1 \<noteq> []" using assms(12) h1(3) by simp
  ultimately obtain w2 where w2: "do_receive (dispatch (Suc n) recv) g ptr sz w1 = Some (success, sz, w2)"
    "same_shape w1 w2"
    "w_log w2 = w_log w1 @ map (\<lambda>b. (b, ptr, sz)) (filter (is_active w1) (outputs_of g w1))"
    using group_receive_run [OF h1(1,2) assms(9,10)] by blast
  have "map_option shape (w_objs w2 a) = map_option shape (w_objs w1 a)"
    using w2(2) by (simp add: same_shape_def)
  then obtain c2 where c2: "w_objs w2 a = Some c2" "o_state c2 = active" "o_link c2 = d"
    using assms(1,2) by (auto simp: w1_def upd_metrics_def upd_objs shape_def)
  let ?w3 = "upd_metrics a (count_transaction success sz) (upd a (\<lambda>c. c\<lparr>o_link := unlock (o_link c)\<rparr>) w2)"
  have "transmit (dispatch (Suc n) recv) a ptr sz w = Some (success, ?w3)"
    using assms(1,2,5,9,10) e qd(1) w2(1) by (simp add: transmit_def Let_def w1_def)
  moreover have "w_log ?w3 = w_log w @ map (\<lambda>b. (b, ptr, sz)) (filter (is_active w) (outputs_of g w))"
  proof -
    have "is_active w1 = is_active w" by (rule ext) (simp add: w1_def fr)
    then show ?thesis using w2(3) h1(3) by (simp add: upd_metrics_def) (simp add: w1_def upd_metrics_def)
  qed
  moreover have "\<exists>ca'. w_objs ?w3 a = Some ca' \<and> o_state ca' = active \<and> dap_ready (o_link ca') \<and>
      load (o_link ca') = g"
    using c2 qd(2,3) by (simp add: upd_metrics_def upd_objs)
  ultimately show ?thesis by blast
qed

definition flow_world :: world where
  "flow_world = fan_world\<lparr>w_objs := (w_objs fan_world)(64 \<mapsto> rx_obj\<lparr>o_link := \<lparr>current = 16, next_val = 0\<rparr>\<rparr>)\<rparr>"

lemma flow_world_ok:
  "hot_ok 16 flow_world" "is_active flow_world 16" "outputs_of 16 flow_world = [32, 48]"
  "\<And>c. w_objs flow_world 16 = Some c \<Longrightarrow> load (o_link c) \<noteq> 0"
  "\<And>a. a \<in> set (outputs_of 16 flow_world) \<Longrightarrow> a \<noteq> 0 \<and> is_other flow_world a"
  "is_active flow_world 32" "is_active flow_world 48" "w_log flow_world = []"
  by (auto simp: hot_ok_def flow_world_def fan_world_def load_def dap_ready_def aligned_iff
      STATE_UNLOCKED_def is_active_def outputs_of_def group_outputs_def is_other_def demo_world_def
      tx_obj_def new_connection_def)

theorem transmit_through_group_witness:
  "\<exists>w'. transmit (dispatch 1 (\<lambda>a p s. (success, s))) 64 4096 1280 flow_world = Some (success, w') \<and>
     w_log w' = [(32, 4096, 1280), (48, 4096, 1280)]"
proof -
  let ?ca = "rx_obj\<lparr>o_link := \<lparr>current = 16, next_val = 0\<rparr>\<rparr>"
  have c: "w_objs flow_world 64 = Some ?ca" "o_state ?ca = active" "dap_ready (o_link ?ca)"
    "load (o_link ?ca) = 16"
    by (simp_all add: flow_world_def rx_obj_def dap_ready_def aligned_iff STATE_UNLOCKED_def load_def)
  from transmit_through_group [OF c _ _ flow_world_ok(1,2) _ _ flow_world_ok(4) _ flow_world_ok(5),
      of 4096 1280 0 "\<lambda>a p s. (success, s)"] flow_world_ok
  show ?thesis by auto
qed

end
