(* ===== verification/Sdk_Base.thy ===== *)
theory Sdk_Base
  imports Complex_Main Prelude
begin

text \<open>
  Data of the SDK's C data plane (sdk/include/mcm_dp.h, memif_impl.h, udp_impl.h and the argument
  structs of libmemif.h) and the calls it makes into libc and libmemif. The union
  \<open>payload_args\<close> is kept as the four 64-bit words it occupies, so that writing one member and
  reading another behaves as it does in memory (little endian). A \<open>double\<close> is modelled by the
  rational number it denotes.
\<close>

section \<open>Strings and numbers of libc\<close>

definition strlcpy :: "string \<Rightarrow> nat \<Rightarrow> string" where
  "strlcpy src n = take (n - 1) src"

definition digit_val :: "char \<Rightarrow> int" where
  "digit_val c = int (of_char c) - 48"

definition is_digit :: "char \<Rightarrow> bool" where
  "is_digit c \<longleftrightarrow> (48::nat) \<le> of_char c \<and> of_char c \<le> (57::nat)"

definition is_space :: "char \<Rightarrow> bool" where
  "is_space c \<longleftrightarrow> of_char c \<in> {9, 10, 11, 12, 13, 32::nat}"

definition digits_val :: "string \<Rightarrow> int" where
  "digits_val s = foldl (\<lambda>a c. a * 10 + digit_val c) 0 (takeWhile is_digit s)"

definition atoi :: "string \<Rightarrow> int" where
  "atoi s = (case dropWhile is_space s of
      [] \<Rightarrow> 0
    | c # cs \<Rightarrow> if c = CHR ''-'' then - digits_val cs
                else if c = CHR ''+'' then digits_val cs else digits_val (c # cs))"

fun dec :: "nat \<Rightarrow> string" where
  "dec n = (if n < 10 then [char_of (48 + n)] else dec (n div 10) @ [char_of (48 + n mod 10)])"

declare dec.simps [simp del]

definition sdec :: "int \<Rightarrow> string" where
  "sdec i = (if i < 0 then CHR ''-'' # dec (nat (- i)) else dec (nat i))"

definition htons :: "u16 \<Rightarrow> u16" where
  "htons w = push_bit 8 w OR drop_bit 8 w"

lemma digit_char [simp]:
  assumes "n < 10"
  shows "is_digit (char_of (48 + n))" "digit_val (char_of (48 + n)) = int n"
  using assms by (auto simp: is_digit_def digit_val_def)

lemma dec_digits: "list_all is_digit (dec n)"
proof (induction n rule: dec.induct)
  case (1 n)
  then show ?case by (subst dec.simps) auto
qed

lemma dec_nonempty: "dec n \<noteq> []"
  by (subst dec.simps) simp

lemma dec_value: "foldl (\<lambda>a c. a * 10 + digit_val c) 0 (dec n) = int n"
proof (induction n rule: dec.induct)
  case (1 n)
  then show ?case by (subst dec.simps) (auto simp: zdiv_int zmod_int)
qed

lemma takeWhile_digits: "list_all is_digit s \<Longrightarrow> takeWhile is_digit s = s"
  by (simp add: takeWhile_eq_all_conv list_all_iff)

lemma not_space_digit: "is_digit c \<Longrightarrow> \<not> is_space c \<and> c \<noteq> CHR ''-'' \<and> c \<noteq> CHR ''+''"
  by (auto simp: is_digit_def is_space_def)

lemma atoi_digits:
  assumes "list_all is_digit s"
  shows "atoi s = foldl (\<lambda>a c. a * 10 + digit_val c) 0 s"
proof (cases s)
  case (Cons c cs)
  with assms have "is_digit c" by simp
  with Cons assms not_space_digit [of c] show ?thesis
    by (simp add: atoi_def digits_val_def takeWhile_digits del: foldl_Cons)
qed (simp add: atoi_def)

text \<open>Printing a number and parsing it again gives it back.\<close>

lemma atoi_dec [simp]: "atoi (dec n) = int n"
  by (simp add: atoi_digits dec_digits dec_value)

section \<open>Structs\<close>

datatype transfer_type = is_tx | is_rx

datatype proto_type = PROTO_AUTO | PROTO_MEMIF | PROTO_UDP | PROTO_TCP | PROTO_HTTP | PROTO_GRPC

datatype mcm_payload_type = PAYLOAD_TYPE_NONE | PAYLOAD_TYPE_ST20_VIDEO | PAYLOAD_TYPE_ST22_VIDEO
  | PAYLOAD_TYPE_ST30_AUDIO | PAYLOAD_TYPE_ST40_ANCILLARY | PAYLOAD_TYPE_RTSP_VIDEO
  | PAYLOAD_TYPE_RDMA_VIDEO

datatype mcm_payload_codec = PAYLOAD_CODEC_NONE | PAYLOAD_CODEC_JPEGXS | PAYLOAD_CODEC_H264

datatype video_pixel_format = PIX_FMT_YUV422PLANAR10LE | PIX_FMT_V210 | PIX_FMT_YUV422RFC4175BE10

record mcm_dp_addr =
  a_ip :: string
  a_port :: string

record memif_interface_param =
  mi_socket_path :: string
  mi_is_master :: bool
  mi_interface_id :: u32

text \<open>The union: words 0 to 3 at byte offsets 0, 8, 16, 24.\<close>

record payload_args =
  pw0 :: u64
  pw1 :: u64
  pw2 :: u64
  pw3 :: u64

definition video_width :: "payload_args \<Rightarrow> u32" where "video_width p = ucast (pw0 p)"
definition video_height :: "payload_args \<Rightarrow> u32" where "video_height p = ucast (drop_bit 32 (pw0 p))"
definition audio_format :: "payload_args \<Rightarrow> u32" where "audio_format p = ucast (drop_bit 32 (pw0 p))"
definition audio_channel :: "payload_args \<Rightarrow> u16" where "audio_channel p = ucast (pw1 p)"
definition audio_sampling :: "payload_args \<Rightarrow> u32" where "audio_sampling p = ucast (drop_bit 32 (pw1 p))"
definition audio_ptime :: "payload_args \<Rightarrow> u32" where "audio_ptime p = ucast (pw2 p)"

definition set_transfer_size :: "u64 \<Rightarrow> payload_args \<Rightarrow> payload_args" where
  "set_transfer_size sz p = p\<lparr>pw0 := sz\<rparr>"

definition mk_audio :: "u32 \<Rightarrow> u16 \<Rightarrow> u32 \<Rightarrow> u32 \<Rightarrow> payload_args" where
  "mk_audio format channel sampling ptime =
     \<lparr>pw0 = push_bit 32 (ucast format), pw1 = ucast channel OR push_bit 32 (ucast sampling),
      pw2 = ucast ptime, pw3 = 0\<rparr>"

definition mk_video :: "u32 \<Rightarrow> u32 \<Rightarrow> payload_args" where
  "mk_video w h = \<lparr>pw0 = ucast w OR push_bit 32 (ucast h), pw1 = 0, pw2 = 0, pw3 = 0\<rparr>"

record mcm_conn_param =
  p_type :: transfer_type
  p_protocol :: proto_type
  p_local_addr :: mcm_dp_addr
  p_remote_addr :: mcm_dp_addr
  p_memif_interface :: memif_interface_param
  p_payload_type :: mcm_payload_type
  p_payload_codec :: mcm_payload_codec
  p_payload_args :: payload_args
  p_width :: u32
  p_height :: u32
  p_fps :: rat
  p_pix_fmt :: video_pixel_format
  p_payload_type_nr :: u8
  p_mtl_flags_mask :: u64
  p_mtl_pacing :: u8

record memif_socket_args =
  sa_path :: string
  sa_app_name :: string

record memif_conn_args =
  ca_socket :: nat
  ca_buffer_size :: u32
  ca_log2_ring_size :: u8
  ca_is_master :: bool
  ca_interface_id :: u32
  ca_interface_name :: string

record memif_conn_param =
  socket_args :: memif_socket_args
  conn_args :: memif_conn_args

record memif_buffer =
  mb_desc_index :: u16
  mb_len :: u32
  mb_data :: nat

definition MEMIF_BUFFER_NUM :: nat where "MEMIF_BUFFER_NUM = 64"

record memif_conn_context =
  mc_self :: nat
  mc_is_connected :: bool
  mc_sockfd :: nat
  mc_conn :: nat
  mc_qid :: u16
  mc_buffer_size :: u32
  mc_buf_num :: u16
  mc_working_bufs :: "memif_buffer list"
  mc_working_idx :: int

record sockaddr_in =
  sin_addr :: string
  sin_port :: u16

record udp_context =
  u_self :: nat
  u_sockfd :: int
  u_rx_addr :: "sockaddr_in option"
  u_tx_addr :: "sockaddr_in option"

datatype priv_ctx = PrivNull | PrivMemif memif_conn_context | PrivUdp udp_context

text \<open>The function pointers \<open>dequeue_buffer\<close> and \<open>enqueue_buffer\<close> are set together, to the memif
  pair or not at all.\<close>

record mcm_conn_context =
  c_self :: nat
  c_type :: transfer_type
  c_proxy_sockfd :: int
  c_session_id :: u32
  c_proto :: proto_type
  c_priv :: priv_ctx
  c_width :: u32
  c_height :: u32
  c_fps :: rat
  c_pix_fmt :: video_pixel_format
  c_frame_size :: u64
  c_has_buffer_ops :: bool

record mcm_buffer =
  b_self :: nat
  b_len :: u64
  b_data :: nat

section \<open>Calls\<close>

datatype ctl_inst = MCM_CREATE_SESSION | MCM_DESTROY_SESSION | MCM_QUERY_MEMIF_PARAM

datatype wire_part = Header string u8 | Command ctl_inst | DataParam mcm_conn_param | DataSession u32

datatype sdk_call =
    SCalloc string | SFree nat | SMalloc nat
  | Getenv string | Socket bool | Connect int sockaddr_in | Bind int sockaddr_in | SClose int
  | WriteFd int wire_part | ReadSessionId int | ReadMemifParam int
  | Mkdir string | Unlink string
  | MemifCreateSocket memif_socket_args | MemifDeleteSocket nat
  | MemifCreate memif_conn_args transfer_type nat | MemifDelete nat
  | MemifCreateLocal memif_conn_args | StartPollThread | JoinPollThread
  | MemifPollEvent nat int | MemifCancelPoll nat | MemifGetDetails nat
  | MemifBufferAlloc nat u16 nat u32 | MemifTxBurst nat u16 memif_buffer
  | MemifRxBurst nat u16 nat | MemifRefillQueue nat u16 u16 u16
  | ClockGettime | SUsleep nat | SendTo int nat nat sockaddr_in | RecvFrom int nat nat

text \<open>What \<open>memif_poll_event\<close> found: nothing to hand to the application, an interrupt on a queue
  (its callback's result is the result of the poll), a connection established or lost.\<close>

datatype poll_event = EvNone | EvInterrupt u16 | EvConnect | EvDisconnect

record sdk_res =
  s_ret :: int
  s_out :: nat
  s_errno :: int
  s_str :: "string option"
  s_sid :: u32
  s_param :: memif_conn_param
  s_bufs :: "memif_buffer list"
  s_num :: u16
  s_event :: poll_event
  s_sec :: int
  s_nsec :: int

type_synonym sdk_trace = "(sdk_call, sdk_res) trace"
type_synonym sdk_env = "(sdk_call, sdk_res) environ"

text \<open>A function that can loop forever, dereference NULL, index past an array or leave the process.\<close>

datatype 'a outcome = Returns 'a | OutOfFuel | Segfault | OutOfBounds | ExitProcess

section \<open>Error numbers of libmemif\<close>

definition MEMIF_ERR_SUCCESS :: int where "MEMIF_ERR_SUCCESS = 0"
definition MEMIF_ERR_INVAL_ARG :: int where "MEMIF_ERR_INVAL_ARG = 11"
definition MEMIF_ERR_NOCONN :: int where "MEMIF_ERR_NOCONN = 12"
definition MEMIF_ERR_NOBUF_RING :: int where "MEMIF_ERR_NOBUF_RING = 18"
definition MEMIF_ERR_NOBUF :: int where "MEMIF_ERR_NOBUF = 19"
definition MEMIF_ERR_INT_WRITE :: int where "MEMIF_ERR_INT_WRITE = 21"
definition MEMIF_ERR_QID :: int where "MEMIF_ERR_QID = 23"
definition MEMIF_ERR_DISCONNECTED :: int where "MEMIF_ERR_DISCONNECTED = 35"

lemmas memif_err_defs = MEMIF_ERR_SUCCESS_def MEMIF_ERR_INVAL_ARG_def MEMIF_ERR_NOCONN_def
  MEMIF_ERR_NOBUF_RING_def MEMIF_ERR_NOBUF_def MEMIF_ERR_INT_WRITE_def MEMIF_ERR_QID_def
  MEMIF_ERR_DISCONNECTED_def

end
