(* ===== verification/Udp_Impl.thy ===== *)
theory Udp_Impl
  imports Sdk_Base
begin

text \<open>
  The SDK's UDP transport, sdk/src/udp_impl.c: opening and closing the socket, buffers on the
  heap, and the loop that hands a buffer to the network piece by piece. The loop may run forever
  if \<open>sendto\<close> keeps accepting no bytes, so it takes fuel; the theorem shows that the length of
  the buffer is enough fuel when each call makes progress, and which bytes were handed over.
\<close>

definition sockaddr_of :: "mcm_dp_addr \<Rightarrow> sockaddr_in" where
  "sockaddr_of a = \<lparr>sin_addr = a_ip a, sin_port = htons (word_of_int (atoi (a_port a)))\<rparr>"

definition mcm_create_connection_udp ::
  "sdk_env \<Rightarrow> mcm_conn_param \<Rightarrow> sdk_trace \<Rightarrow> udp_context option \<times> sdk_trace" where
  "mcm_create_connection_udp env param tr =
     (let (s, tr) = ext_call env (Socket False) tr in
      if s_ret s < 0 then (None, tr) else
      let sockfd = s_ret s;
          (ok, rx_addr, tx_addr, tr) =
            (if p_type param = is_rx then
               (let rx = sockaddr_of (p_local_addr param);
                    (b, tr) = ext_call env (Bind sockfd rx) tr
                in if s_ret b < 0 then (False, None, None, snd (ext_call env (SClose sockfd) tr))
                   else (True, Some rx, Some (sockaddr_of (p_remote_addr param)), tr))
             else (True, Some (sockaddr_of (p_remote_addr param)), None, tr))
      in if \<not> ok then (None, tr) else
      let (m, tr) = ext_call env (SCalloc ''udp_context'') tr in
      if s_out m = 0 then (None, snd (ext_call env (SClose sockfd) tr))
      else (Some \<lparr>u_self = s_out m, u_sockfd = sockfd, u_rx_addr = rx_addr, u_tx_addr = tx_addr\<rparr>, tr))"

definition mcm_destroy_connection_udp ::
  "sdk_env \<Rightarrow> udp_context option \<Rightarrow> sdk_trace \<Rightarrow> sdk_trace" where
  "mcm_destroy_connection_udp env pctx tr = (case pctx of
      None \<Rightarrow> tr
    | Some c \<Rightarrow>
        let tr = snd (ext_call env (SClose (u_sockfd c)) tr)
        in snd (ext_call env (SFree (u_self c)) tr))"

definition mcm_alloc_buffer_udp ::
  "sdk_env \<Rightarrow> u64 \<Rightarrow> sdk_trace \<Rightarrow> mcm_buffer option \<times> sdk_trace" where
  "mcm_alloc_buffer_udp env len tr =
     (let (b, tr) = ext_call env (SCalloc ''mcm_buffer'') tr in
      if s_out b = 0 then (None, tr) else
      let (d, tr) = ext_call env (SMalloc (unat len)) tr
      in (Some \<lparr>b_self = s_out b, b_len = len, b_data = s_out d\<rparr>, tr))"

definition mcm_free_buffer_udp ::
  "sdk_env \<Rightarrow> mcm_buffer option option \<Rightarrow> sdk_trace \<Rightarrow> mcm_buffer option option \<times> sdk_trace" where
  "mcm_free_buffer_udp env buf tr = (case buf of
      Some (Some b) \<Rightarrow>
        (let tr = snd (ext_call env (SFree (b_data b)) tr);
             tr = snd (ext_call env (SFree (b_self b)) tr)
         in (Some None, tr))
    | _ \<Rightarrow> (buf, tr))"

text \<open>The loop of \<open>mcm_send_buffer_udp\<close>: \<open>data\<close> and \<open>len\<close> are the variables of the source. The test
  against \<open>SIZE_MAX\<close> never holds for a 64-bit length.\<close>

fun udp_send_loop ::
  "nat \<Rightarrow> sdk_env \<Rightarrow> int \<Rightarrow> sockaddr_in \<Rightarrow> nat \<Rightarrow> nat \<Rightarrow> sdk_trace \<Rightarrow> (int \<times> sdk_trace) option" where
  "udp_send_loop 0 env fd addr data len tr = None"
| "udp_send_loop (Suc fuel) env fd addr data len tr =
     (if len > 0 then
        (let (n, tr) = ext_call env (SendTo fd data len addr) tr in
         if s_ret n < 0 \<or> int len < s_ret n then Some (-1, tr)
         else udp_send_loop fuel env fd addr (data + nat (s_ret n)) (len - nat (s_ret n)) tr)
      else Some (0, tr))"

definition addr_or_zero :: "sockaddr_in option \<Rightarrow> sockaddr_in" where
  "addr_or_zero a = (case a of None \<Rightarrow> \<lparr>sin_addr = ''0.0.0.0'', sin_port = 0\<rparr> | Some s \<Rightarrow> s)"

definition mcm_send_buffer_udp ::
  "nat \<Rightarrow> sdk_env \<Rightarrow> udp_context option \<Rightarrow> mcm_buffer option \<Rightarrow> sdk_trace \<Rightarrow> (int \<times> sdk_trace) option" where
  "mcm_send_buffer_udp fuel env ctx buf tr = (case (ctx, buf) of
      (Some c, Some b) \<Rightarrow>
        udp_send_loop fuel env (u_sockfd c) (addr_or_zero (u_rx_addr c)) (b_data b) (unat (b_len b)) tr
    | _ \<Rightarrow> Some (-1, tr))"

definition mcm_recv_buffer_udp ::
  "sdk_env \<Rightarrow> udp_context option \<Rightarrow> mcm_buffer option \<Rightarrow> sdk_trace \<Rightarrow> int \<times> sdk_trace" where
  "mcm_recv_buffer_udp env ctx buf tr = (case (ctx, buf) of
      (Some c, Some b) \<Rightarrow>
        (let (r, tr) = ext_call env (RecvFrom (u_sockfd c) (b_data b) (unat (b_len b))) tr
         in (s_ret r, tr))
    | _ \<Rightarrow> (-1, tr))"

section \<open>Which bytes are sent\<close>

text \<open>The addresses of the bytes a trace handed to the network: each successful \<open>sendto\<close> takes the
  first bytes of what it was given.\<close>

fun ev_bytes :: "sdk_call \<times> sdk_res \<Rightarrow> nat list" where
  "ev_bytes (SendTo fd data len addr, r) = (if 0 \<le> s_ret r then [data..<data + nat (s_ret r)] else [])"
| "ev_bytes _ = []"

definition bytes_sent :: "sdk_trace \<Rightarrow> nat list" where
  "bytes_sent tr = concat (map ev_bytes tr)"

lemma bytes_sent_simps [simp]:
  "bytes_sent [] = []" "bytes_sent (tr @ tr') = bytes_sent tr @ bytes_sent tr'"
  "bytes_sent (e # tr) = ev_bytes e @ bytes_sent tr"
  by (simp_all add: bytes_sent_def)

lemma udp_send_loop_bytes:
  assumes "udp_send_loop fuel env fd addr data len tr = Some (0, tr')"
  shows "bytes_sent tr' = bytes_sent tr @ [data..<data + len]"
  using assms
proof (induction fuel arbitrary: data len tr)
  case (Suc fuel)
  let ?r = "s_ret (env tr (SendTo fd data len addr))"
  show ?case
  proof (cases "len = 0")
    case False
    with Suc.prems have r: "0 \<le> ?r" "?r \<le> int len" and
      rec: "udp_send_loop fuel env fd addr (data + nat ?r) (len - nat ?r)
        (tr @ [(SendTo fd data len addr, env tr (SendTo fd data len addr))]) = Some (0, tr')"
      by (auto simp: ext_call_def split: if_splits)
    have "[data..<data + len] = [data..<data + nat ?r] @ [data + nat ?r..<data + len]"
      using r upt_add_eq_append [of data "data + nat ?r" "len - nat ?r"] by simp
    with Suc.IH [OF rec] r show ?thesis by simp
  qed (use Suc.prems in simp)
qed simp

lemma udp_send_loop_returns:
  assumes "\<And>tr d n. n > 0 \<Longrightarrow> s_ret (env tr (SendTo fd d n addr)) \<noteq> 0" and "len < fuel"
  shows "udp_send_loop fuel env fd addr data len tr \<noteq> None"
  using assms(2)
proof (induction fuel arbitrary: data len tr)
  case (Suc fuel)
  let ?r = "s_ret (env tr (SendTo fd data len addr))"
  show ?case
  proof (cases "len = 0 \<or> ?r < 0 \<or> int len < ?r")
    case False
    with assms(1) [of len tr data] have "0 < ?r" "?r \<le> int len" by auto
    then have "len - nat ?r < fuel" using Suc.prems by linarith
    from Suc.IH [OF this] False show ?thesis by (simp add: ext_call_def)
  qed (auto simp: ext_call_def)
qed simp

text \<open>
  C15. Sending a buffer over UDP ends, with as much fuel as the buffer has bytes, whenever each
  \<open>sendto\<close> on a non-empty range makes progress or fails; and if the function reports success, the
  bytes handed to the network are exactly the bytes of the buffer, in order and each once.
\<close>

theorem mcm_send_buffer_udp_complete:
  assumes "\<And>tr d n. n > 0 \<Longrightarrow> s_ret (env tr (SendTo (u_sockfd c) d n (addr_or_zero (u_rx_addr c)))) \<noteq> 0"
    and "unat (b_len b) < fuel"
  shows "\<exists>r tr'. mcm_send_buffer_udp fuel env (Some c) (Some b) tr = Some (r, tr') \<and>
    (r = 0 \<longrightarrow> bytes_sent tr' = bytes_sent tr @ [b_data b..<b_data b + unat (b_len b)])"
proof -
  obtain r tr' where "mcm_send_buffer_udp fuel env (Some c) (Some b) tr = Some (r, tr')"
    using udp_send_loop_returns [of env "u_sockfd c" "addr_or_zero (u_rx_addr c)", OF assms]
    by (fastforce simp: mcm_send_buffer_udp_def)
  then show ?thesis
    using udp_send_loop_bytes by (fastforce simp: mcm_send_buffer_udp_def)
qed

definition sdk_res0 :: sdk_res where
  "sdk_res0 = \<lparr>s_ret = 0, s_out = 0, s_errno = 0, s_str = None, s_sid = 0,
     s_param = \<lparr>socket_args = \<lparr>sa_path = [], sa_app_name = []\<rparr>,
       conn_args = \<lparr>ca_socket = 0, ca_buffer_size = 0, ca_log2_ring_size = 0, ca_is_master = False,
         ca_interface_id = 0, ca_interface_name = []\<rparr>\<rparr>,
     s_bufs = [], s_num = 0, s_event = EvNone, s_sec = 0, s_nsec = 0\<rparr>"

definition udp0 :: udp_context where
  "udp0 = \<lparr>u_self = 5, u_sockfd = 3,
     u_rx_addr = Some (sockaddr_of \<lparr>a_ip = ''10.0.0.1'', a_port = ''9001''\<rparr>), u_tx_addr = None\<rparr>"

text \<open>A network that takes at most two bytes at a time.\<close>

definition two_byte_net :: sdk_env where
  "two_byte_net tr c = (case c of SendTo _ _ n _ \<Rightarrow> sdk_res0\<lparr>s_ret := min 2 (int n)\<rparr> | _ \<Rightarrow> sdk_res0)"

theorem mcm_send_buffer_udp_complete_witness:
  "\<exists>tr'. mcm_send_buffer_udp (Suc (Suc (Suc (Suc (Suc (Suc 0)))))) two_byte_net (Some udp0) (Some \<lparr>b_self = 1, b_len = 5, b_data = 100\<rparr>) []
     = Some (0, tr') \<and> bytes_sent tr' = [100..<105]"
proof -
  have z: "s_ret (two_byte_net tr (SendTo fd d n a)) \<noteq> 0" if "n > 0" for tr fd d n a
    using that by (simp add: two_byte_net_def sdk_res0_def)
  let ?m = "mcm_send_buffer_udp (Suc (Suc (Suc (Suc (Suc (Suc 0)))))) two_byte_net (Some udp0) (Some \<lparr>b_self = 1, b_len = 5, b_data = 100\<rparr>) []"
  have "map_option fst ?m = Some 0"
    by (simp add: mcm_send_buffer_udp_def udp0_def two_byte_net_def sdk_res0_def ext_call_def)
  with mcm_send_buffer_udp_complete [of two_byte_net udp0, OF z, of "\<lparr>b_self = 1, b_len = 5, b_data = 100\<rparr>" "Suc (Suc (Suc (Suc (Suc (Suc 0)))))" "[]"]
  show ?thesis by auto
qed

text \<open>A failed \<open>mcm_create_connection_udp\<close> leaves no socket open, a successful one exactly its own.\<close>

fun ev_sock_open :: "sdk_call \<times> sdk_res \<Rightarrow> int multiset" where
  "ev_sock_open (Socket _, r) = (if s_ret r < 0 then {#} else {#s_ret r#})"
| "ev_sock_open _ = {#}"

fun ev_sock_close :: "sdk_call \<times> sdk_res \<Rightarrow> int multiset" where
  "ev_sock_close (SClose fd, r) = {#fd#}"
| "ev_sock_close _ = {#}"

lemma mcm_create_connection_udp_socket:
  assumes "mcm_create_connection_udp env param tr = (c, tr')"
  shows "\<exists>X. ledger ev_sock_open tr' = ledger ev_sock_open tr + X +
      (case c of None \<Rightarrow> {#} | Some u \<Rightarrow> {#u_sockfd u#}) \<and>
    ledger ev_sock_close tr' = ledger ev_sock_close tr + X"
  using assms
  by (auto simp: mcm_create_connection_udp_def ext_call_def Let_def split: if_splits)

end
