(* ===== verification/Memif_Impl.thy ===== *)
theory Memif_Impl
  imports Udp_Impl
begin

text \<open>
  The SDK's shared-memory transport, sdk/src/memif_impl.c, and the timed allocation of
  media-proxy/src/shm_memif_common.c. \<open>memif_poll_event\<close> runs at most one of the callbacks
  registered with \<open>memif_create\<close>; the model runs the same callback on the connection context, so
  that what a poll does to the context is the code's own doing. The theorems are about the staging
  array of received buffers: nothing received is lost, duplicated or reordered unless a burst fails
  with buffers, and what happens then; and how long a dequeue can wait. The printing of connection details changes no state
  and is left out.
\<close>

section \<open>Callbacks\<close>

definition on_connect :: "sdk_env \<Rightarrow> memif_conn_context \<Rightarrow> sdk_trace \<Rightarrow> int \<times> memif_conn_context \<times> sdk_trace" where
  "on_connect env c tr =
     (let (r, tr) = ext_call env (MemifRefillQueue (mc_conn c) 0 (-1) 0) tr in
      if s_ret r \<noteq> MEMIF_ERR_SUCCESS then (s_ret r, c, tr)
      else (0, c\<lparr>mc_is_connected := True\<rparr>, tr))"

definition on_disconnect :: "sdk_env \<Rightarrow> memif_conn_context \<Rightarrow> sdk_trace \<Rightarrow> int \<times> memif_conn_context \<times> sdk_trace" where
  "on_disconnect env c tr =
     (let (_, tr) = ext_call env (MemifCancelPoll (mc_sockfd c)) tr
      in (0, c\<lparr>mc_is_connected := False\<rparr>, tr))"

definition tx_on_receive ::
  "sdk_env \<Rightarrow> memif_conn_context \<Rightarrow> u16 \<Rightarrow> sdk_trace \<Rightarrow> int \<times> memif_conn_context \<times> sdk_trace" where
  "tx_on_receive env c qid tr =
     (let (r, tr) = ext_call env (MemifRxBurst (mc_conn c) qid 1) tr in
      if s_ret r \<noteq> MEMIF_ERR_SUCCESS then (s_ret r, c, tr) else
      let (f, tr) = ext_call env (MemifRefillQueue (mc_conn c) qid (s_num r) 0) tr in
      if s_ret f \<noteq> MEMIF_ERR_SUCCESS then (s_ret f, c, tr) else (0, c, tr))"

text \<open>\<open>memif_rx_burst\<close> checks its arguments before it writes the number of buffers; every later
  return has written it.\<close>

definition burst_wrote_num :: "int \<Rightarrow> bool" where
  "burst_wrote_num err \<longleftrightarrow>
     err \<notin> {MEMIF_ERR_NOCONN, MEMIF_ERR_DISCONNECTED, MEMIF_ERR_QID, MEMIF_ERR_INVAL_ARG}"

definition overwrite_prefix :: "'a list \<Rightarrow> 'a list \<Rightarrow> 'a list" where
  "overwrite_prefix new old = take (length old) (new @ drop (length new) old)"

definition rx_on_receive ::
  "sdk_env \<Rightarrow> memif_conn_context \<Rightarrow> u16 \<Rightarrow> sdk_trace \<Rightarrow> int \<times> memif_conn_context \<times> sdk_trace" where
  "rx_on_receive env c qid tr =
     (let (r, tr) = ext_call env (MemifRxBurst (mc_conn c) qid MEMIF_BUFFER_NUM) tr;
          c = (if burst_wrote_num (s_ret r)
               then c\<lparr>mc_buf_num := s_num r,
                      mc_working_bufs := overwrite_prefix (s_bufs r) (mc_working_bufs c)\<rparr>
               else c)
      in if s_ret r \<noteq> MEMIF_ERR_SUCCESS then (s_ret r, c, tr)
         else (0, c\<lparr>mc_working_idx := 0\<rparr>, tr))"

definition memif_poll ::
  "sdk_env \<Rightarrow> transfer_type \<Rightarrow> memif_conn_context \<Rightarrow> int \<Rightarrow> sdk_trace
     \<Rightarrow> int \<times> memif_conn_context \<times> sdk_trace" where
  "memif_poll env ty c timeout tr =
     (let (r, tr) = ext_call env (MemifPollEvent (mc_sockfd c) timeout) tr in
      case s_event r of
        EvNone \<Rightarrow> (s_ret r, c, tr)
      | EvInterrupt q \<Rightarrow> if ty = is_tx then tx_on_receive env c q tr else rx_on_receive env c q tr
      | EvConnect \<Rightarrow> (s_ret r, snd (on_connect env c tr))
      | EvDisconnect \<Rightarrow> (s_ret r, snd (on_disconnect env c tr)))"

section \<open>Creating and destroying a connection\<close>

fun await_connected ::
  "nat \<Rightarrow> sdk_env \<Rightarrow> transfer_type \<Rightarrow> memif_conn_context \<Rightarrow> sdk_trace
     \<Rightarrow> (int \<times> memif_conn_context \<times> sdk_trace) option" where
  "await_connected 0 env ty c tr = None"
| "await_connected (Suc fuel) env ty c tr =
     (let (err, c, tr) = memif_poll env ty c (-1) tr in
      if err \<noteq> MEMIF_ERR_SUCCESS then Some (err, c, tr)
      else if mc_is_connected c then Some (0, c, tr)
      else await_connected fuel env ty c tr)"

text \<open>The code waits for the peer as long as it takes. If the loop returns at all, more fuel gives the same
  result; and it returns when \<open>n\<close> polls without a failure are followed by one that connects.\<close>

lemma await_connected_more: "await_connected n env ty c tr = Some r \<Longrightarrow> n \<le> m \<Longrightarrow> await_connected m env ty c tr = Some r"
proof (induction n arbitrary: m c tr)
  case (Suc n)
  then obtain m' where "m = Suc m'" "n \<le> m'" by (metis Suc_le_D Suc_le_mono)
  then show ?case using Suc by (auto simp: Let_def split: prod.splits if_splits)
qed simp

lemma await_connected_returns:
  assumes "\<And>i. i < n \<Longrightarrow> \<exists>c' tr'. memif_poll env ty (fst (ctx i)) (-1) (snd (ctx i)) = (0, c', tr') \<and>
      \<not> mc_is_connected c' \<and> ctx (Suc i) = (c', tr')"
    and "memif_poll env ty (fst (ctx n)) (-1) (snd (ctx n)) = (0, c', tr')" and "mc_is_connected c'"
  shows "await_connected (Suc n) env ty (fst (ctx 0)) (snd (ctx 0)) = Some (0, c', tr')"
  using assms
proof (induction n arbitrary: ctx)
  case 0
  then show ?case by (simp add: MEMIF_ERR_SUCCESS_def)
next
  case (Suc n)
  obtain c1 tr1 where 1: "memif_poll env ty (fst (ctx 0)) (-1) (snd (ctx 0)) = (0, c1, tr1)" "\<not> mc_is_connected c1"
    "ctx (Suc 0) = (c1, tr1)" using Suc.prems(1) [of 0] by auto
  have "await_connected (Suc n) env ty c1 tr1 = Some (0, c', tr')"
    using Suc.IH [of "\<lambda>i. ctx (Suc i)"] Suc.prems 1(3) by simp
  then show ?case using 1 by (subst await_connected.simps) (simp add: MEMIF_ERR_SUCCESS_def del: await_connected.simps)
qed

definition new_memif_ctx :: "nat \<Rightarrow> nat \<Rightarrow> memif_conn_context" where
  "new_memif_ctx self sock = \<lparr>mc_self = self, mc_is_connected = False, mc_sockfd = sock, mc_conn = 0,
     mc_qid = 0, mc_buffer_size = 0, mc_buf_num = 0,
     mc_working_bufs = replicate MEMIF_BUFFER_NUM \<lparr>mb_desc_index = 0, mb_len = 0, mb_data = 0\<rparr>,
     mc_working_idx = 0\<rparr>"

definition prepare_socket_dir :: "sdk_env \<Rightarrow> memif_conn_param \<Rightarrow> sdk_trace \<Rightarrow> bool \<times> sdk_trace" where
  "prepare_socket_dir env a tr =
     (if ca_is_master (conn_args a) \<and> take 1 (sa_path (socket_args a)) \<noteq> ''@'' then
        (let (m, tr) = ext_call env (Mkdir ''/run/mcm'') tr in
         if s_ret m \<noteq> 0 \<and> s_errno m \<noteq> EEXIST then (False, tr)
         else (True, snd (ext_call env (Unlink (sa_path (socket_args a))) tr)))
      else (True, tr))"

definition abandon_memif :: "sdk_env \<Rightarrow> memif_conn_context \<Rightarrow> sdk_trace \<Rightarrow> sdk_trace" where
  "abandon_memif env c tr =
     snd (ext_call env (MemifDeleteSocket (mc_sockfd c)) (snd (ext_call env (SFree (mc_self c)) tr)))"

definition mcm_create_connection_memif ::
  "nat \<Rightarrow> sdk_env \<Rightarrow> mcm_conn_param option \<Rightarrow> memif_conn_param option \<Rightarrow> sdk_trace
     \<Rightarrow> (mcm_conn_context option \<times> sdk_trace) outcome" where
  "mcm_create_connection_memif fuel env svc margs tr = (case (svc, margs) of
      (Some p, Some a) \<Rightarrow>
        (let (ok, tr) = prepare_socket_dir env a tr in
         if \<not> ok then Returns (None, tr) else
         let (s, tr) = ext_call env (MemifCreateSocket (socket_args a)) tr in
         if s_ret s \<noteq> MEMIF_ERR_SUCCESS then Returns (None, tr) else
         let (m, tr) = ext_call env (SCalloc ''memif_conn_context'') tr in
         if s_out m = 0 then ExitProcess else
         let c = new_memif_ctx (s_out m) (s_out s);
             a = a\<lparr>conn_args := (conn_args a)\<lparr>ca_socket := s_out s\<rparr>\<rparr>;
             (k, tr) = ext_call env (MemifCreate (conn_args a) (p_type p) (mc_self c)) tr
         in if s_ret k \<noteq> MEMIF_ERR_SUCCESS then Returns (None, abandon_memif env c tr) else
         (case await_connected fuel env (p_type p) (c\<lparr>mc_conn := s_out k\<rparr>) tr of
            None \<Rightarrow> OutOfFuel
          | Some (err, c, tr) \<Rightarrow>
              if err \<noteq> MEMIF_ERR_SUCCESS then Returns (None, abandon_memif env c tr) else
              let (x, tr) = ext_call env (SCalloc ''mcm_conn_context'') tr in
              if s_out x = 0 then Returns (None, abandon_memif env c tr) else
              let c = c\<lparr>mc_buffer_size := ca_buffer_size (conn_args a)\<rparr> in
              Returns (Some \<lparr>c_self = s_out x, c_type = p_type p, c_proxy_sockfd = 0, c_session_id = 0,
                c_proto = PROTO_MEMIF, c_priv = PrivMemif c, c_width = p_width p,
                c_height = p_height p, c_fps = p_fps p, c_pix_fmt = p_pix_fmt p,
                c_frame_size = ucast (ca_buffer_size (conn_args a)), c_has_buffer_ops = True\<rparr>, tr)))
    | _ \<Rightarrow> Returns (None, tr))"

definition mcm_destroy_connection_memif ::
  "sdk_env \<Rightarrow> memif_conn_context option \<Rightarrow> sdk_trace \<Rightarrow> sdk_trace" where
  "mcm_destroy_connection_memif env pctx tr = (case pctx of
      None \<Rightarrow> tr
    | Some c \<Rightarrow>
       (let tr = snd (ext_call env (MemifDelete (mc_conn c)) tr);
            tr = snd (ext_call env (MemifDeleteSocket (mc_sockfd c)) tr)
        in snd (ext_call env (SFree (mc_self c)) tr)))"

section \<open>Getting and returning buffers\<close>

definition sleep_interval :: int where "sleep_interval = 10"

text \<open>The allocation loop of the sender: the last error, the allocated buffer with the number
  \<open>memif_buffer_alloc\<close> reported, and the context after the callbacks the polls ran.\<close>

type_synonym alloc_result = "(int \<times> memif_buffer list \<times> u16) \<times> memif_conn_context \<times> sdk_trace"

fun tx_alloc_loop ::
  "nat \<Rightarrow> sdk_env \<Rightarrow> u32 \<Rightarrow> int \<Rightarrow> memif_conn_context \<Rightarrow> sdk_trace \<Rightarrow> alloc_result option" where
  "tx_alloc_loop 0 env sz timeout c tr = None"
| "tx_alloc_loop (Suc fuel) env sz timeout c tr =
     (let (r, tr) = ext_call env (MemifBufferAlloc (mc_conn c) (mc_qid c) 1 sz) tr in
      if s_ret r = MEMIF_ERR_SUCCESS then Some ((0, s_bufs r, s_num r), c, tr)
      else if s_ret r = MEMIF_ERR_NOBUF_RING then
        (if timeout = 0 then Some ((s_ret r, [], s_num r), c, tr)
         else if timeout < 0 then tx_alloc_loop fuel env sz timeout c tr
         else
           (let (err, c, tr) = memif_poll env is_tx c sleep_interval tr in
            if err \<noteq> MEMIF_ERR_SUCCESS then Some ((err, [], s_num r), c, tr)
            else tx_alloc_loop fuel env sz (max 0 (timeout - sleep_interval)) c tr))
      else Some ((s_ret r, [], s_num r), c, tr))"

definition cdiv :: "int \<Rightarrow> int \<Rightarrow> int" where
  "cdiv a b = sgn a * (\<bar>a\<bar> div b)"

text \<open>The waiting loop of the receiver: \<open>None\<close> in the first component says that data is there;
  otherwise it is the value written to \<open>*error_code\<close> before returning NULL.\<close>

fun rx_wait_loop ::
  "nat \<Rightarrow> sdk_env \<Rightarrow> int \<Rightarrow> memif_conn_context \<Rightarrow> sdk_trace
     \<Rightarrow> (int option \<times> memif_conn_context \<times> sdk_trace) option" where
  "rx_wait_loop 0 env timeout c tr = (if mc_buf_num c > 0 then Some (None, c, tr) else None)"
| "rx_wait_loop (Suc fuel) env timeout c tr =
     (if mc_buf_num c > 0 then Some (None, c, tr) else
      let (t0, tr) = ext_call env ClockGettime tr;
          (err, c, tr) = memif_poll env is_rx c timeout tr
      in if err \<noteq> 0 then Some (Some err, c, tr)
      else if timeout > 0 then
        (let (t1, tr) = ext_call env ClockGettime tr;
             elapsed = (s_sec t1 - s_sec t0) * 1000 + cdiv (s_nsec t1 - s_nsec t0) 1000000
         in if elapsed \<ge> timeout then Some (Some 0, c, tr)
            else rx_wait_loop fuel env timeout c tr)
      else rx_wait_loop fuel env timeout c tr)"

text \<open>The result of a dequeue: the buffer (\<open>None\<close>: NULL), the value written to \<open>*error_code\<close>
  (\<open>None\<close>: not written), the context and the trace.\<close>

type_synonym deq_result = "((mcm_buffer option \<times> int option) \<times> memif_conn_context \<times> sdk_trace) outcome"

definition tx_dequeue ::
  "nat \<Rightarrow> sdk_env \<Rightarrow> u64 \<Rightarrow> int \<Rightarrow> memif_conn_context \<Rightarrow> sdk_trace \<Rightarrow> deq_result" where
  "tx_dequeue fuel env frame_size timeout c tr =
     (let (err, c, tr) = memif_poll env is_tx c 0 tr in
      if err \<noteq> MEMIF_ERR_SUCCESS then Returns ((None, None), c, tr) else
      (case tx_alloc_loop fuel env (ucast frame_size) timeout c tr of
         None \<Rightarrow> OutOfFuel
       | Some ((err, bufs, n), c, tr) \<Rightarrow>
           if err = MEMIF_ERR_SUCCESS then
             (let (m, tr) = ext_call env (SCalloc ''mcm_buffer'') tr in
              if s_out m = 0 then Segfault else
              case bufs of
                [] \<Rightarrow> OutOfBounds
              | mb # _ \<Rightarrow>
                  Returns ((Some \<lparr>b_self = s_out m, b_len = frame_size, b_data = mb_data mb\<rparr>, None),
                    c\<lparr>mc_working_bufs := (mc_working_bufs c)[0 := mb], mc_working_idx := 0,
                      mc_buf_num := n\<rparr>, tr))
           else Returns ((None, Some err), c, tr)))"

definition rx_take ::
  "sdk_env \<Rightarrow> memif_conn_context \<Rightarrow> sdk_trace \<Rightarrow> deq_result" where
  "rx_take env c tr =
     (let (m, tr) = ext_call env (SCalloc ''mcm_buffer'') tr in
      if s_out m = 0 then Segfault
      else if mc_working_idx c < 0 \<or> mc_working_idx c \<ge> int (length (mc_working_bufs c)) then OutOfBounds
      else
        let mb = mc_working_bufs c ! nat (mc_working_idx c) in
        Returns ((Some \<lparr>b_self = s_out m, b_len = ucast (mb_len mb), b_data = mb_data mb\<rparr>, Some 0),
          c\<lparr>mc_working_idx := mc_working_idx c + 1, mc_buf_num := mc_buf_num c - 1\<rparr>, tr))"

definition rx_dequeue ::
  "nat \<Rightarrow> sdk_env \<Rightarrow> int \<Rightarrow> memif_conn_context \<Rightarrow> sdk_trace \<Rightarrow> deq_result" where
  "rx_dequeue fuel env timeout c tr = (case rx_wait_loop fuel env timeout c tr of
      None \<Rightarrow> OutOfFuel
    | Some (Some e, c, tr) \<Rightarrow> Returns ((None, Some e), c, tr)
    | Some (None, c, tr) \<Rightarrow> rx_take env c tr)"

definition memif_dequeue_buffer ::
  "nat \<Rightarrow> sdk_env \<Rightarrow> mcm_conn_context option \<Rightarrow> int \<Rightarrow> sdk_trace
     \<Rightarrow> ((mcm_buffer option \<times> int option) \<times> mcm_conn_context option \<times> sdk_trace) outcome" where
  "memif_dequeue_buffer fuel env ctxp timeout tr = (case ctxp of
      None \<Rightarrow> Returns ((None, None), ctxp, tr)
    | Some x \<Rightarrow>
       (case c_priv x of
          PrivMemif c \<Rightarrow>
            if \<not> mc_is_connected c then Returns ((None, None), ctxp, tr) else
            (case (if c_type x = is_tx then tx_dequeue fuel env (c_frame_size x) timeout c tr
                   else rx_dequeue fuel env timeout c tr) of
               Returns (res, c, tr) \<Rightarrow> Returns (res, Some (x\<lparr>c_priv := PrivMemif c\<rparr>), tr)
             | OutOfFuel \<Rightarrow> OutOfFuel | Segfault \<Rightarrow> Segfault | OutOfBounds \<Rightarrow> OutOfBounds
             | ExitProcess \<Rightarrow> ExitProcess)
        | _ \<Rightarrow> Returns ((None, None), ctxp, tr)))"

definition memif_enqueue_buffer ::
  "sdk_env \<Rightarrow> mcm_conn_context option \<Rightarrow> mcm_buffer option \<Rightarrow> sdk_trace
     \<Rightarrow> int \<times> mcm_conn_context option \<times> sdk_trace" where
  "memif_enqueue_buffer env ctxp buf tr = (case (ctxp, buf) of
      (Some x, Some b) \<Rightarrow>
       (case c_priv x of
          PrivMemif c \<Rightarrow>
            if \<not> mc_is_connected c then (-1, ctxp, tr) else
            if c_type x = is_tx then
              (let w = mc_working_bufs c ! 0 in
               if b_data b \<noteq> mb_data w then (-1, ctxp, tr) else
               let w = (if unat (b_len b) < unat (mb_len w) then w\<lparr>mb_len := ucast (b_len b)\<rparr> else w);
                   (r, tr) = ext_call env (MemifTxBurst (mc_conn c) (mc_qid c) w) tr;
                   c = c\<lparr>mc_working_bufs := (mc_working_bufs c)[0 := w], mc_buf_num := mc_buf_num c - 1\<rparr>;
                   tr = snd (ext_call env (SFree (b_self b)) tr)
               in (s_ret r, Some (x\<lparr>c_priv := PrivMemif c\<rparr>), tr))
            else
              (let (r, tr) = ext_call env (MemifRefillQueue (mc_conn c) (mc_qid c) 1 0) tr;
                   tr = snd (ext_call env (SFree (b_self b)) tr)
               in (s_ret r, ctxp, tr))
        | _ \<Rightarrow> (-1, ctxp, tr))
    | _ \<Rightarrow> (-1, ctxp, tr))"

section \<open>Timed allocation of the media proxy\<close>

text \<open>\<open>memif_buffer_alloc_timeout\<close>: \<open>waited_half_ms\<close> and \<open>timeout_ms * 2\<close> are 32-bit.\<close>

function alloc_timeout_loop ::
  "sdk_env \<Rightarrow> nat \<Rightarrow> u16 \<Rightarrow> nat \<Rightarrow> u32 \<Rightarrow> u32 \<Rightarrow> u32 \<Rightarrow> sdk_trace
     \<Rightarrow> (int \<times> memif_buffer list \<times> u16) \<times> sdk_trace" where
  "alloc_timeout_loop env conn qid cnt sz limit waited tr =
     (if waited < limit then
        (let (r, tr) = ext_call env (MemifBufferAlloc conn qid cnt sz) tr in
         if s_ret r = MEMIF_ERR_NOBUF_RING then
           (let (_, tr) = ext_call env (SUsleep 500) tr
            in alloc_timeout_loop env conn qid cnt sz limit (waited + 1) tr)
         else ((s_ret r, s_bufs r, s_num r), tr))
      else ((MEMIF_ERR_NOBUF_RING, [], 0), tr))"
  by pat_completeness auto
termination
proof (relation "measure (\<lambda>(_, _, _, _, _, limit, waited, _). unat limit - unat waited)", goal_cases)
  case (2 env conn qid cnt sz limit waited tr)
  from 2(1) have "unat waited < unat limit" by (simp add: word_less_nat_alt)
  moreover have "unat limit < 2 ^ 32" using unsigned_less [of limit] by simp
  ultimately have "unat (waited + 1) = unat waited + 1" by (simp add: unat_word_ariths(1))
  with 2(1) show ?case by (simp add: word_less_nat_alt)
qed simp

definition memif_buffer_alloc_timeout ::
  "sdk_env \<Rightarrow> nat \<Rightarrow> u16 \<Rightarrow> nat \<Rightarrow> u32 \<Rightarrow> u32 \<Rightarrow> sdk_trace \<Rightarrow> (int \<times> memif_buffer list \<times> u16) \<times> sdk_trace" where
  "memif_buffer_alloc_timeout env conn qid cnt sz timeout_ms tr =
     alloc_timeout_loop env conn qid cnt sz (timeout_ms * 2) 0 tr"


section \<open>The staging array\<close>

text \<open>What libmemif does in a receive burst (sdk/3rdparty/libmemif/src/main.c, \<open>memif_rx_burst\<close>): it writes
  as many buffers as it reports, at most as many as asked for, and none if it rejects its
  arguments. A burst that fails later may have written buffers: with \<open>MEMIF_ERR_NOBUF\<close>, when more are
  waiting than asked for, it has written all that were asked for.\<close>

definition rx_burst_contract :: "sdk_env \<Rightarrow> bool" where
  "rx_burst_contract env \<longleftrightarrow> (\<forall>tr h q n. let r = env tr (MemifRxBurst h q n) in
     length (s_bufs r) = unat (s_num r) \<and> unat (s_num r) \<le> n \<and> (\<not> burst_wrote_num (s_ret r) \<longrightarrow> s_num r = 0))"

text \<open>Buffers received and not yet handed out, and the buffers a trace received.\<close>

definition pending :: "memif_conn_context \<Rightarrow> memif_buffer list" where
  "pending c = take (unat (mc_buf_num c)) (drop (nat (mc_working_idx c)) (mc_working_bufs c))"

fun ev_received :: "sdk_call \<times> sdk_res \<Rightarrow> memif_buffer list" where
  "ev_received (MemifRxBurst h q n, r) = s_bufs r"
| "ev_received _ = []"

definition received :: "sdk_trace \<Rightarrow> memif_buffer list" where
  "received tr = concat (map ev_received tr)"

lemma received_simps [simp]:
  "received [] = []" "received (tr @ tr') = received tr @ received tr'"
  "received (e # tr) = ev_received e @ received tr"
  by (simp_all add: received_def)

text \<open>No burst of a trace failed after it had written buffers.\<close>

fun ev_clean :: "sdk_call \<times> sdk_res \<Rightarrow> bool" where
  "ev_clean (MemifRxBurst h q n, r) = (s_ret r = 0 \<or> s_bufs r = [])"
| "ev_clean _ = True"

definition clean_bursts :: "sdk_trace \<Rightarrow> bool" where
  "clean_bursts tr = list_all ev_clean tr"

lemma clean_bursts_simps [simp]:
  "clean_bursts []" "clean_bursts (tr @ tr') \<longleftrightarrow> clean_bursts tr \<and> clean_bursts tr'"
  "clean_bursts (e # tr) \<longleftrightarrow> ev_clean e \<and> clean_bursts tr"
  by (simp_all add: clean_bursts_def)

definition staging_ok :: "memif_conn_context \<Rightarrow> bool" where
  "staging_ok c \<longleftrightarrow> length (mc_working_bufs c) = MEMIF_BUFFER_NUM \<and> 0 \<le> mc_working_idx c \<and>
     nat (mc_working_idx c) + unat (mc_buf_num c) \<le> MEMIF_BUFFER_NUM"

lemma new_memif_ctx_staging_ok: "staging_ok (new_memif_ctx p s)"
  by (simp add: staging_ok_def new_memif_ctx_def)

lemma rx_burst_contractD:
  assumes "rx_burst_contract env"
  shows "length (s_bufs (env tr (MemifRxBurst h q n))) = unat (s_num (env tr (MemifRxBurst h q n)))"
    "unat (s_num (env tr (MemifRxBurst h q n))) \<le> n"
    "\<not> burst_wrote_num (s_ret (env tr (MemifRxBurst h q n))) \<Longrightarrow> s_num (env tr (MemifRxBurst h q n)) = 0"
  using assms by (auto simp: rx_burst_contract_def Let_def)

text \<open>What a step of the receiver keeps: unless a burst failed with buffers, the staged buffers are those
  received, and such a failure is reported.\<close>

definition staged ::
  "memif_conn_context \<Rightarrow> sdk_trace \<Rightarrow> int \<Rightarrow> memif_conn_context \<Rightarrow> sdk_trace \<Rightarrow> bool" where
  "staged c tr err c' tr' \<longleftrightarrow> (\<exists>suf. tr' = tr @ suf \<and> (err = 0 \<longrightarrow> clean_bursts suf) \<and>
     (clean_bursts suf \<longrightarrow> staging_ok c' \<and> pending c' = pending c @ received suf))"

lemma rx_on_receive_staging:
  assumes "rx_burst_contract env" and "staging_ok c" and "mc_buf_num c = 0"
    and "rx_on_receive env c q tr = (err, c', tr')"
  shows "staged c tr err c' tr'"
proof -
  let ?b = "MemifRxBurst (mc_conn c) q MEMIF_BUFFER_NUM"
  let ?r = "env tr ?b"
  note r = rx_burst_contractD [OF assms(1), of tr "mc_conn c" q MEMIF_BUFFER_NUM]
  have len: "length (mc_working_bufs c) = MEMIF_BUFFER_NUM" using assms(2) by (simp add: staging_ok_def)
  have tr': "tr' = tr @ [(?b, ?r)]" using assms(4) by (auto simp: rx_on_receive_def ext_call_def Let_def split: if_splits)
  have p: "pending c = []" using assms(3) by (simp add: pending_def)
  consider "s_ret ?r = 0" | "s_ret ?r \<noteq> 0" "s_bufs ?r = []" | "s_ret ?r \<noteq> 0" "s_bufs ?r \<noteq> []" by blast
  then show ?thesis
  proof cases
    case 1
    then have "c' = c\<lparr>mc_buf_num := s_num ?r, mc_working_idx := 0,
        mc_working_bufs := overwrite_prefix (s_bufs ?r) (mc_working_bufs c)\<rparr>"
      using assms(4) by (auto simp: rx_on_receive_def ext_call_def burst_wrote_num_def memif_err_defs)
    then show ?thesis unfolding staged_def using 1 r len tr' p
      by (auto simp: staging_ok_def pending_def overwrite_prefix_def)
  next
    case 2
    then have z: "s_num ?r = 0" using r by (simp add: unat_eq_0)
    then have "mc_buf_num c' = 0 \<and> mc_working_idx c' = mc_working_idx c \<and>
      length (mc_working_bufs c') = MEMIF_BUFFER_NUM \<and> err \<noteq> 0"
      using assms(3,4) len 2
      by (auto simp: rx_on_receive_def ext_call_def memif_err_defs overwrite_prefix_def split: if_splits)
    then show ?thesis unfolding staged_def using 2 assms(2) tr' p by (auto simp: staging_ok_def pending_def)
  next
    case 3
    then have "err \<noteq> 0" using assms(4) by (auto simp: rx_on_receive_def ext_call_def memif_err_defs split: if_splits)
    then show ?thesis unfolding staged_def using 3 tr' by simp
  qed
qed

lemma rx_poll_staging:
  assumes "rx_burst_contract env" and "staging_ok c" and "mc_buf_num c = 0"
    and "memif_poll env is_rx c timeout tr = (err, c', tr')"
  shows "staged c tr err c' tr'"
proof -
  let ?p = "MemifPollEvent (mc_sockfd c) timeout"
  let ?t = "tr @ [(?p, env tr ?p)]"
  show ?thesis
  proof (cases "s_event (env tr ?p)")
    case (EvInterrupt q)
    with assms(4) have "rx_on_receive env c q ?t = (err, c', tr')"
      by (simp add: memif_poll_def ext_call_def)
    from rx_on_receive_staging [OF assms(1-3) this] show ?thesis by (auto simp: staged_def)
  qed (use assms(2-4) in \<open>auto simp: memif_poll_def ext_call_def on_connect_def on_disconnect_def
      staging_ok_def pending_def staged_def split: if_splits\<close>)
qed

lemma rx_wait_step:
  assumes "memif_poll env is_rx c timeout (tr @ [(ClockGettime, env tr ClockGettime)]) = (err, c1, tr1)"
    and "rx_wait_loop (Suc fuel) env timeout c tr = Some (e, c', tr')" and "mc_buf_num c = 0"
  obtains (ends) "e \<noteq> None" "c' = c1" "tr' = tr1 \<or> tr' = tr1 @ [(ClockGettime, env tr1 ClockGettime)]"
  | (again) t where "t = tr1 \<or> t = tr1 @ [(ClockGettime, env tr1 ClockGettime)]" "err = 0"
      "rx_wait_loop fuel env timeout c1 t = Some (e, c', tr')"
  using assms by (auto simp: ext_call_def Let_def split: if_splits)

lemma rx_wait_staging:
  assumes "rx_burst_contract env" and "staging_ok c"
    and "rx_wait_loop fuel env timeout c tr = Some (e, c', tr')"
  shows "\<exists>suf. tr' = tr @ suf \<and> (clean_bursts suf \<longrightarrow> staging_ok c' \<and> pending c' = pending c @ received suf) \<and>
    (e = None \<longrightarrow> clean_bursts suf \<and> mc_buf_num c' > 0)"
  using assms(2,3)
proof (induction fuel arbitrary: c tr)
  case 0
  then show ?case by (auto split: if_splits)
next
  case (Suc fuel)
  show ?case
  proof (cases "mc_buf_num c = 0")
    case False
    then show ?thesis using Suc.prems by (auto simp: word_gt_0)
  next
    case True
    let ?t = "tr @ [(ClockGettime, env tr ClockGettime)]"
    obtain err c1 tr1 where p: "memif_poll env is_rx c timeout ?t = (err, c1, tr1)"
      by (metis prod_cases3)
    obtain suf where s: "tr1 = ?t @ suf" "err = 0 \<Longrightarrow> clean_bursts suf"
      "clean_bursts suf \<Longrightarrow> staging_ok c1 \<and> pending c1 = pending c @ received suf"
      using rx_poll_staging [OF assms(1) Suc.prems(1) True p] by (auto simp: staged_def)
    from p Suc.prems(2) True show ?thesis
    proof (cases rule: rx_wait_step)
      case ends
      then show ?thesis using s(1,3) by fastforce
    next
      case (again t)
      then have c1: "staging_ok c1" "pending c1 = pending c @ received suf" "clean_bursts suf" using s by auto
      obtain suf2 where "tr' = t @ suf2" "clean_bursts suf2 \<longrightarrow> staging_ok c' \<and> pending c' = pending c1 @ received suf2"
        "e = None \<longrightarrow> clean_bursts suf2 \<and> mc_buf_num c' > 0"
        using Suc.IH [OF c1(1) again(3)] by blast
      then show ?thesis using again(1) s(1) c1 by fastforce
    qed
  qed
qed

lemma rx_take_staging:
  assumes "staging_ok c" and "mc_buf_num c > 0"
  shows "rx_take env c tr \<noteq> OutOfBounds"
    and "rx_take env c tr = Returns ((b, e), c', tr') \<Longrightarrow>
      \<exists>m mb. b = Some m \<and> pending c = mb # pending c' \<and> b_data m = mb_data mb \<and>
        b_len m = ucast (mb_len mb) \<and> staging_ok c' \<and>
        (\<exists>suf. tr' = tr @ suf \<and> received suf = [] \<and> clean_bursts suf)"
proof -
  let ?i = "nat (mc_working_idx c)" and ?n = "unat (mc_buf_num c)"
  have n: "?n > 0" using assms(2) by (simp add: word_less_nat_alt)
  have i: "0 \<le> mc_working_idx c" "?i < length (mc_working_bufs c)" "?i + ?n \<le> MEMIF_BUFFER_NUM"
    using assms(1) n by (auto simp: staging_ok_def)
  then show "rx_take env c tr \<noteq> OutOfBounds" by (auto simp: rx_take_def ext_call_def Let_def)
  have dec: "unat (mc_buf_num c - 1) = ?n - 1"
    using n by (metis One_nat_def Suc_leI unat_1 unat_sub word_le_nat_alt)
  have "take ?n (drop ?i (mc_working_bufs c)) =
      mc_working_bufs c ! ?i # take (?n - 1) (drop (Suc ?i) (mc_working_bufs c))"
    using n i(2) by (simp add: Cons_nth_drop_Suc [symmetric] take_Cons')
  moreover assume "rx_take env c tr = Returns ((b, e), c', tr')"
  ultimately show "\<exists>m mb. b = Some m \<and> pending c = mb # pending c' \<and> b_data m = mb_data mb \<and>
        b_len m = ucast (mb_len mb) \<and> staging_ok c' \<and>
        (\<exists>suf. tr' = tr @ suf \<and> received suf = [] \<and> clean_bursts suf)"
    using i n dec assms(1)
    by (auto simp: rx_take_def ext_call_def Let_def pending_def staging_ok_def nat_add_distrib
        split: if_splits)
qed

definition handed_out :: "mcm_buffer option \<Rightarrow> (nat \<times> u64) list" where
  "handed_out b = (case b of None \<Rightarrow> [] | Some m \<Rightarrow> [(b_data m, b_len m)])"

definition buf_view :: "memif_buffer \<Rightarrow> nat \<times> u64" where
  "buf_view mb = (mb_data mb, ucast (mb_len mb))"

lemma rx_dequeue_staging:
  assumes "rx_burst_contract env" and "staging_ok c"
  shows "rx_dequeue fuel env timeout c tr \<noteq> OutOfBounds"
    and "rx_dequeue fuel env timeout c tr = Returns ((b, e), c', tr') \<Longrightarrow>
      \<exists>suf. tr' = tr @ suf \<and> (b \<noteq> None \<longrightarrow> clean_bursts suf) \<and> (clean_bursts suf \<longrightarrow> staging_ok c' \<and>
        handed_out b @ map buf_view (pending c') = map buf_view (pending c @ received suf))"
proof -
  let ?Q = "\<lambda>b c' tr'. \<exists>suf. tr' = tr @ suf \<and> (b \<noteq> None \<longrightarrow> clean_bursts suf) \<and> (clean_bursts suf \<longrightarrow> staging_ok c' \<and>
        handed_out b @ map buf_view (pending c') = map buf_view (pending c @ received suf))"
  consider "rx_wait_loop fuel env timeout c tr = None"
    | w c1 tr1 where "rx_wait_loop fuel env timeout c tr = Some (Some w, c1, tr1)"
    | c1 tr1 where "rx_wait_loop fuel env timeout c tr = Some (None, c1, tr1)"
    by (metis option.exhaust prod_cases3)
  then have "rx_dequeue fuel env timeout c tr \<noteq> OutOfBounds \<and>
    (rx_dequeue fuel env timeout c tr = Returns ((b, e), c', tr') \<longrightarrow> ?Q b c' tr')"
  proof cases
    case 1
    then show ?thesis by (simp add: rx_dequeue_def)
  next
    case (2 w c1 tr1)
    with rx_wait_staging [OF assms 2] show ?thesis by (auto simp: rx_dequeue_def handed_out_def)
  next
    case (3 c1 tr1)
    then obtain suf where w: "tr1 = tr @ suf" "clean_bursts suf" "staging_ok c1" "pending c1 = pending c @ received suf"
      "mc_buf_num c1 > 0" using rx_wait_staging [OF assms 3] by blast
    note t = rx_take_staging [OF w(3,5), of env tr1]
    from 3 have r: "rx_dequeue fuel env timeout c tr = rx_take env c1 tr1" by (simp add: rx_dequeue_def)
    show ?thesis
    proof (intro conjI impI)
      assume "rx_dequeue fuel env timeout c tr = Returns ((b, e), c', tr')"
      with r have "rx_take env c1 tr1 = Returns ((b, e), c', tr')" by simp
      from t(2) [OF this] obtain m mb suf2 where b: "b = Some m" "pending c1 = mb # pending c'"
        "b_data m = mb_data mb" "b_len m = ucast (mb_len mb)" "staging_ok c'"
        "tr' = tr1 @ suf2" "received suf2 = []" "clean_bursts suf2" by blast
      have "handed_out b @ map buf_view (pending c') = map buf_view (pending c1)"
        by (simp add: b(1-4) handed_out_def buf_view_def)
      then show "?Q b c' tr'" using w b by (intro exI [of _ "suf @ suf2"]) simp
    qed (use r t in simp)
  qed
  then show "rx_dequeue fuel env timeout c tr \<noteq> OutOfBounds"
    and "rx_dequeue fuel env timeout c tr = Returns ((b, e), c', tr') \<Longrightarrow> ?Q b c' tr'"
    by blast+
qed

lemma memif_dequeue_rx:
  assumes "mc_is_connected c" and "c_type x = is_rx" and "c_priv x = PrivMemif c"
  shows "memif_dequeue_buffer fuel env (Some x) timeout tr =
      (case rx_dequeue fuel env timeout c tr of
         Returns (res, c, tr) \<Rightarrow> Returns (res, Some (x\<lparr>c_priv := PrivMemif c\<rparr>), tr)
       | OutOfFuel \<Rightarrow> OutOfFuel | Segfault \<Rightarrow> Segfault | OutOfBounds \<Rightarrow> OutOfBounds
       | ExitProcess \<Rightarrow> ExitProcess)"
  using assms by (simp add: memif_dequeue_buffer_def)

text \<open>
  C16. Receiving over shared memory is a queue, unless a receive burst fails after it has written
  buffers: a dequeue on a receiving connection never indexes past the staging array, and if no
  burst of the call failed with buffers, it keeps the invariant of the array, and the buffer it
  hands out followed by the buffers still staged are exactly the buffers staged before followed
  by those the call received; nothing is lost, duplicated or reordered, also when the call ends
  with an error or a timeout. A call that hands out a buffer had no such failure.
\<close>

theorem memif_rx_dequeue_fifo:
  assumes "rx_burst_contract env" and "staging_ok c" and "mc_is_connected c"
    and "c_type x = is_rx" and "c_priv x = PrivMemif c"
  shows "case memif_dequeue_buffer fuel env (Some x) timeout tr of
      Returns ((b, e), x', tr') \<Rightarrow> (\<exists>c' suf. x' = Some (x\<lparr>c_priv := PrivMemif c'\<rparr>) \<and> tr' = tr @ suf \<and>
        (b \<noteq> None \<longrightarrow> clean_bursts suf) \<and>
        (clean_bursts suf \<longrightarrow> staging_ok c' \<and>
          handed_out b @ map buf_view (pending c') = map buf_view (pending c @ received suf)))
    | OutOfBounds \<Rightarrow> False
    | _ \<Rightarrow> True"
proof -
  note d = memif_dequeue_rx [OF assms(3-5), of fuel env timeout tr]
  note r = rx_dequeue_staging [OF assms(1,2), of fuel timeout tr]
  show ?thesis
  proof (cases "rx_dequeue fuel env timeout c tr")
    case (Returns res)
    obtain b e c' tr' where res: "res = ((b, e), c', tr')" by (metis prod.collapse)
    from r(2) [OF Returns [unfolded res]] show ?thesis unfolding d Returns res by auto
  qed (use r(1) d in auto)
qed

definition sample_buf :: memif_buffer where
  "sample_buf = \<lparr>mb_desc_index = 0, mb_len = 1280, mb_data = 4096\<rparr>"

definition rx_ctx :: "memif_conn_context \<Rightarrow> mcm_conn_context" where
  "rx_ctx c = \<lparr>c_self = 8, c_type = is_rx, c_proxy_sockfd = 0, c_session_id = 0, c_proto = PROTO_MEMIF,
     c_priv = PrivMemif c, c_width = 640, c_height = 480, c_fps = 30,
     c_pix_fmt = PIX_FMT_YUV422PLANAR10LE, c_frame_size = 1280, c_has_buffer_ops = True\<rparr>"

definition linked_ctx :: memif_conn_context where
  "linked_ctx = (new_memif_ctx 7 6)\<lparr>mc_is_connected := True, mc_conn := 5\<rparr>"

text \<open>A peer whose first poll interrupts with one buffer.\<close>

definition one_buffer_env :: sdk_env where
  "one_buffer_env tr call = (case call of
      MemifPollEvent _ _ \<Rightarrow> sdk_res0\<lparr>s_event := EvInterrupt 0\<rparr>
    | MemifRxBurst _ _ n \<Rightarrow> (if n = 0 then sdk_res0 else sdk_res0\<lparr>s_bufs := [sample_buf], s_num := 1\<rparr>)
    | _ \<Rightarrow> sdk_res0\<lparr>s_out := 9\<rparr>)"

lemma one_buffer_env_contract: "rx_burst_contract one_buffer_env"
  by (auto simp: rx_burst_contract_def one_buffer_env_def sdk_res0_def burst_wrote_num_def memif_err_defs Let_def)

theorem memif_rx_dequeue_fifo_witness:
  "\<exists>e x' tr'. memif_dequeue_buffer (Suc 0) one_buffer_env (Some (rx_ctx linked_ctx)) (-1) [] =
     Returns ((Some \<lparr>b_self = 9, b_len = 1280, b_data = 4096\<rparr>, e), x', tr') \<and>
     (\<exists>c'. x' = Some ((rx_ctx linked_ctx)\<lparr>c_priv := PrivMemif c'\<rparr>) \<and> staging_ok c')"
proof -
  have l: "staging_ok linked_ctx" "mc_is_connected linked_ctx"
    by (simp_all add: staging_ok_def linked_ctx_def new_memif_ctx_def)
  have x: "c_type (rx_ctx linked_ctx) = is_rx" "c_priv (rx_ctx linked_ctx) = PrivMemif linked_ctx"
    by (simp_all add: rx_ctx_def)
  obtain e c' tr' where d: "memif_dequeue_buffer (Suc 0) one_buffer_env (Some (rx_ctx linked_ctx)) (-1) [] =
     Returns ((Some \<lparr>b_self = 9, b_len = 1280, b_data = 4096\<rparr>, e), c', tr')"
    by (simp add: memif_dequeue_buffer_def rx_ctx_def linked_ctx_def new_memif_ctx_def rx_dequeue_def
        memif_poll_def rx_on_receive_def burst_wrote_num_def one_buffer_env_def sdk_res0_def
        ext_call_def memif_err_defs MEMIF_BUFFER_NUM_def overwrite_prefix_def rx_take_def
        sample_buf_def)
  from memif_rx_dequeue_fifo [OF one_buffer_env_contract l x, where fuel = "Suc 0" and timeout = "-1" and tr = "[]"] d show ?thesis
    by fastforce
qed

section \<open>When more buffers are waiting than fit\<close>

text \<open>Dequeue after dequeue: what is handed out until there is none, or the array is left.\<close>

fun dequeue_all ::
  "nat \<Rightarrow> nat \<Rightarrow> sdk_env \<Rightarrow> mcm_conn_context \<Rightarrow> int \<Rightarrow> sdk_trace \<Rightarrow> (nat \<times> u64) list \<times> (mcm_conn_context \<times> sdk_trace) outcome" where
  "dequeue_all 0 fuel env x timeout tr = ([], Returns (x, tr))"
| "dequeue_all (Suc n) fuel env x timeout tr = (case memif_dequeue_buffer fuel env (Some x) timeout tr of
      Returns ((Some b, _), Some x, tr) \<Rightarrow>
        (let (bs, r) = dequeue_all n fuel env x timeout tr in ((b_data b, b_len b) # bs, r))
    | Returns ((None, _), Some x, tr) \<Rightarrow> ([], Returns (x, tr))
    | OutOfBounds \<Rightarrow> ([], OutOfBounds)
    | _ \<Rightarrow> ([], Segfault))"

lemma dequeue_staged:
  assumes "mc_buf_num c > 0" and "mc_is_connected c" and "c_type x = is_rx" and "c_priv x = PrivMemif c"
    and "\<And>tr. s_out (env tr (SCalloc ''mcm_buffer'')) \<noteq> 0" and "mc_working_idx c = int j"
  shows "j \<ge> length (mc_working_bufs c) \<Longrightarrow> memif_dequeue_buffer fuel env (Some x) timeout tr = OutOfBounds"
    and "j < length (mc_working_bufs c) \<Longrightarrow> \<exists>b e tr'. memif_dequeue_buffer fuel env (Some x) timeout tr =
      Returns ((Some b, e), Some (x\<lparr>c_priv := PrivMemif (c\<lparr>mc_working_idx := int (Suc j), mc_buf_num := mc_buf_num c - 1\<rparr>)\<rparr>), tr') \<and>
      (b_data b, b_len b) = buf_view (mc_working_bufs c ! j)"
proof -
  have d: "rx_dequeue fuel env timeout c tr = rx_take env c tr"
    using assms(1) by (cases fuel) (simp_all add: rx_dequeue_def)
  show "j \<ge> length (mc_working_bufs c) \<Longrightarrow> memif_dequeue_buffer fuel env (Some x) timeout tr = OutOfBounds"
    and "j < length (mc_working_bufs c) \<Longrightarrow> \<exists>b e tr'. memif_dequeue_buffer fuel env (Some x) timeout tr =
      Returns ((Some b, e), Some (x\<lparr>c_priv := PrivMemif (c\<lparr>mc_working_idx := int (Suc j), mc_buf_num := mc_buf_num c - 1\<rparr>)\<rparr>), tr') \<and>
      (b_data b, b_len b) = buf_view (mc_working_bufs c ! j)"
    using d assms(5,6) memif_dequeue_rx [OF assms(2-4), of fuel env timeout tr]
    by (simp_all add: rx_take_def ext_call_def buf_view_def Let_def add.commute)
qed

text \<open>A stale index runs out of the array while buffers are still counted.\<close>

lemma dequeue_stale:
  assumes "mc_is_connected c" and "c_type x = is_rx" and "c_priv x = PrivMemif c"
    and "\<And>tr. s_out (env tr (SCalloc ''mcm_buffer'')) \<noteq> 0" and "mc_working_idx c = int j"
    and "j + n = length (mc_working_bufs c)" and "n < unat (mc_buf_num c)"
  shows "dequeue_all (Suc n) fuel env x timeout tr = (map buf_view (drop j (mc_working_bufs c)), OutOfBounds)"
  using assms(1-3,5-7)
proof (induction n arbitrary: c x tr j)
  case 0
  then have "mc_buf_num c > 0" by (simp add: word_less_nat_alt)
  then show ?case using dequeue_staged(1) [of c x env j fuel timeout tr] 0 assms(4) by simp
next
  case (Suc n)
  have p: "mc_buf_num c > 0" using Suc.prems(6) by (simp add: word_less_nat_alt)
  have j: "j < length (mc_working_bufs c)" using Suc.prems(5) by simp
  let ?c = "c\<lparr>mc_working_idx := int (Suc j), mc_buf_num := mc_buf_num c - 1\<rparr>"
  let ?x = "x\<lparr>c_priv := PrivMemif ?c\<rparr>"
  from dequeue_staged(2) [of c x env j fuel timeout tr] p Suc.prems(1-4) assms(4) j obtain b e tr' where
    d: "memif_dequeue_buffer fuel env (Some x) timeout tr = Returns ((Some b, e), Some ?x, tr')"
      "(b_data b, b_len b) = buf_view (mc_working_bufs c ! j)" by metis
  have "unat (mc_buf_num c - 1) = unat (mc_buf_num c) - 1"
    using p by (metis One_nat_def Suc_leI unat_1 unat_gt_0 unat_sub word_gt_0 word_le_nat_alt)
  then have "dequeue_all (Suc n) fuel env ?x timeout tr' = (map buf_view (drop (Suc j) (mc_working_bufs c)), OutOfBounds)"
    using Suc.IH [of ?c ?x "Suc j" tr'] Suc.prems by simp
  then show ?case using d j by (subst dequeue_all.simps) (simp add: Cons_nth_drop_Suc [symmetric])
qed

text \<open>
  C6. If more than 64 buffers are waiting, the receiver reads past its staging array. Let a receiving
  connection have handed out \<open>k > 0\<close> buffers of an earlier burst and none be staged. When the next
  burst fills the array and reports that more are waiting (\<open>MEMIF_ERR_NOBUF\<close>), that dequeue fails, the
  index stays at \<open>k\<close>, and dequeueing on hands out only the buffers from the \<open>k\<close>-th on: the first \<open>k\<close>
  are never handed out, and the call after the last one indexes past the array.
\<close>

theorem memif_rx_full_burst_overruns:
  assumes "mc_is_connected c" and "c_type x = is_rx" and "c_priv x = PrivMemif c"
    and "\<And>tr. s_out (env tr (SCalloc ''mcm_buffer'')) \<noteq> 0"
    and "length (mc_working_bufs c) = MEMIF_BUFFER_NUM" and "mc_buf_num c = 0"
    and "mc_working_idx c = int k" and "0 < k" and "k \<le> MEMIF_BUFFER_NUM"
    and "\<And>tr h t. s_event (env tr (MemifPollEvent h t)) = EvInterrupt q"
    and "\<And>tr h. s_ret (env tr (MemifRxBurst h q MEMIF_BUFFER_NUM)) = MEMIF_ERR_NOBUF \<and>
      s_bufs (env tr (MemifRxBurst h q MEMIF_BUFFER_NUM)) = bs \<and> s_num (env tr (MemifRxBurst h q MEMIF_BUFFER_NUM)) = of_nat MEMIF_BUFFER_NUM"
    and "length bs = MEMIF_BUFFER_NUM"
  shows "\<exists>x' tr'. memif_dequeue_buffer (Suc fuel) env (Some x) timeout tr = Returns ((None, Some MEMIF_ERR_NOBUF), Some x', tr') \<and>
    dequeue_all (Suc (MEMIF_BUFFER_NUM - k)) (Suc fuel) env x' timeout tr' = (map buf_view (drop k bs), OutOfBounds)"
proof -
  let ?c = "c\<lparr>mc_buf_num := of_nat MEMIF_BUFFER_NUM, mc_working_bufs := bs\<rparr>"
  let ?x = "x\<lparr>c_priv := PrivMemif ?c\<rparr>"
  have "overwrite_prefix bs (mc_working_bufs c) = bs" using assms(5,12) by (simp add: overwrite_prefix_def)
  then obtain tr' where "memif_dequeue_buffer (Suc fuel) env (Some x) timeout tr = Returns ((None, Some MEMIF_ERR_NOBUF), Some ?x, tr')"
    using assms(1-3,6,10,11) by (simp add: memif_dequeue_buffer_def rx_dequeue_def ext_call_def Let_def memif_poll_def rx_on_receive_def
        burst_wrote_num_def memif_err_defs)
  moreover have "unat (of_nat MEMIF_BUFFER_NUM :: u16) = MEMIF_BUFFER_NUM" by (simp add: MEMIF_BUFFER_NUM_def)
  then have "dequeue_all (Suc (MEMIF_BUFFER_NUM - k)) (Suc fuel) env ?x timeout tr' = (map buf_view (drop k bs), OutOfBounds)"
    using dequeue_stale [of ?c ?x env k "MEMIF_BUFFER_NUM - k"] assms by simp
  ultimately show ?thesis by blast
qed

text \<open>A peer with more buffers than the array holds, and a receiver that has handed out one.\<close>

definition flooding_env :: sdk_env where
  "flooding_env tr call = (case call of
      MemifPollEvent _ _ \<Rightarrow> sdk_res0\<lparr>s_event := EvInterrupt 0\<rparr>
    | MemifRxBurst _ _ n \<Rightarrow> sdk_res0\<lparr>s_ret := MEMIF_ERR_NOBUF, s_bufs := replicate n sample_buf, s_num := of_nat n\<rparr>
    | _ \<Rightarrow> sdk_res0\<lparr>s_out := 9\<rparr>)"

theorem memif_rx_full_burst_overruns_witness:
  "\<exists>x' tr'. memif_dequeue_buffer 1 flooding_env (Some (rx_ctx (linked_ctx\<lparr>mc_working_idx := 1\<rparr>))) 5 [] =
      Returns ((None, Some MEMIF_ERR_NOBUF), Some x', tr') \<and>
    dequeue_all 64 1 flooding_env x' 5 tr' = (replicate 63 (buf_view sample_buf), OutOfBounds)"
  using memif_rx_full_burst_overruns [of "linked_ctx\<lparr>mc_working_idx := 1\<rparr>" "rx_ctx (linked_ctx\<lparr>mc_working_idx := 1\<rparr>)" flooding_env 1 0
      "replicate 64 sample_buf" 0 5 "[]"]
  by (simp add: linked_ctx_def new_memif_ctx_def rx_ctx_def flooding_env_def MEMIF_BUFFER_NUM_def sdk_res0_def)

section \<open>How long a dequeue waits\<close>

fun is_alloc :: "sdk_call \<Rightarrow> bool" where
  "is_alloc (MemifBufferAlloc _ _ _ _) = True"
| "is_alloc _ = False"

definition alloc_calls :: "sdk_trace \<Rightarrow> nat" where
  "alloc_calls tr = length (filter (\<lambda>e. is_alloc (fst e)) tr)"

lemma alloc_calls_simps [simp]:
  "alloc_calls [] = 0" "alloc_calls (tr @ tr') = alloc_calls tr + alloc_calls tr'"
  "alloc_calls ((c, r) # tr) = (if is_alloc c then 1 else 0) + alloc_calls tr"
  by (simp_all add: alloc_calls_def)

lemma poll_alloc_calls:
  assumes "memif_poll env ty c timeout tr = (err, c', tr')"
  shows "alloc_calls tr' = alloc_calls tr"
  using assms
  by (auto simp: memif_poll_def ext_call_def tx_on_receive_def rx_on_receive_def on_connect_def
      on_disconnect_def Let_def split: poll_event.splits if_splits)

lemma tx_alloc_loop_bounded:
  assumes "0 \<le> timeout" and "timeout \<le> 10 * int n"
  shows "\<exists>r c' tr'. tx_alloc_loop (Suc n) env sz timeout c tr = Some (r, c', tr') \<and>
    alloc_calls tr' \<le> alloc_calls tr + Suc n"
  using assms
proof (induction n arbitrary: timeout c tr)
  case 0
  then show ?case by (auto simp: ext_call_def Let_def)
next
  case (Suc n)
  let ?a = "MemifBufferAlloc (mc_conn c) (mc_qid c) 1 sz"
  let ?t = "tr @ [(?a, env tr ?a)]"
  obtain err c1 tr1 where p: "memif_poll env is_tx c sleep_interval ?t = (err, c1, tr1)"
    by (metis prod_cases3)
  note q = poll_alloc_calls [OF p]
  have "\<exists>r c' tr'. tx_alloc_loop (Suc n) env sz (max 0 (timeout - sleep_interval)) c1 tr1 =
      Some (r, c', tr') \<and> alloc_calls tr' \<le> alloc_calls tr1 + Suc n"
    using Suc.prems by (intro Suc.IH) (auto simp: sleep_interval_def)
  then obtain r c' tr' where
    "tx_alloc_loop (Suc n) env sz (max 0 (timeout - sleep_interval)) c1 tr1 = Some (r, c', tr')"
    "alloc_calls tr' \<le> alloc_calls tr1 + Suc n" by blast
  with p q Suc.prems show ?case
    by (cases r, subst tx_alloc_loop.simps) (auto simp: ext_call_def simp del: tx_alloc_loop.simps)
qed

lemma tx_dequeue_bounded:
  assumes "0 \<le> timeout" and "timeout \<le> 10 * int n"
  shows "tx_dequeue (Suc n) env fs timeout c tr \<noteq> OutOfFuel"
    and "tx_dequeue (Suc n) env fs timeout c tr = Returns (res, c', tr') \<Longrightarrow>
      alloc_calls tr' \<le> alloc_calls tr + Suc n"
proof -
  obtain err c1 tr1 where p: "memif_poll env is_tx c 0 tr = (err, c1, tr1)" by (metis prod_cases3)
  note q = poll_alloc_calls [OF p]
  obtain er bufs m c2 tr2 where
    l: "tx_alloc_loop (Suc n) env (ucast fs) timeout c1 tr1 = Some ((er, bufs, m), c2, tr2)" and
    b: "alloc_calls tr2 \<le> alloc_calls tr1 + Suc n"
    using tx_alloc_loop_bounded [OF assms, of env "ucast fs" c1 tr1] by (metis prod_cases3)
  show "tx_dequeue (Suc n) env fs timeout c tr \<noteq> OutOfFuel"
    using p l by (auto simp: tx_dequeue_def ext_call_def simp del: tx_alloc_loop.simps split: list.splits)
  show "tx_dequeue (Suc n) env fs timeout c tr = Returns (res, c', tr') \<Longrightarrow>
      alloc_calls tr' \<le> alloc_calls tr + Suc n"
    using p q l b
    by (auto simp: tx_dequeue_def ext_call_def simp del: tx_alloc_loop.simps
        split: list.splits if_splits)
qed

text \<open>
  C17. A dequeue on a sending connection with a timeout of zero or more always comes to an end,
  after at most one attempt to allocate per started interval of 10 ms, plus one, whatever the
  peer does.
\<close>

theorem memif_tx_dequeue_returns:
  assumes "0 \<le> timeout" and "timeout \<le> 10 * int n"
    and "c_type x = is_tx" and "c_priv x = PrivMemif c"
  shows "case memif_dequeue_buffer (Suc n) env (Some x) timeout tr of
      OutOfFuel \<Rightarrow> False
    | Returns (res, x', tr') \<Rightarrow> alloc_calls tr' \<le> alloc_calls tr + Suc n
    | _ \<Rightarrow> True"
proof (cases "mc_is_connected c")
  case True
  then have d: "memif_dequeue_buffer (Suc n) env (Some x) timeout tr =
      (case tx_dequeue (Suc n) env (c_frame_size x) timeout c tr of
         Returns (res, c, tr) \<Rightarrow> Returns (res, Some (x\<lparr>c_priv := PrivMemif c\<rparr>), tr)
       | OutOfFuel \<Rightarrow> OutOfFuel | Segfault \<Rightarrow> Segfault | OutOfBounds \<Rightarrow> OutOfBounds
       | ExitProcess \<Rightarrow> ExitProcess)"
    using assms(3,4) by (simp add: memif_dequeue_buffer_def)
  note b = tx_dequeue_bounded [OF assms(1,2), of env "c_frame_size x" c tr]
  show ?thesis
  proof (cases "tx_dequeue (Suc n) env (c_frame_size x) timeout c tr")
    case (Returns res)
    obtain r c' tr' where res: "res = (r, c', tr')" by (metis prod_cases3)
    from b(2) [OF Returns [unfolded res]] show ?thesis unfolding d Returns res by simp
  qed (use b(1) d in auto)
qed (use assms(4) in \<open>simp add: memif_dequeue_buffer_def\<close>)

text \<open>A peer that never frees a slot of the ring.\<close>

definition full_ring_env :: sdk_env where
  "full_ring_env tr call = (case call of
      MemifBufferAlloc _ _ _ _ \<Rightarrow> sdk_res0\<lparr>s_ret := MEMIF_ERR_NOBUF_RING\<rparr>
    | _ \<Rightarrow> sdk_res0\<lparr>s_out := 9\<rparr>)"

theorem memif_tx_dequeue_returns_witness:
  "case memif_dequeue_buffer (Suc 3) full_ring_env
       (Some ((rx_ctx linked_ctx)\<lparr>c_type := is_tx\<rparr>)) 25 [] of
      OutOfFuel \<Rightarrow> False | Returns (res, x', tr') \<Rightarrow> alloc_calls tr' \<le> 4 | _ \<Rightarrow> True"
  using memif_tx_dequeue_returns [of 25 3 "(rx_ctx linked_ctx)\<lparr>c_type := is_tx\<rparr>" linked_ctx "[]"
      full_ring_env]
  by (auto simp: rx_ctx_def split: outcome.splits)

text \<open>A connection on which nothing arrives; the clock may do what it likes.\<close>

definition no_events :: "sdk_env \<Rightarrow> bool" where
  "no_events env \<longleftrightarrow> (\<forall>tr h t. s_event (env tr (MemifPollEvent h t)) = EvNone \<and> s_ret (env tr (MemifPollEvent h t)) = 0)"

lemma rx_wait_silent:
  assumes "no_events env" and "mc_buf_num c = 0" and "timeout \<le> 0"
  shows "rx_wait_loop fuel env timeout c tr = None"
  using assms(2)
proof (induction fuel arbitrary: tr)
  case (Suc fuel)
  then show ?case using assms(1,3) by (simp add: ext_call_def Let_def memif_poll_def no_events_def)
qed simp

text \<open>
  A dequeue on a receiving connection with timeout 0 does not return until an event arrives: if
  nothing is staged and every poll comes back empty, no amount of fuel is enough, however far the
  clock moves, although timeout 0 is documented as "don't wait for event".
\<close>

theorem memif_rx_dequeue_zero_timeout_blocks:
  assumes "no_events env" and "mc_buf_num c = 0" and "mc_is_connected c" and "c_type x = is_rx" and "c_priv x = PrivMemif c"
  shows "memif_dequeue_buffer fuel env (Some x) 0 tr = OutOfFuel"
  using rx_wait_silent [OF assms(1,2), of 0] memif_dequeue_rx [OF assms(3-5)] by (simp add: rx_dequeue_def)

text \<open>A clock that gains a second with every call.\<close>

definition ticking_env :: sdk_env where
  "ticking_env tr call = sdk_res0\<lparr>s_sec := int (length tr)\<rparr>"

theorem memif_rx_dequeue_zero_timeout_blocks_witness:
  "memif_dequeue_buffer 1000 ticking_env (Some (rx_ctx linked_ctx)) 0 [] = OutOfFuel"
  by (rule memif_rx_dequeue_zero_timeout_blocks [of _ linked_ctx])
    (simp_all add: no_events_def ticking_env_def sdk_res0_def linked_ctx_def new_memif_ctx_def rx_ctx_def)

text \<open>With a positive timeout, one poll that comes back empty after the time has passed is enough.\<close>

lemma rx_dequeue_timeout:
  assumes "mc_buf_num c = 0" and "0 < timeout"
    and "s_event (env (tr @ [(ClockGettime, t0)]) (MemifPollEvent (mc_sockfd c) timeout)) = EvNone"
    and "s_ret (env (tr @ [(ClockGettime, t0)]) (MemifPollEvent (mc_sockfd c) timeout)) = 0"
    and "env tr ClockGettime = t0"
    and "\<And>tr'. tr' \<noteq> tr \<Longrightarrow> (s_sec (env tr' ClockGettime) - s_sec t0) * 1000 +
      cdiv (s_nsec (env tr' ClockGettime) - s_nsec t0) 1000000 \<ge> timeout"
  shows "\<exists>tr'. rx_dequeue (Suc fuel) env timeout c tr = Returns ((None, Some 0), c, tr')"
  using assms by (simp add: rx_dequeue_def ext_call_def Let_def memif_poll_def)

section \<open>Timed allocation\<close>

lemma alloc_timeout_loop_bounded:
  assumes "alloc_timeout_loop env conn qid cnt sz limit waited tr = (r, tr')"
  shows "alloc_calls tr' \<le> alloc_calls tr + (unat limit - unat waited) \<and>
    (fst r \<noteq> MEMIF_ERR_NOBUF_RING \<longrightarrow> alloc_calls tr' > alloc_calls tr)"
  using assms
proof (induction "unat limit - unat waited" arbitrary: waited tr)
  case 0
  then have "\<not> waited < limit" by (simp add: word_less_nat_alt)
  with 0(2) show ?case by (subst (asm) alloc_timeout_loop.simps) auto
next
  case (Suc n)
  then have w: "waited < limit" by (simp add: word_less_nat_alt)
  have "unat limit < 2 ^ 32" using unsigned_less [of limit] by simp
  with w have u: "unat (waited + 1) = unat waited + 1"
    by (simp add: unat_word_ariths(1) word_less_nat_alt)
  let ?a = "MemifBufferAlloc conn qid cnt sz"
  let ?t = "tr @ [(?a, env tr ?a)]"
  let ?t2 = "?t @ [(SUsleep 500, env ?t (SUsleep 500))]"
  have n: "n = unat limit - unat (waited + 1)" using Suc.hyps(2) u by simp
  have "alloc_timeout_loop env conn qid cnt sz limit waited tr =
      (if s_ret (env tr ?a) = MEMIF_ERR_NOBUF_RING
       then alloc_timeout_loop env conn qid cnt sz limit (waited + 1) ?t2
       else ((s_ret (env tr ?a), s_bufs (env tr ?a), s_num (env tr ?a)), ?t))"
    using w by (subst alloc_timeout_loop.simps) (simp add: ext_call_def)
  with Suc.prems have "(s_ret (env tr ?a) \<noteq> MEMIF_ERR_NOBUF_RING \<and> tr' = ?t) \<or>
      alloc_timeout_loop env conn qid cnt sz limit (waited + 1) ?t2 = (r, tr')"
    by (auto split: if_splits)
  then show ?case using Suc.hyps(1) [OF n, of ?t2] Suc.hyps(2) u by fastforce
qed

text \<open>
  \<open>memif_buffer_alloc_timeout\<close> tries at most twice per millisecond of its timeout (computed
  in 32 bits) and reports anything but a full ring only after an attempt.
\<close>

theorem memif_buffer_alloc_timeout_bounded:
  assumes "memif_buffer_alloc_timeout env conn qid cnt sz timeout_ms tr = (r, tr')"
  shows "alloc_calls tr' \<le> alloc_calls tr + unat (timeout_ms * 2) \<and>
    (fst r \<noteq> MEMIF_ERR_NOBUF_RING \<longrightarrow> alloc_calls tr' > alloc_calls tr)"
  using alloc_timeout_loop_bounded [OF assms [unfolded memif_buffer_alloc_timeout_def]] by simp

theorem memif_buffer_alloc_timeout_bounded_witness:
  "\<exists>r tr'. memif_buffer_alloc_timeout full_ring_env 5 0 1 1280 1 [] = (r, tr') \<and> alloc_calls tr' \<le> 2"
proof -
  obtain r tr' where a: "memif_buffer_alloc_timeout full_ring_env 5 0 1 1280 1 [] = (r, tr')"
    by (metis prod.collapse)
  from memif_buffer_alloc_timeout_bounded [OF a] a show ?thesis by (cases r) simp
qed

end
