(* ===== verification/Mcm_Dp.thy ===== *)
theory Mcm_Dp
  imports Memif_Impl
begin

text \<open>
  The SDK's connection layer, sdk/src/mcm_dp.c, and its control channel to the media proxy,
  sdk/src/media_proxy_ctrl.c: where the proxy is found, the request/response sessions on the
  control socket, the sizes of the shared-memory buffers, and \<open>mcm_create_connection\<close> /
  \<open>mcm_destroy_connection\<close> over the three transports with every error path. The theorems cover
  the buffer-size table, the sockets that a failed or a successful connection leaves open, and
  what the proxy's port becomes.
\<close>

section \<open>Control channel\<close>

definition get_media_proxy_addr ::
  "sdk_env \<Rightarrow> mcm_dp_addr option \<Rightarrow> sdk_trace \<Rightarrow> (int \<times> mcm_dp_addr option) \<times> sdk_trace" where
  "get_media_proxy_addr env pa tr = (case pa of
      None \<Rightarrow> ((-1, None), tr)
    | Some a \<Rightarrow>
       (let (i, tr) = ext_call env (Getenv ''MCM_MEDIA_PROXY_IP'') tr;
            a = a\<lparr>a_ip := (case s_str i of Some v \<Rightarrow> strlcpy v (46 - 1) | None \<Rightarrow> strlcpy ''127.0.0.1'' 46)\<rparr>;
            (p, tr) = ext_call env (Getenv ''MCM_MEDIA_PROXY_PORT'') tr;
            a = a\<lparr>a_port := (case s_str p of Some v \<Rightarrow> strlcpy v (6 - 1) | None \<Rightarrow> strlcpy ''8002'' 6)\<rparr>
        in ((0, Some a), tr)))"

definition open_socket :: "sdk_env \<Rightarrow> mcm_dp_addr \<Rightarrow> sdk_trace \<Rightarrow> int \<times> sdk_trace" where
  "open_socket env a tr =
     (let (s, tr) = ext_call env (Socket True) tr in
      if s_ret s = -1 then (-1, tr) else
      let (c, tr) = ext_call env (Connect (s_ret s) (sockaddr_of a)) tr in
      if s_ret c \<noteq> 0 then (-1, snd (ext_call env (SClose (s_ret s)) tr)) else (s_ret s, tr))"

definition close_socket :: "sdk_env \<Rightarrow> int \<Rightarrow> sdk_trace \<Rightarrow> sdk_trace" where
  "close_socket env fd tr = snd (ext_call env (SClose fd) tr)"

text \<open>A control message is written in three parts; a part that is not written ends the request.\<close>

definition HEADER_MAGIC_WORD :: string where "HEADER_MAGIC_WORD = ''mcm''"
definition HEADER_VERSION :: u8 where "HEADER_VERSION = 0x10"

definition write_msg ::
  "sdk_env \<Rightarrow> int \<Rightarrow> ctl_inst \<Rightarrow> wire_part \<Rightarrow> sdk_trace \<Rightarrow> bool \<times> sdk_trace" where
  "write_msg env fd inst data tr =
     (let (h, tr) = ext_call env (WriteFd fd (Header HEADER_MAGIC_WORD HEADER_VERSION)) tr in
      if s_ret h \<le> 0 then (False, tr) else
      let (c, tr) = ext_call env (WriteFd fd (Command inst)) tr in
      if s_ret c \<le> 0 then (False, tr) else
      let (d, tr) = ext_call env (WriteFd fd data) tr in
      if s_ret d \<le> 0 then (False, tr) else (True, tr))"

definition media_proxy_create_session ::
  "sdk_env \<Rightarrow> int \<Rightarrow> mcm_conn_param option \<Rightarrow> sdk_trace \<Rightarrow> (int \<times> u32) \<times> sdk_trace" where
  "media_proxy_create_session env fd param tr = (case param of
      None \<Rightarrow> ((-1, 0), tr)
    | Some p \<Rightarrow>
        if fd \<le> 0 then ((-1, 0), tr) else
        let (ok, tr) = write_msg env fd MCM_CREATE_SESSION (DataParam p) tr in
        if \<not> ok then ((-1, 0), tr) else
        let (r, tr) = ext_call env (ReadSessionId fd) tr in
        if s_ret r \<le> 0 then ((-1, 0), tr) else ((0, s_sid r), tr))"

definition media_proxy_query_interface ::
  "sdk_env \<Rightarrow> int \<Rightarrow> u32 \<Rightarrow> sdk_trace \<Rightarrow> (int \<times> memif_conn_param option) \<times> sdk_trace" where
  "media_proxy_query_interface env fd sid tr =
     (if fd < 0 then ((-1, None), tr) else
      let (ok, tr) = write_msg env fd MCM_QUERY_MEMIF_PARAM (DataSession sid) tr in
      if \<not> ok then ((-1, None), tr) else
      let (r, tr) = ext_call env (ReadMemifParam fd) tr in
      if s_ret r \<le> 0 then ((-1, None), tr) else ((0, Some (s_param r)), tr))"

definition media_proxy_destroy_session ::
  "sdk_env \<Rightarrow> mcm_conn_context option \<Rightarrow> sdk_trace \<Rightarrow> sdk_trace" where
  "media_proxy_destroy_session env pctx tr = (case pctx of
      None \<Rightarrow> tr
    | Some x \<Rightarrow> snd (write_msg env (c_proxy_sockfd x) MCM_DESTROY_SESSION (DataSession (c_session_id x)) tr))"

section \<open>Buffer sizes\<close>

text \<open>The enumerations \<open>mcm_audio_format\<close>, \<open>mcm_audio_sampling\<close> and \<open>mcm_audio_ptime\<close> as the values
  stored in the union. \<open>mcm_calc_audio_buffer_size\<close> returns its code and the value it writes to
  \<open>*size\<close>.\<close>

definition audio_sample_size :: "u32 \<Rightarrow> u32 option" where
  "audio_sample_size fmt =
     (if fmt = 0 then Some 1 else if fmt = 1 then Some 2 else if fmt = 2 then Some 3
      else if fmt = 3 then Some 4 else None)"

definition audio_sample_num :: "u32 \<Rightarrow> u32 \<Rightarrow> u32 option" where
  "audio_sample_num sampling ptime =
     (if sampling = 0 then
        (if ptime = 0 then Some 48 else if ptime = 1 then Some 6 else if ptime = 2 then Some 12
         else if ptime = 3 then Some 16 else if ptime = 4 then Some 192
         else if ptime = 5 then Some 4 else None)
      else if sampling = 1 then
        (if ptime = 0 then Some 96 else if ptime = 1 then Some 12 else if ptime = 2 then Some 24
         else if ptime = 3 then Some 32 else if ptime = 4 then Some 384
         else if ptime = 5 then Some 8 else None)
      else if sampling = 2 then
        (if ptime = 6 then Some 48 else if ptime = 7 then Some 6 else if ptime = 8 then Some 4
         else None)
      else None)"

definition mcm_calc_audio_buffer_size :: "payload_args \<Rightarrow> int \<times> u32" where
  "mcm_calc_audio_buffer_size a =
     (case audio_sample_size (audio_format a) of
        None \<Rightarrow> (- EINVAL, 0)
      | Some sample_size \<Rightarrow>
          (case audio_sample_num (audio_sampling a) (audio_ptime a) of
             None \<Rightarrow> (- EINVAL, 0)
           | Some sample_num \<Rightarrow> (0, sample_size * sample_num * ucast (audio_channel a))))"

definition parse_memif_param :: "mcm_conn_param \<Rightarrow> memif_conn_param" where
  "parse_memif_param p =
     (let type_str = (if p_type p = is_tx then ''tx'' else ''rx'');
          name = take 31 (''memif_'' @ type_str @ ''_'' @ sdec (atoi (a_port (p_local_addr p))));
          path = mi_socket_path (p_memif_interface p)
      in \<lparr>socket_args = \<lparr>sa_path = strlcpy (if path = [] then ''/run/mcm/mcm_rx_memif.sock'' else path) 108,
            sa_app_name = name\<rparr>,
          conn_args = \<lparr>ca_socket = 0,
            ca_buffer_size = (case p_payload_type p of
                PAYLOAD_TYPE_ST30_AUDIO \<Rightarrow> snd (mcm_calc_audio_buffer_size (p_payload_args p))
              | _ \<Rightarrow> video_width (p_payload_args p) * video_height (p_payload_args p) * 4),
            ca_log2_ring_size = 4, ca_is_master = mi_is_master (p_memif_interface p),
            ca_interface_id = mi_interface_id (p_memif_interface p),
            ca_interface_name = strlcpy name 32\<rparr>\<rparr>)"

section \<open>Connections\<close>

definition debug_port :: "mcm_dp_addr \<Rightarrow> mcm_dp_addr" where
  "debug_port a = a\<lparr>a_port := take 5 (dec (unat (word_of_int (atoi (a_port a) + 10000) :: u32)))\<rparr>"

definition mcm_create_connection_proxy ::
  "nat \<Rightarrow> sdk_env \<Rightarrow> mcm_conn_param \<Rightarrow> sdk_trace \<Rightarrow> (mcm_conn_context option \<times> sdk_trace) outcome" where
  "mcm_create_connection_proxy fuel env param tr =
     (let ((r, ap), tr) = get_media_proxy_addr env (Some \<lparr>a_ip = [], a_port = []\<rparr>) tr in
      if r \<noteq> 0 then Returns (None, tr) else
      let a = debug_port (the ap);
          (fd, tr) = open_socket env a tr
      in if fd < 0 then Returns (None, tr) else
      let ((r, sid), tr) = media_proxy_create_session env fd (Some param) tr in
      if r < 0 then Returns (None, close_socket env fd tr) else
      let ((r, mp), tr) = media_proxy_query_interface env fd sid tr in
      if r < 0 then Returns (None, close_socket env fd tr) else
      (case mcm_create_connection_memif fuel env (Some param) mp tr of
         Returns (None, tr) \<Rightarrow> Returns (None, close_socket env fd tr)
       | Returns (Some x, tr) \<Rightarrow> Returns (Some (x\<lparr>c_proxy_sockfd := fd, c_session_id := sid\<rparr>), tr)
       | other \<Rightarrow> other))"

definition rdma_video_args :: "payload_args \<Rightarrow> payload_args" where
  "rdma_video_args p =
     set_transfer_size ((ucast (video_width p) :: u64) * ucast (video_height p) * 4) p"

definition with_type :: "transfer_type \<Rightarrow> mcm_conn_context option \<Rightarrow> mcm_conn_context option" where
  "with_type ty = map_option (\<lambda>x. x\<lparr>c_type := ty\<rparr>)"

definition mcm_create_connection ::
  "nat \<Rightarrow> sdk_env \<Rightarrow> mcm_conn_param option \<Rightarrow> sdk_trace \<Rightarrow> (mcm_conn_context option \<times> sdk_trace) outcome" where
  "mcm_create_connection fuel env pp tr = (case pp of
      None \<Rightarrow> Returns (None, tr)
    | Some p \<Rightarrow>
       (case p_protocol p of
          PROTO_AUTO \<Rightarrow>
            (let p = (if p_payload_type p = PAYLOAD_TYPE_RDMA_VIDEO
                      then p\<lparr>p_payload_args := rdma_video_args (p_payload_args p)\<rparr> else p)
             in case mcm_create_connection_proxy fuel env p tr of
                  Returns (xo, tr) \<Rightarrow> Returns (with_type (p_type p) xo, tr)
                | other \<Rightarrow> other)
        | PROTO_UDP \<Rightarrow>
            (let (u, tr) = mcm_create_connection_udp env p tr in
             case u of None \<Rightarrow> Returns (None, tr)
             | Some uc \<Rightarrow>
                 let (m, tr) = ext_call env (SCalloc ''mcm_conn_context'') tr in
                 if s_out m = 0 then Returns (None, snd (ext_call env (SFree (u_self uc)) tr))
                 else Returns (with_type (p_type p) (Some \<lparr>c_self = s_out m, c_type = is_tx,
                   c_proxy_sockfd = 0, c_session_id = 0, c_proto = PROTO_UDP, c_priv = PrivUdp uc,
                   c_width = 0, c_height = 0, c_fps = 0, c_pix_fmt = PIX_FMT_YUV422PLANAR10LE,
                   c_frame_size = 0, c_has_buffer_ops = False\<rparr>), tr))
        | PROTO_MEMIF \<Rightarrow>
            (case mcm_create_connection_memif fuel env (Some p) (Some (parse_memif_param p)) tr of
               Returns (xo, tr) \<Rightarrow>
                 Returns (with_type (p_type p) (map_option (\<lambda>x. x\<lparr>c_session_id := 0\<rparr>) xo), tr)
             | other \<Rightarrow> other)
        | _ \<Rightarrow> Returns (None, tr)))"

text \<open>The wait before a sender is destroyed: the quotient is converted to 32 bits and multiplied
  there.\<close>

definition destroy_wait_us :: "mcm_conn_context \<Rightarrow> u32" where
  "destroy_wait_us x = (if c_fps x > 0 then word_of_int \<lfloor>1000000 / c_fps x\<rfloor> * 20 else 1000000)"

definition mcm_destroy_connection :: "sdk_env \<Rightarrow> mcm_conn_context option \<Rightarrow> sdk_trace \<Rightarrow> sdk_trace" where
  "mcm_destroy_connection env pctx tr = (case pctx of
      None \<Rightarrow> tr
    | Some x \<Rightarrow>
       (let tr = (if c_type x = is_tx
                  then snd (ext_call env (SUsleep (unat (destroy_wait_us x))) tr) else tr);
            tr = (if c_proxy_sockfd x > 0 then media_proxy_destroy_session env (Some x) tr else tr);
            tr = (case c_proto x of
                    PROTO_MEMIF \<Rightarrow> mcm_destroy_connection_memif env
                      (case c_priv x of PrivMemif c \<Rightarrow> Some c | _ \<Rightarrow> None) tr
                  | PROTO_UDP \<Rightarrow> mcm_destroy_connection_udp env
                      (case c_priv x of PrivUdp u \<Rightarrow> Some u | _ \<Rightarrow> None) tr
                  | _ \<Rightarrow> tr)
        in snd (ext_call env (SFree (c_self x)) tr)))"

text \<open>Both buffer functions call through the context's function pointers.\<close>

definition mcm_dequeue_buffer ::
  "nat \<Rightarrow> sdk_env \<Rightarrow> mcm_conn_context option \<Rightarrow> int \<Rightarrow> sdk_trace
     \<Rightarrow> ((mcm_buffer option \<times> int option) \<times> mcm_conn_context option \<times> sdk_trace) outcome" where
  "mcm_dequeue_buffer fuel env pctx timeout tr = (case pctx of
      None \<Rightarrow> Segfault
    | Some x \<Rightarrow> if c_has_buffer_ops x then memif_dequeue_buffer fuel env pctx timeout tr else Segfault)"

definition mcm_enqueue_buffer ::
  "sdk_env \<Rightarrow> mcm_conn_context option \<Rightarrow> mcm_buffer option \<Rightarrow> sdk_trace
     \<Rightarrow> (int \<times> mcm_conn_context option \<times> sdk_trace) outcome" where
  "mcm_enqueue_buffer env pctx buf tr = (case pctx of
      None \<Rightarrow> Segfault
    | Some x \<Rightarrow> if c_has_buffer_ops x then Returns (memif_enqueue_buffer env pctx buf tr) else Segfault)"

section \<open>The buffer-size table\<close>

text \<open>What the table should say: bytes per sample, times the number of samples nearest to sampling
  rate times packet time, times channels; the packet times of the 44.1 kHz family go with that
  rate only.\<close>

definition bytes_per_sample :: "nat list" where "bytes_per_sample = [1, 2, 3, 4]"
definition sampling_hz :: "nat list" where "sampling_hz = [48000, 96000, 44100]"
definition ptime_us :: "nat list" where "ptime_us = [1000, 125, 250, 333, 4000, 80, 1090, 140, 90]"

definition nearest_samples :: "nat \<Rightarrow> nat \<Rightarrow> nat" where
  "nearest_samples hz us = (2 * hz * us + 1000000) div 2000000"

definition audio_size_spec :: "nat \<Rightarrow> nat \<Rightarrow> nat \<Rightarrow> nat \<Rightarrow> nat option" where
  "audio_size_spec fmt ch smp pt =
     (if fmt < 4 \<and> smp < 3 \<and> pt < 9 \<and> (smp = 2 \<longleftrightarrow> 6 \<le> pt)
      then Some (bytes_per_sample ! fmt * nearest_samples (sampling_hz ! smp) (ptime_us ! pt) * ch)
      else None)"

lemma u32_eq_unat:
  "(w :: u32) = 0 \<longleftrightarrow> unat w = 0" "w = 1 \<longleftrightarrow> unat w = 1" "w = 2 \<longleftrightarrow> unat w = 2" "w = 3 \<longleftrightarrow> unat w = 3"
  "w = 4 \<longleftrightarrow> unat w = 4" "w = 5 \<longleftrightarrow> unat w = 5" "w = 6 \<longleftrightarrow> unat w = 6" "w = 7 \<longleftrightarrow> unat w = 7"
  "w = 8 \<longleftrightarrow> unat w = 8"
  by (auto simp: word_unat_eq_iff)

lemma audio_sample_size_eq:
  "audio_sample_size f = (if unat f < 4 then Some (of_nat (bytes_per_sample ! unat f)) else None)"
proof -
  consider "unat f = 0" | "unat f = 1" | "unat f = 2" | "unat f = 3" | "4 \<le> unat f" by linarith
  then show ?thesis
    by cases (simp_all add: audio_sample_size_def u32_eq_unat bytes_per_sample_def)
qed

lemma audio_sample_num_eq:
  "audio_sample_num s p =
     (if unat s < 3 \<and> unat p < 9 \<and> (unat s = 2 \<longleftrightarrow> 6 \<le> unat p)
      then Some (of_nat (nearest_samples (sampling_hz ! unat s) (ptime_us ! unat p))) else None)"
proof -
  have s: "unat s = 0 \<or> unat s = 1 \<or> unat s = 2 \<or> 3 \<le> unat s" by linarith
  have p: "unat p = 0 \<or> unat p = 1 \<or> unat p = 2 \<or> unat p = 3 \<or> unat p = 4 \<or> unat p = 5 \<or>
    unat p = 6 \<or> unat p = 7 \<or> unat p = 8 \<or> 9 \<le> unat p" by linarith
  from s show ?thesis
  proof (elim disjE)
    assume "unat s = 0"
    with p show ?thesis
      by (elim disjE) (simp_all add: audio_sample_num_def u32_eq_unat sampling_hz_def ptime_us_def
          nearest_samples_def)
  next
    assume "unat s = 1"
    with p show ?thesis
      by (elim disjE) (simp_all add: audio_sample_num_def u32_eq_unat sampling_hz_def ptime_us_def
          nearest_samples_def)
  next
    assume "unat s = 2"
    with p show ?thesis
      by (elim disjE) (simp_all add: audio_sample_num_def u32_eq_unat sampling_hz_def ptime_us_def
          nearest_samples_def)
  qed (simp add: audio_sample_num_def u32_eq_unat)
qed

lemma table_bounds:
  "f < 4 \<Longrightarrow> bytes_per_sample ! f \<le> 4" "s < 3 \<Longrightarrow> p < 9 \<Longrightarrow> nearest_samples (sampling_hz ! s) (ptime_us ! p) \<le> 384"
proof -
  assume "f < 4"
  then have "f \<in> {0, 1, 2, 3}" by auto
  then show "bytes_per_sample ! f \<le> 4" by (auto simp: bytes_per_sample_def)
next
  assume "s < 3" "p < 9"
  then have "s \<in> {0, 1, 2}" "p \<in> {0, 1, 2, 3, 4, 5, 6, 7, 8}" by auto
  then show "nearest_samples (sampling_hz ! s) (ptime_us ! p) \<le> 384"
    by (auto simp: nearest_samples_def sampling_hz_def ptime_us_def)
qed

text \<open>
  C20. \<open>mcm_calc_audio_buffer_size\<close> agrees with the specification on every argument: it fails with
  \<open>-EINVAL\<close> and size 0 exactly where format, sampling rate and packet time do not fit together, and
  otherwise yields bytes per sample times samples per packet times channels, which never overflows
  32 bits.
\<close>

theorem mcm_calc_audio_buffer_size_spec:
  "case audio_size_spec (unat (audio_format a)) (unat (audio_channel a)) (unat (audio_sampling a))
       (unat (audio_ptime a)) of
     None \<Rightarrow> mcm_calc_audio_buffer_size a = (- EINVAL, 0)
   | Some n \<Rightarrow> fst (mcm_calc_audio_buffer_size a) = 0 \<and> unat (snd (mcm_calc_audio_buffer_size a)) = n"
proof -
  let ?f = "unat (audio_format a)" and ?c = "unat (audio_channel a)" and ?s = "unat (audio_sampling a)"
    and ?p = "unat (audio_ptime a)"
  show ?thesis
  proof (cases "?f < 4 \<and> ?s < 3 \<and> ?p < 9 \<and> (?s = 2 \<longleftrightarrow> 6 \<le> ?p)")
    case True
    let ?b = "bytes_per_sample ! ?f" and ?n = "nearest_samples (sampling_hz ! ?s) (ptime_us ! ?p)"
    have "?c < 2 ^ 16" using unsigned_less [of "audio_channel a"] by simp
    moreover have "?b \<le> 4" "?n \<le> 384" using True table_bounds by blast+
    ultimately have "?b * ?n * ?c \<le> (4 * 384) * 2 ^ 16"
      by (intro mult_le_mono) auto
    then have "?b * ?n * ?c < 2 ^ 32" by simp
    moreover have "snd (mcm_calc_audio_buffer_size a) = of_nat (?b * ?n * ?c)"
      using True
      by (simp add: mcm_calc_audio_buffer_size_def audio_sample_size_eq audio_sample_num_eq)
    ultimately have "unat (snd (mcm_calc_audio_buffer_size a)) = ?b * ?n * ?c"
      by (simp only: unat_u32_of_nat)
    with True show ?thesis
      by (simp add: audio_size_spec_def mcm_calc_audio_buffer_size_def audio_sample_size_eq
          audio_sample_num_eq)
  next
    case False
    then show ?thesis
      by (auto simp: audio_size_spec_def mcm_calc_audio_buffer_size_def audio_sample_size_eq
          audio_sample_num_eq)
  qed
qed

text \<open>The video size is exact only while the frame is below 4 GiB.\<close>

lemma parse_memif_video_size:
  assumes "p_payload_type p \<noteq> PAYLOAD_TYPE_ST30_AUDIO"
    and "unat (video_width (p_payload_args p)) * unat (video_height (p_payload_args p)) * 4 < 2 ^ 32"
  shows "unat (ca_buffer_size (conn_args (parse_memif_param p))) =
    unat (video_width (p_payload_args p)) * unat (video_height (p_payload_args p)) * 4"
proof -
  let ?w = "video_width (p_payload_args p)" and ?h = "video_height (p_payload_args p)"
  have "ca_buffer_size (conn_args (parse_memif_param p)) = of_nat (unat ?w * unat ?h * 4)"
    using assms(1) by (auto simp: parse_memif_param_def Let_def split: mcm_payload_type.splits)
  then show ?thesis using assms(2) by (simp only: unat_u32_of_nat)
qed

section \<open>Finding the proxy\<close>

lemma length_dec: "n < 10 ^ k \<Longrightarrow> 0 < k \<Longrightarrow> length (dec n) \<le> k"
proof (induction k arbitrary: n)
  case (Suc k)
  show ?case
  proof (cases "n < 10")
    case False
    then have "k \<noteq> 0" using Suc.prems by (cases k) auto
    moreover have "n div 10 < 10 ^ k" using Suc.prems by (simp add: less_mult_imp_div_less mult.commute)
    ultimately show ?thesis using Suc.IH [of "n div 10"] False by (subst dec.simps) simp
  qed (subst dec.simps, simp)
qed simp

lemma dec_div10: "10 \<le> n \<Longrightarrow> dec n = dec (n div 10) @ [char_of (48 + n mod 10)]"
  by (subst dec.simps) simp

lemma take_dec_port:
  assumes "n < 65536"
  shows "atoi (take 4 (dec n)) = int (if n < 10000 then n else n div 10)"
proof (cases "n < 10000")
  case True
  then have "length (dec n) \<le> 4" using length_dec [of n 4] by simp
  then show ?thesis using True by simp
next
  case False
  have "length (dec n) = Suc (length (dec (n div 10)))" using False by (simp add: dec_div10 [of n])
  moreover have "length (dec (n div 10)) = 4"
  proof -
    have "dec (n div 10) = dec (n div 10 div 10 div 10 div 10) @
        [char_of (48 + n div 10 div 10 div 10 mod 10)] @ [char_of (48 + n div 10 div 10 mod 10)] @
        [char_of (48 + n div 10 mod 10)]"
      using False by (simp add: dec_div10 [of "n div 10"] dec_div10 [of "n div 10 div 10"]
          dec_div10 [of "n div 10 div 10 div 10"])
    moreover have "length (dec (n div 10 div 10 div 10 div 10)) = 1"
      using assms less_mult_imp_div_less [of n 10 10000]
      by (subst dec.simps) (simp add: div_mult2_eq [symmetric])
    ultimately show ?thesis by simp
  qed
  ultimately show ?thesis using False by (simp add: dec_div10 [of n])
qed

text \<open>The port number a control connection is made to.\<close>

definition proxy_port :: "sdk_env \<Rightarrow> int" where
  "proxy_port env = (case get_media_proxy_addr env (Some \<lparr>a_ip = [], a_port = []\<rparr>) [] of
     ((_, Some a), _) \<Rightarrow> atoi (a_port (debug_port a)) | _ \<Rightarrow> -1)"

text \<open>
  A port number given in \<open>MCM_MEDIA_PROXY_PORT\<close> reaches the socket (offset by 10000) only if
  it has at most four digits; of a five-digit port number the last digit is cut off, because the
  copy is bounded by one less than the field that has to hold the terminating zero.
\<close>

theorem proxy_port_from_environment:
  assumes "\<And>tr. s_str (env tr (Getenv ''MCM_MEDIA_PROXY_PORT'')) = Some (dec n)" and "n < 65536"
  shows "proxy_port env = int (if n < 10000 then n else n div 10) + 10000"
proof -
  let ?m = "if n < 10000 then n else n div 10"
  have m: "?m + 10000 < 2 ^ 32" "?m + 10000 < 10 ^ 5" using assms(2) by auto
  have "length (dec (?m + 10000)) \<le> 5" using length_dec [OF m(2)] by simp
  moreover have "unat (word_of_int (int ?m + 10000) :: u32) = ?m + 10000"
    using unat_u32_of_nat [OF m(1)] by (metis of_int_of_nat_eq of_nat_add of_nat_numeral)
  ultimately show ?thesis
    using assms(1) take_dec_port [OF assms(2)]
    by (simp add: proxy_port_def get_media_proxy_addr_def ext_call_def Let_def strlcpy_def
        debug_port_def)
qed

theorem proxy_port_from_environment_witness:
  "proxy_port (\<lambda>tr c. sdk_res0\<lparr>s_str := Some (dec 18002)\<rparr>) = 11800"
  using proxy_port_from_environment [of "\<lambda>tr c. sdk_res0\<lparr>s_str := Some (dec 18002)\<rparr>" 18002]
  by simp

section \<open>Sockets\<close>

lemma memif_poll_socks:
  assumes "memif_poll env ty c timeout tr = (err, c', tr')"
  shows "ledger ev_sock_open tr' = ledger ev_sock_open tr \<and> ledger ev_sock_close tr' = ledger ev_sock_close tr"
  using assms
  by (auto simp: memif_poll_def ext_call_def tx_on_receive_def rx_on_receive_def on_connect_def
      on_disconnect_def Let_def split: poll_event.splits if_splits)

lemma await_connected_socks:
  assumes "await_connected fuel env ty c tr = Some (err, c', tr')"
  shows "ledger ev_sock_open tr' = ledger ev_sock_open tr \<and> ledger ev_sock_close tr' = ledger ev_sock_close tr"
  using assms
proof (induction fuel arbitrary: c tr)
  case (Suc fuel)
  obtain e c1 tr1 where p: "memif_poll env ty c (-1) tr = (e, c1, tr1)" by (metis prod_cases3)
  from Suc.prems p memif_poll_socks [OF p] Suc.IH [of c1 tr1] show ?case
    by (auto split: if_splits)
qed simp

lemma prepare_socket_dir_socks:
  assumes "prepare_socket_dir env a tr = (ok, tr')"
  shows "ledger ev_sock_open tr' = ledger ev_sock_open tr \<and> ledger ev_sock_close tr' = ledger ev_sock_close tr"
  using assms by (auto simp: prepare_socket_dir_def ext_call_def Let_def split: if_splits)

lemma abandon_memif_socks [simp]:
  "ledger ev_sock_open (abandon_memif env c tr) = ledger ev_sock_open tr"
  "ledger ev_sock_close (abandon_memif env c tr) = ledger ev_sock_close tr"
  by (simp_all add: abandon_memif_def)

lemma create_memif_socks:
  assumes "mcm_create_connection_memif fuel env svc a tr = Returns (x, tr')"
  shows "ledger ev_sock_open tr' = ledger ev_sock_open tr \<and> ledger ev_sock_close tr' = ledger ev_sock_close tr"
  using assms
  by (auto simp: mcm_create_connection_memif_def ext_call_def Let_def
      split: option.splits if_splits prod.splits
      dest!: prepare_socket_dir_socks await_connected_socks)

lemma write_msg_socks:
  assumes "write_msg env fd i d tr = (ok, tr')"
  shows "ledger ev_sock_open tr' = ledger ev_sock_open tr \<and> ledger ev_sock_close tr' = ledger ev_sock_close tr"
  using assms by (auto simp: write_msg_def ext_call_def Let_def split: if_splits)

lemma session_socks:
  "media_proxy_create_session env fd p tr = (r, tr') \<Longrightarrow>
     ledger ev_sock_open tr' = ledger ev_sock_open tr \<and> ledger ev_sock_close tr' = ledger ev_sock_close tr"
  "media_proxy_query_interface env fd sid tr = (q, tr') \<Longrightarrow>
     ledger ev_sock_open tr' = ledger ev_sock_open tr \<and> ledger ev_sock_close tr' = ledger ev_sock_close tr"
  by (auto simp: media_proxy_create_session_def media_proxy_query_interface_def ext_call_def Let_def
      split: option.splits if_splits prod.splits dest!: write_msg_socks)

text \<open>POSIX: \<open>socket\<close> returns a descriptor or -1.\<close>

definition socket_contract :: "sdk_env \<Rightarrow> bool" where
  "socket_contract env \<longleftrightarrow> (\<forall>tr b. -1 \<le> s_ret (env tr (Socket b)))"

lemma open_socket_socks:
  assumes "socket_contract env" and "open_socket env a tr = (fd, tr')"
  shows "\<exists>X. ledger ev_sock_open tr' = ledger ev_sock_open tr + X + (if fd < 0 then {#} else {#fd#}) \<and>
    ledger ev_sock_close tr' = ledger ev_sock_close tr + X"
proof -
  have "-1 \<le> s_ret (env tr (Socket True))" using assms(1) by (auto simp: socket_contract_def)
  then show ?thesis using assms(2)
    by (auto simp: open_socket_def ext_call_def Let_def split: if_splits)
qed

lemma get_addr_socks:
  assumes "get_media_proxy_addr env (Some a) tr = ((r, ap), tr')"
  shows "r = 0 \<and> ledger ev_sock_open tr' = ledger ev_sock_open tr \<and>
    ledger ev_sock_close tr' = ledger ev_sock_close tr"
  using assms by (auto simp: get_media_proxy_addr_def ext_call_def Let_def)

definition proxy_sock :: "mcm_conn_context option \<Rightarrow> int multiset" where
  "proxy_sock xo = (case xo of None \<Rightarrow> {#} | Some x \<Rightarrow> {#c_proxy_sockfd x#})"

lemma create_proxy_socks:
  assumes "socket_contract env" and "mcm_create_connection_proxy fuel env p tr = Returns (xo, tr')"
  shows "\<exists>X. ledger ev_sock_open tr' = ledger ev_sock_open tr + X + proxy_sock xo \<and>
    ledger ev_sock_close tr' = ledger ev_sock_close tr + X"
proof -
  obtain r ap tr1 where g: "get_media_proxy_addr env (Some \<lparr>a_ip = [], a_port = []\<rparr>) tr = ((r, ap), tr1)"
    by (metis prod.collapse)
  obtain fd tr2 where o: "open_socket env (debug_port (the ap)) tr1 = (fd, tr2)" by force
  obtain r3 sid tr3 where c: "media_proxy_create_session env fd (Some p) tr2 = ((r3, sid), tr3)"
    by (metis prod.collapse)
  obtain r4 mp tr4 where q: "media_proxy_query_interface env fd sid tr3 = ((r4, mp), tr4)"
    by (metis prod.collapse)
  obtain X where X: "ledger ev_sock_open tr2 = ledger ev_sock_open tr + X + (if fd < 0 then {#} else {#fd#})"
    "ledger ev_sock_close tr2 = ledger ev_sock_close tr + X"
    using open_socket_socks [OF assms(1) o] get_addr_socks [OF g] by auto
  note S = session_socks(1) [OF c] session_socks(2) [OF q]
  consider "fd < 0" "xo = None" "tr' = tr2"
    | t where "0 \<le> fd" "xo = None" "tr' = close_socket env fd t" "t = tr3 \<or> t = tr4"
    | t where "0 \<le> fd" "xo = None" "tr' = close_socket env fd t"
        "mcm_create_connection_memif fuel env (Some p) mp tr4 = Returns (None, t)"
    | x where "0 \<le> fd" "xo = Some (x\<lparr>c_proxy_sockfd := fd, c_session_id := sid\<rparr>)"
        "mcm_create_connection_memif fuel env (Some p) mp tr4 = Returns (Some x, tr')"
    using assms(2) get_addr_socks [OF g]
    by (auto simp: mcm_create_connection_proxy_def g o c q Let_def not_less
        split: if_splits outcome.splits option.splits prod.splits)
  then show ?thesis
  proof cases
    case 1
    then show ?thesis using X by (auto simp: proxy_sock_def)
  next
    case (2 t)
    then show ?thesis using X S
      by (intro exI [of _ "X + {#fd#}"]) (auto simp: proxy_sock_def close_socket_def)
  next
    case (3 t)
    then show ?thesis using X S create_memif_socks [OF 3(4)]
      by (intro exI [of _ "X + {#fd#}"]) (auto simp: proxy_sock_def close_socket_def)
  next
    case (4 x)
    then show ?thesis using X S create_memif_socks [OF 4(3)] by (auto simp: proxy_sock_def)
  qed
qed

lemma create_memif_proto:
  "mcm_create_connection_memif fuel env svc a tr = Returns (Some x, tr') \<Longrightarrow>
     c_proto x = PROTO_MEMIF \<and> (\<exists>c. c_priv x = PrivMemif c)"
  by (auto simp: mcm_create_connection_memif_def ext_call_def Let_def
      split: option.splits if_splits prod.splits)

lemma create_proxy_proto:
  "mcm_create_connection_proxy fuel env p tr = Returns (Some x, tr') \<Longrightarrow> c_proto x = PROTO_MEMIF"
  by (auto simp: mcm_create_connection_proxy_def Let_def dest!: create_memif_proto
      split: if_splits outcome.splits option.splits prod.splits)

lemma create_auto:
  assumes "mcm_create_connection fuel env (Some p) tr = Returns (xo, tr')" and "p_protocol p = PROTO_AUTO"
  obtains p' yo where "mcm_create_connection_proxy fuel env p' tr = Returns (yo, tr')"
    "xo = with_type (p_type p) yo" "proxy_sock xo = proxy_sock yo"
proof -
  let ?p = "if p_payload_type p = PAYLOAD_TYPE_RDMA_VIDEO
    then p\<lparr>p_payload_args := rdma_video_args (p_payload_args p)\<rparr> else p"
  have "p_type ?p = p_type p" by simp
  then obtain yo where "mcm_create_connection_proxy fuel env ?p tr = Returns (yo, tr')"
    "xo = with_type (p_type p) yo"
    using assms by (auto simp: mcm_create_connection_def Let_def split: outcome.splits)
  then show thesis by (intro that [of ?p yo]) (auto simp: proxy_sock_def with_type_def split: option.splits)
qed

text \<open>
  C22. Every way a connection through the media proxy can fail leaves no control socket open:
  the sockets opened and closed balance exactly, and on success exactly one socket, the one
  recorded in the context, stays open.
\<close>

theorem mcm_create_connection_sockets:
  assumes "socket_contract env" and "p_protocol p = PROTO_AUTO"
    and "mcm_create_connection fuel env (Some p) tr = Returns (xo, tr')"
  shows "\<exists>X. ledger ev_sock_open tr' = ledger ev_sock_open tr + X + proxy_sock xo \<and>
    ledger ev_sock_close tr' = ledger ev_sock_close tr + X"
proof -
  obtain p' yo where y: "mcm_create_connection_proxy fuel env p' tr = Returns (yo, tr')"
    "proxy_sock xo = proxy_sock yo" using create_auto [OF assms(3,2)] .
  from create_proxy_socks [OF assms(1) y(1)] y(2) show ?thesis by simp
qed

definition param0 :: mcm_conn_param where
  "param0 = \<lparr>p_type = is_rx, p_protocol = PROTO_AUTO, p_local_addr = \<lparr>a_ip = ''127.0.0.1'', a_port = ''9001''\<rparr>,
     p_remote_addr = \<lparr>a_ip = ''127.0.0.1'', a_port = ''9002''\<rparr>,
     p_memif_interface = \<lparr>mi_socket_path = [], mi_is_master = False, mi_interface_id = 0\<rparr>,
     p_payload_type = PAYLOAD_TYPE_ST20_VIDEO, p_payload_codec = PAYLOAD_CODEC_NONE,
     p_payload_args = mk_video 640 480, p_width = 640, p_height = 480, p_fps = 30,
     p_pix_fmt = PIX_FMT_V210, p_payload_type_nr = 0, p_mtl_flags_mask = 0, p_mtl_pacing = 0\<rparr>"

text \<open>A proxy that accepts everything: descriptors and pointers are 4, each read and write moves
  data, and the first poll reports the connection.\<close>

definition willing_env :: sdk_env where
  "willing_env tr call = (case call of
      Socket _ \<Rightarrow> sdk_res0\<lparr>s_ret := 4\<rparr>
    | WriteFd _ _ \<Rightarrow> sdk_res0\<lparr>s_ret := 4\<rparr>
    | ReadSessionId _ \<Rightarrow> sdk_res0\<lparr>s_ret := 4, s_sid := 1\<rparr>
    | ReadMemifParam _ \<Rightarrow> sdk_res0\<lparr>s_ret := 4\<rparr>
    | MemifPollEvent _ _ \<Rightarrow> sdk_res0\<lparr>s_event := EvConnect\<rparr>
    | _ \<Rightarrow> sdk_res0\<lparr>s_out := 4\<rparr>)"

lemma willing_env_contract: "socket_contract willing_env"
  by (simp add: socket_contract_def willing_env_def sdk_res0_def)

lemmas create_run_simps = mcm_create_connection_def mcm_create_connection_proxy_def
  get_media_proxy_addr_def open_socket_def media_proxy_create_session_def
  media_proxy_query_interface_def write_msg_def mcm_create_connection_memif_def
  prepare_socket_dir_def memif_poll_def on_connect_def new_memif_ctx_def ext_call_def Let_def
  willing_env_def sdk_res0_def param0_def with_type_def memif_err_defs

lemma willing_connection:
  "\<exists>x tr'. mcm_create_connection (Suc 0) willing_env (Some param0) [] = Returns (Some x, tr') \<and>
     c_proxy_sockfd x = 4"
  by (simp add: create_run_simps)

theorem mcm_create_connection_sockets_witness:
  "\<exists>x tr' X. mcm_create_connection (Suc 0) willing_env (Some param0) [] = Returns (Some x, tr') \<and>
     ledger ev_sock_open tr' = X + {#4#} \<and> ledger ev_sock_close tr' = X"
proof -
  obtain x tr' where x: "mcm_create_connection (Suc 0) willing_env (Some param0) [] = Returns (Some x, tr')"
    "c_proxy_sockfd x = 4" using willing_connection by blast
  have "p_protocol param0 = PROTO_AUTO" by (simp add: param0_def)
  from mcm_create_connection_sockets [OF willing_env_contract this x(1)] x show ?thesis
    by (auto simp: proxy_sock_def)
qed

text \<open>
  C23. The control socket of a connection through the media proxy is never closed:
  \<open>mcm_destroy_connection\<close> sends the destroy request on it and frees the context, but after a
  successful create and a destroy there is one socket more opened than closed.
\<close>

theorem mcm_destroy_connection_leaks_socket:
  assumes "socket_contract env" and "p_protocol p = PROTO_AUTO"
    and "mcm_create_connection fuel env (Some p) tr = Returns (Some x, tr1)"
    and "mcm_destroy_connection env (Some x) tr1 = tr2"
  shows "\<exists>X. ledger ev_sock_open tr2 = ledger ev_sock_open tr + X + {#c_proxy_sockfd x#} \<and>
    ledger ev_sock_close tr2 = ledger ev_sock_close tr + X"
proof -
  obtain p' yo where y: "mcm_create_connection_proxy fuel env p' tr = Returns (yo, tr1)"
    "Some x = with_type (p_type p) yo" "proxy_sock (Some x) = proxy_sock yo"
    using create_auto [OF assms(3,2)] .
  then have proto: "c_proto x = PROTO_MEMIF"
    using create_proxy_proto [of fuel env p' tr _ tr1] by (cases yo) (auto simp: with_type_def)
  let ?w = "write_msg env (c_proxy_sockfd x) MCM_DESTROY_SESSION (DataSession (c_session_id x))"
  have "ledger ev_sock_open (snd (?w t)) = ledger ev_sock_open t \<and>
      ledger ev_sock_close (snd (?w t)) = ledger ev_sock_close t" for t
    using write_msg_socks by (metis prod.collapse)
  then have "ledger ev_sock_open tr2 = ledger ev_sock_open tr1 \<and> ledger ev_sock_close tr2 = ledger ev_sock_close tr1"
    using proto
    by (auto simp: assms(4) [symmetric] mcm_destroy_connection_def mcm_destroy_connection_memif_def
        media_proxy_destroy_session_def Let_def split: option.splits)
  with create_proxy_socks [OF assms(1) y(1)] y(3) show ?thesis by (simp add: proxy_sock_def)
qed

theorem mcm_destroy_connection_leaks_socket_witness:
  "\<exists>x tr1 X. mcm_create_connection (Suc 0) willing_env (Some param0) [] = Returns (Some x, tr1) \<and>
     ledger ev_sock_open (mcm_destroy_connection willing_env (Some x) tr1) = X + {#4#} \<and>
     ledger ev_sock_close (mcm_destroy_connection willing_env (Some x) tr1) = X"
proof -
  obtain x tr1 where x: "mcm_create_connection (Suc 0) willing_env (Some param0) [] = Returns (Some x, tr1)"
    "c_proxy_sockfd x = 4" using willing_connection by blast
  have "p_protocol param0 = PROTO_AUTO" by (simp add: param0_def)
  from mcm_destroy_connection_leaks_socket [OF willing_env_contract this x(1) refl] x show ?thesis
    by auto
qed

text \<open>
  A connection created with \<open>PROTO_UDP\<close> cannot move data: \<open>mcm_create_connection\<close> leaves
  its two function pointers NULL, so \<open>mcm_dequeue_buffer\<close> and \<open>mcm_enqueue_buffer\<close> crash.
\<close>

theorem mcm_udp_connection_has_no_buffer_ops:
  assumes "p_protocol p = PROTO_UDP"
    and "mcm_create_connection fuel env (Some p) tr = Returns (Some x, tr')"
  shows "mcm_dequeue_buffer fuel' env (Some x) timeout tr' = Segfault \<and>
    mcm_enqueue_buffer env (Some x) buf tr' = Segfault"
proof -
  have "\<not> c_has_buffer_ops x"
    using assms
    by (auto simp: mcm_create_connection_def ext_call_def with_type_def Let_def
        split: option.splits if_splits prod.splits)
  then show ?thesis by (simp add: mcm_dequeue_buffer_def mcm_enqueue_buffer_def)
qed

theorem mcm_udp_connection_has_no_buffer_ops_witness:
  "\<exists>x tr'. mcm_create_connection 0 willing_env (Some (param0\<lparr>p_protocol := PROTO_UDP\<rparr>)) [] =
     Returns (Some x, tr') \<and> mcm_dequeue_buffer 0 willing_env (Some x) 0 tr' = Segfault"
proof -
  let ?p = "param0\<lparr>p_protocol := PROTO_UDP\<rparr>"
  obtain x tr' where x: "mcm_create_connection 0 willing_env (Some ?p) [] = Returns (Some x, tr')"
    by (auto simp: mcm_create_connection_def mcm_create_connection_udp_def ext_call_def Let_def
        willing_env_def sdk_res0_def param0_def with_type_def)
  have "p_protocol ?p = PROTO_UDP" by simp
  from mcm_udp_connection_has_no_buffer_ops [OF this x] x show ?thesis by blast
qed

end
