(* ===== verification/Mesh_Config.thy ===== *)
theory Mesh_Config
  imports Mcm_Dp
begin

text \<open>
  Connection configuration of the SDK's public API, sdk/src/mesh_conn.cc and include/mesh_conn.h:
  reading the JSON document, the payload size of a buffer, its partitions, and the translation to
  the parameters of the data plane. JSON text is turned into a tree by the nlohmann library, an
  argument of the definitions; the accessors \<open>value\<close> and \<open>contains\<close> follow json.hpp. An exception
  is caught by the source and becomes \<open>-MESH_ERR_CONN_CONFIG_INVAL\<close>, so every failure is \<open>Inl\<close> of
  the code returned; what a failed call leaves in the fields is not read by any other code.
\<close>

section \<open>Error values\<close>

abbreviation (input) MESH_ERR_CONN_CONFIG_INVAL :: int where "MESH_ERR_CONN_CONFIG_INVAL \<equiv> 1009"
abbreviation (input) MESH_ERR_CONN_CONFIG_INCOMPAT :: int where "MESH_ERR_CONN_CONFIG_INCOMPAT \<equiv> 1010"

definition bind_r :: "'e + 'a \<Rightarrow> ('a \<Rightarrow> 'e + 'b) \<Rightarrow> 'e + 'b" where
  "bind_r m f = (case m of Inl e \<Rightarrow> Inl e | Inr x \<Rightarrow> f x)"

lemma bind_r_simps [simp]: "bind_r (Inl e) f = Inl e" "bind_r (Inr x) f = f x"
  by (simp_all add: bind_r_def)

lemma bind_r_InrD: "bind_r m f = Inr y \<Longrightarrow> \<exists>x. m = Inr x \<and> f x = Inr y"
  by (cases m) auto

definition invalid :: "int + 'a" where "invalid = Inl (- MESH_ERR_CONN_CONFIG_INVAL)"
definition incompat :: "int + 'a" where "incompat = Inl (- MESH_ERR_CONN_CONFIG_INCOMPAT)"

lemma invalid_simps [simp]: "invalid \<noteq> Inr x" "incompat \<noteq> Inr x" "bind_r invalid f = invalid"
  "bind_r incompat f = incompat"
  by (simp_all add: invalid_def incompat_def)

section \<open>JSON values\<close>

datatype json = JNull | JBool bool | JInt int | JFloat rat | JStr string | JArr "json list"
  | JObj "(string \<times> json) list"

definition contains :: "string \<Rightarrow> json \<Rightarrow> bool" where
  "contains k j = (case j of JObj m \<Rightarrow> map_of m k \<noteq> None | _ \<Rightarrow> False)"

definition member :: "string \<Rightarrow> json \<Rightarrow> json" where
  "member k j = (case j of JObj m \<Rightarrow> (case map_of m k of Some v \<Rightarrow> v | None \<Rightarrow> JNull) | _ \<Rightarrow> JNull)"

text \<open>A number as a 32-bit \<open>int\<close>: integers wrap, floating-point numbers are truncated towards zero.\<close>

definition cast_int :: "int \<Rightarrow> int" where
  "cast_int i = sint (word_of_int i :: u32)"

definition truncate :: "rat \<Rightarrow> int" where
  "truncate q = (if q < 0 then - \<lfloor>- q\<rfloor> else \<lfloor>q\<rfloor>)"

definition value_int :: "string \<Rightarrow> int \<Rightarrow> json \<Rightarrow> int + int" where
  "value_int k d j = (case j of
      JObj m \<Rightarrow> (case map_of m k of
          None \<Rightarrow> Inr d
        | Some (JInt i) \<Rightarrow> Inr (cast_int i)
        | Some (JFloat q) \<Rightarrow> Inr (cast_int (truncate q))
        | Some (JBool b) \<Rightarrow> Inr (if b then 1 else 0)
        | _ \<Rightarrow> invalid)
    | _ \<Rightarrow> invalid)"

definition value_str :: "string \<Rightarrow> string \<Rightarrow> json \<Rightarrow> int + string" where
  "value_str k d j = (case j of
      JObj m \<Rightarrow> (case map_of m k of None \<Rightarrow> Inr d | Some (JStr s) \<Rightarrow> Inr s | _ \<Rightarrow> invalid)
    | _ \<Rightarrow> invalid)"

definition value_double :: "string \<Rightarrow> rat \<Rightarrow> json \<Rightarrow> int + rat" where
  "value_double k d j = (case j of
      JObj m \<Rightarrow> (case map_of m k of None \<Rightarrow> Inr d | Some (JInt i) \<Rightarrow> Inr (of_int i)
        | Some (JFloat q) \<Rightarrow> Inr q | _ \<Rightarrow> invalid)
    | _ \<Rightarrow> invalid)"

section \<open>The configuration\<close>

text \<open>The constants of mesh_conn.h and mesh_dp_legacy.h.\<close>

abbreviation (input) MESH_CONN_KIND_SENDER :: int where "MESH_CONN_KIND_SENDER \<equiv> 0"
abbreviation (input) MESH_CONN_KIND_RECEIVER :: int where "MESH_CONN_KIND_RECEIVER \<equiv> 1"
abbreviation (input) MESH_CONN_TYPE_UNINITIALIZED :: int where "MESH_CONN_TYPE_UNINITIALIZED \<equiv> -1"
abbreviation (input) MESH_CONN_TYPE_GROUP :: int where "MESH_CONN_TYPE_GROUP \<equiv> 1"
abbreviation (input) MESH_CONN_TYPE_ST2110 :: int where "MESH_CONN_TYPE_ST2110 \<equiv> 2"
abbreviation (input) MESH_CONN_TYPE_RDMA :: int where "MESH_CONN_TYPE_RDMA \<equiv> 3"
abbreviation (input) MESH_PAYLOAD_TYPE_UNINITIALIZED :: int where "MESH_PAYLOAD_TYPE_UNINITIALIZED \<equiv> -1"
abbreviation (input) MESH_PAYLOAD_TYPE_BLOB :: int where "MESH_PAYLOAD_TYPE_BLOB \<equiv> 0"
abbreviation (input) MESH_PAYLOAD_TYPE_VIDEO :: int where "MESH_PAYLOAD_TYPE_VIDEO \<equiv> 1"
abbreviation (input) MESH_PAYLOAD_TYPE_AUDIO :: int where "MESH_PAYLOAD_TYPE_AUDIO \<equiv> 2"
abbreviation (input) MESH_CONN_TRANSPORT_ST2110_20 :: int where "MESH_CONN_TRANSPORT_ST2110_20 \<equiv> 0"
abbreviation (input) MESH_CONN_TRANSPORT_ST2110_22 :: int where "MESH_CONN_TRANSPORT_ST2110_22 \<equiv> 1"
abbreviation (input) MESH_CONN_TRANSPORT_ST2110_30 :: int where "MESH_CONN_TRANSPORT_ST2110_30 \<equiv> 2"
abbreviation (input) MESH_VIDEO_PIXEL_FORMAT_YUV422PLANAR10LE :: int where "MESH_VIDEO_PIXEL_FORMAT_YUV422PLANAR10LE \<equiv> 0"
abbreviation (input) MESH_VIDEO_PIXEL_FORMAT_V210 :: int where "MESH_VIDEO_PIXEL_FORMAT_V210 \<equiv> 1"
abbreviation (input) MESH_VIDEO_PIXEL_FORMAT_YUV422RFC4175BE10 :: int where "MESH_VIDEO_PIXEL_FORMAT_YUV422RFC4175BE10 \<equiv> 2"
abbreviation (input) MESH_AUDIO_SAMPLE_RATE_48000 :: int where "MESH_AUDIO_SAMPLE_RATE_48000 \<equiv> 0"
abbreviation (input) MESH_AUDIO_SAMPLE_RATE_96000 :: int where "MESH_AUDIO_SAMPLE_RATE_96000 \<equiv> 1"
abbreviation (input) MESH_AUDIO_SAMPLE_RATE_44100 :: int where "MESH_AUDIO_SAMPLE_RATE_44100 \<equiv> 2"
abbreviation (input) MESH_AUDIO_FORMAT_PCM_S8 :: int where "MESH_AUDIO_FORMAT_PCM_S8 \<equiv> 0"
abbreviation (input) MESH_AUDIO_FORMAT_PCM_S16BE :: int where "MESH_AUDIO_FORMAT_PCM_S16BE \<equiv> 1"
abbreviation (input) MESH_AUDIO_FORMAT_PCM_S24BE :: int where "MESH_AUDIO_FORMAT_PCM_S24BE \<equiv> 2"
abbreviation (input) MESH_AUDIO_PACKET_TIME_1MS :: int where "MESH_AUDIO_PACKET_TIME_1MS \<equiv> 0"
abbreviation (input) MESH_AUDIO_PACKET_TIME_125US :: int where "MESH_AUDIO_PACKET_TIME_125US \<equiv> 1"
abbreviation (input) MESH_AUDIO_PACKET_TIME_250US :: int where "MESH_AUDIO_PACKET_TIME_250US \<equiv> 2"
abbreviation (input) MESH_AUDIO_PACKET_TIME_333US :: int where "MESH_AUDIO_PACKET_TIME_333US \<equiv> 3"
abbreviation (input) MESH_AUDIO_PACKET_TIME_4MS :: int where "MESH_AUDIO_PACKET_TIME_4MS \<equiv> 4"
abbreviation (input) MESH_AUDIO_PACKET_TIME_80US :: int where "MESH_AUDIO_PACKET_TIME_80US \<equiv> 5"
abbreviation (input) MESH_AUDIO_PACKET_TIME_1_09MS :: int where "MESH_AUDIO_PACKET_TIME_1_09MS \<equiv> 6"
abbreviation (input) MESH_AUDIO_PACKET_TIME_0_14MS :: int where "MESH_AUDIO_PACKET_TIME_0_14MS \<equiv> 7"
abbreviation (input) MESH_AUDIO_PACKET_TIME_0_09MS :: int where "MESH_AUDIO_PACKET_TIME_0_09MS \<equiv> 8"

record BufferPartition =
  bp_size :: u32
  bp_offset :: u32

record BufferPartitions =
  bp_payload :: BufferPartition
  bp_metadata :: BufferPartition
  bp_sysdata :: BufferPartition

record ConnectionConfig =
  k_kind :: int
  k_buf_queue_capacity :: u16
  k_max_payload_size :: u32
  k_max_metadata_size :: u32
  k_calculated_payload_size :: u32
  k_buf_parts :: BufferPartitions
  k_tx_conn_creation_delay :: u16
  k_conn_type :: int
  k_urn :: string
  k_ip_addr :: string
  k_port :: u16
  k_mcast_sip_addr :: string
  k_transport :: int
  k_pacing :: string
  k_st_payload_type :: u8
  k_transportPixelFormat :: string
  k_connection_mode :: string
  k_max_latency_ns :: u32
  k_provider :: string
  k_num_endpoints :: u8
  k_payload_type :: int
  k_width :: u32
  k_height :: u32
  k_fps :: rat
  k_pixel_format :: int
  k_channels :: int
  k_sample_rate :: int
  k_format :: int
  k_packet_time :: int

definition new_config :: "int \<Rightarrow> ConnectionConfig" where
  "new_config kind = \<lparr>k_kind = kind, k_buf_queue_capacity = 0, k_max_payload_size = 0,
     k_max_metadata_size = 0, k_calculated_payload_size = 0,
     k_buf_parts = \<lparr>bp_payload = \<lparr>bp_size = 0, bp_offset = 0\<rparr>, bp_metadata = \<lparr>bp_size = 0, bp_offset = 0\<rparr>,
       bp_sysdata = \<lparr>bp_size = 0, bp_offset = 0\<rparr>\<rparr>,
     k_tx_conn_creation_delay = 0, k_conn_type = MESH_CONN_TYPE_UNINITIALIZED, k_urn = [],
     k_ip_addr = [], k_port = 0, k_mcast_sip_addr = [], k_transport = 0, k_pacing = [],
     k_st_payload_type = 0, k_transportPixelFormat = [], k_connection_mode = [],
     k_max_latency_ns = 0, k_provider = ''tcp'', k_num_endpoints = 1,
     k_payload_type = MESH_PAYLOAD_TYPE_UNINITIALIZED, k_width = 0, k_height = 0, k_fps = 0,
     k_pixel_format = 0, k_channels = 0, k_sample_rate = 0, k_format = 0, k_packet_time = 0\<rparr>"

section \<open>Reading the document\<close>

text \<open>The steps of \<open>ConnectionConfig::parse_from_json\<close>, in the order of the source.\<close>

definition parse_conn_type :: "json \<Rightarrow> ConnectionConfig \<Rightarrow> int + ConnectionConfig" where
  "parse_conn_type jconn c =
     (let t0 = k_conn_type c;
          t1 = (if contains ''multipointGroup'' jconn then MESH_CONN_TYPE_GROUP else t0)
      in if contains ''st2110'' jconn \<and> t1 \<noteq> MESH_CONN_TYPE_UNINITIALIZED then invalid else
      let t2 = (if contains ''st2110'' jconn then MESH_CONN_TYPE_ST2110 else t1)
      in if contains ''rdma'' jconn \<and> t2 \<noteq> MESH_CONN_TYPE_UNINITIALIZED then invalid else
      let t3 = (if contains ''rdma'' jconn then MESH_CONN_TYPE_RDMA else t2)
      in if t3 = MESH_CONN_TYPE_UNINITIALIZED then invalid else Inr (c\<lparr>k_conn_type := t3\<rparr>))"

definition parse_transport :: "string \<Rightarrow> int + int" where
  "parse_transport s =
     (if s = ''st2110-20'' then Inr MESH_CONN_TRANSPORT_ST2110_20
      else if s = ''st2110-22'' then Inr MESH_CONN_TRANSPORT_ST2110_22
      else if s = ''st2110-30'' then Inr MESH_CONN_TRANSPORT_ST2110_30 else invalid)"

definition parse_st2110 :: "json \<Rightarrow> ConnectionConfig \<Rightarrow> int + ConnectionConfig" where
  "parse_st2110 st2110 c =
     bind_r (value_str ''ipAddr'' [] st2110) (\<lambda>ip.
     bind_r (value_int ''port'' 0 st2110) (\<lambda>port.
     bind_r (value_str ''multicastSourceIpAddr'' [] st2110) (\<lambda>sip.
     bind_r (value_str ''transport'' ''st2110-20'' st2110) (\<lambda>str.
     bind_r (parse_transport str) (\<lambda>transport.
     bind_r (value_str ''pacing'' [] st2110) (\<lambda>pacing.
     bind_r (value_int ''payloadType'' 112 st2110) (\<lambda>pt.
     let c = c\<lparr>k_ip_addr := ip, k_port := word_of_int port, k_mcast_sip_addr := sip,
               k_transport := transport, k_pacing := pacing, k_st_payload_type := word_of_int pt\<rparr>
     in if transport = MESH_CONN_TRANSPORT_ST2110_20
        then bind_r (value_str ''transportPixelFormat'' ''yuv422p10rfc4175'' st2110)
          (\<lambda>f. Inr (c\<lparr>k_transportPixelFormat := f\<rparr>))
        else Inr c)))))))"

definition parse_connection :: "json \<Rightarrow> ConnectionConfig \<Rightarrow> int + ConnectionConfig" where
  "parse_connection j c =
     (if \<not> contains ''connection'' j then invalid else
      let jconn = member ''connection'' j in
      bind_r (parse_conn_type jconn c) (\<lambda>c.
      if k_conn_type c = MESH_CONN_TYPE_GROUP then
        bind_r (value_str ''urn'' [] (member ''multipointGroup'' jconn)) (\<lambda>u. Inr (c\<lparr>k_urn := u\<rparr>))
      else if k_conn_type c = MESH_CONN_TYPE_ST2110 then parse_st2110 (member ''st2110'' jconn) c
      else if k_conn_type c = MESH_CONN_TYPE_RDMA then
        (let rdma = member ''rdma'' jconn in
         bind_r (value_str ''connectionMode'' ''RC'' rdma) (\<lambda>mode.
         bind_r (value_int ''maxLatencyNanoseconds'' 0 rdma) (\<lambda>ns.
         Inr (c\<lparr>k_connection_mode := mode, k_max_latency_ns := word_of_int ns\<rparr>))))
      else Inr c))"

definition parse_options :: "json \<Rightarrow> ConnectionConfig \<Rightarrow> int + ConnectionConfig" where
  "parse_options j c =
     (if \<not> contains ''options'' j then Inr c else
      let joptions = member ''options'' j in
      if \<not> contains ''rdma'' joptions then Inr c else
      let rdma = member ''rdma'' joptions in
      bind_r (value_str ''provider'' ''tcp'' rdma) (\<lambda>str.
      if str \<noteq> ''tcp'' \<and> str \<noteq> ''verbs'' then invalid else
      bind_r (value_int ''num_endpoints'' 1 rdma) (\<lambda>i.
      let num_endpoints = (word_of_int i :: u32) in
      if 1 \<le> num_endpoints \<and> num_endpoints \<le> 8
      then Inr (c\<lparr>k_provider := str, k_num_endpoints := ucast num_endpoints\<rparr>)
      else invalid)))"

definition parse_pixel_format :: "string \<Rightarrow> int + int" where
  "parse_pixel_format s =
     (if s = ''yuv422p10le'' then Inr MESH_VIDEO_PIXEL_FORMAT_YUV422PLANAR10LE
      else if s = ''v210'' then Inr MESH_VIDEO_PIXEL_FORMAT_V210
      else if s = ''yuv422p10rfc4175'' then Inr MESH_VIDEO_PIXEL_FORMAT_YUV422RFC4175BE10
      else invalid)"

definition parse_video :: "json \<Rightarrow> ConnectionConfig \<Rightarrow> int + ConnectionConfig" where
  "parse_video video c =
     bind_r (value_int ''width'' 640 video) (\<lambda>w.
     bind_r (value_int ''height'' 640 video) (\<lambda>h.
     bind_r (value_double ''fps'' 60 video) (\<lambda>fps.
     bind_r (value_str ''pixelFormat'' ''yuv422p10le'' video) (\<lambda>str.
     bind_r (parse_pixel_format str) (\<lambda>f.
     Inr (c\<lparr>k_width := word_of_int w, k_height := word_of_int h, k_fps := fps, k_pixel_format := f\<rparr>))))))"

definition parse_audio_format :: "string \<Rightarrow> int + int" where
  "parse_audio_format s =
     (if s = ''pcm_s24be'' then Inr MESH_AUDIO_FORMAT_PCM_S24BE
      else if s = ''pcm_s16be'' then Inr MESH_AUDIO_FORMAT_PCM_S16BE
      else if s = ''pcm_s8'' then Inr MESH_AUDIO_FORMAT_PCM_S8 else invalid)"

definition parse_sample_rate :: "int \<Rightarrow> int + int" where
  "parse_sample_rate r =
     (if r = 44100 then Inr MESH_AUDIO_SAMPLE_RATE_44100
      else if r = 48000 then Inr MESH_AUDIO_SAMPLE_RATE_48000
      else if r = 96000 then Inr MESH_AUDIO_SAMPLE_RATE_96000 else invalid)"

definition parse_packet_time :: "string \<Rightarrow> int + int" where
  "parse_packet_time s =
     (if s = ''1ms'' then Inr MESH_AUDIO_PACKET_TIME_1MS
      else if s = ''125us'' then Inr MESH_AUDIO_PACKET_TIME_125US
      else if s = ''250us'' then Inr MESH_AUDIO_PACKET_TIME_250US
      else if s = ''333us'' then Inr MESH_AUDIO_PACKET_TIME_333US
      else if s = ''4ms'' then Inr MESH_AUDIO_PACKET_TIME_4MS
      else if s = ''80us'' then Inr MESH_AUDIO_PACKET_TIME_80US
      else if s = ''1.09ms'' then Inr MESH_AUDIO_PACKET_TIME_1_09MS
      else if s = ''0.14ms'' then Inr MESH_AUDIO_PACKET_TIME_0_14MS
      else if s = ''0.09ms'' then Inr MESH_AUDIO_PACKET_TIME_1_09MS else invalid)"

definition audio_compatible :: "int \<Rightarrow> int \<Rightarrow> bool" where
  "audio_compatible rate time =
     (if rate = MESH_AUDIO_SAMPLE_RATE_48000 \<or> rate = MESH_AUDIO_SAMPLE_RATE_96000
      then time \<in> {MESH_AUDIO_PACKET_TIME_1MS, MESH_AUDIO_PACKET_TIME_125US, MESH_AUDIO_PACKET_TIME_250US,
             MESH_AUDIO_PACKET_TIME_333US, MESH_AUDIO_PACKET_TIME_4MS, MESH_AUDIO_PACKET_TIME_80US}
      else if rate = MESH_AUDIO_SAMPLE_RATE_44100
      then time \<in> {MESH_AUDIO_PACKET_TIME_1_09MS, MESH_AUDIO_PACKET_TIME_0_14MS, MESH_AUDIO_PACKET_TIME_0_09MS}
      else False)"

definition parse_audio :: "json \<Rightarrow> ConnectionConfig \<Rightarrow> int + ConnectionConfig" where
  "parse_audio audio c =
     bind_r (value_int ''channels'' 2 audio) (\<lambda>ch.
     bind_r (value_str ''format'' ''pcm_s24be'' audio) (\<lambda>str.
     bind_r (parse_audio_format str) (\<lambda>fmt.
     bind_r (value_int ''sampleRate'' 48000 audio) (\<lambda>sr.
     bind_r (parse_sample_rate sr) (\<lambda>rate.
     bind_r (value_str ''packetTime'' ''1ms'' audio) (\<lambda>str.
     bind_r (parse_packet_time str) (\<lambda>time.
     if audio_compatible rate time
     then Inr (c\<lparr>k_channels := ch, k_format := fmt, k_sample_rate := rate, k_packet_time := time\<rparr>)
     else incompat)))))))"

definition parse_payload_type :: "json \<Rightarrow> ConnectionConfig \<Rightarrow> int + ConnectionConfig" where
  "parse_payload_type jpayload c =
     (let t0 = k_payload_type c;
          t1 = (if contains ''video'' jpayload then MESH_PAYLOAD_TYPE_VIDEO else t0)
      in if contains ''audio'' jpayload \<and> t1 \<noteq> MESH_PAYLOAD_TYPE_UNINITIALIZED then invalid else
      let t2 = (if contains ''audio'' jpayload then MESH_PAYLOAD_TYPE_AUDIO else t1)
      in if contains ''blob'' jpayload \<and> t2 \<noteq> MESH_PAYLOAD_TYPE_UNINITIALIZED then invalid else
      let t3 = (if contains ''blob'' jpayload then MESH_PAYLOAD_TYPE_BLOB else t2)
      in if t3 = MESH_PAYLOAD_TYPE_UNINITIALIZED then invalid else Inr (c\<lparr>k_payload_type := t3\<rparr>))"

definition parse_payload :: "json \<Rightarrow> ConnectionConfig \<Rightarrow> int + ConnectionConfig" where
  "parse_payload j c =
     (if \<not> contains ''payload'' j then Inr (c\<lparr>k_payload_type := MESH_PAYLOAD_TYPE_BLOB\<rparr>) else
      let jpayload = member ''payload'' j in
      bind_r (parse_payload_type jpayload c) (\<lambda>c.
      if k_payload_type c = MESH_PAYLOAD_TYPE_VIDEO then parse_video (member ''video'' jpayload) c
      else if k_payload_type c = MESH_PAYLOAD_TYPE_AUDIO then parse_audio (member ''audio'' jpayload) c
      else Inr c))"

definition check_blob :: "ConnectionConfig \<Rightarrow> int + ConnectionConfig" where
  "check_blob c =
     (if k_payload_type c = MESH_PAYLOAD_TYPE_BLOB then
        (if k_conn_type c \<noteq> MESH_CONN_TYPE_GROUP then incompat
         else if k_max_payload_size c = 0 then invalid else Inr c)
      else Inr c)"

definition parse_from_json ::
  "(string \<Rightarrow> json option) \<Rightarrow> string \<Rightarrow> ConnectionConfig \<Rightarrow> int + ConnectionConfig" where
  "parse_from_json json_parse str c = (case json_parse str of
      None \<Rightarrow> invalid
    | Some j \<Rightarrow>
        bind_r (value_int ''bufferQueueCapacity'' 16 j) (\<lambda>cap.
        bind_r (value_int ''maxPayloadSize'' 0 j) (\<lambda>mp.
        bind_r (value_int ''maxMetadataSize'' 0 j) (\<lambda>mm.
        bind_r (value_int ''connCreationDelayMilliseconds'' 0 j) (\<lambda>delay.
        bind_r (parse_connection j (c\<lparr>k_buf_queue_capacity := word_of_int cap,
            k_max_payload_size := word_of_int mp, k_max_metadata_size := word_of_int mm,
            k_tx_conn_creation_delay := word_of_int delay\<rparr>)) (\<lambda>c.
        bind_r (parse_options j c) (\<lambda>c.
        bind_r (parse_payload j c) check_blob)))))))"

section \<open>Sizes\<close>

definition mesh_sample_size :: "int \<Rightarrow> int + u32" where
  "mesh_sample_size fmt =
     (if fmt = MESH_AUDIO_FORMAT_PCM_S8 then Inr 1
      else if fmt = MESH_AUDIO_FORMAT_PCM_S16BE then Inr 2
      else if fmt = MESH_AUDIO_FORMAT_PCM_S24BE then Inr 3 else invalid)"

definition mesh_sample_num :: "int \<Rightarrow> int \<Rightarrow> int + u32" where
  "mesh_sample_num rate time =
     (if rate = MESH_AUDIO_SAMPLE_RATE_48000 then
        (if time = MESH_AUDIO_PACKET_TIME_1MS then Inr 48
         else if time = MESH_AUDIO_PACKET_TIME_125US then Inr 6
         else if time = MESH_AUDIO_PACKET_TIME_250US then Inr 12
         else if time = MESH_AUDIO_PACKET_TIME_333US then Inr 16
         else if time = MESH_AUDIO_PACKET_TIME_4MS then Inr 192
         else if time = MESH_AUDIO_PACKET_TIME_80US then Inr 4 else invalid)
      else if rate = MESH_AUDIO_SAMPLE_RATE_96000 then
        (if time = MESH_AUDIO_PACKET_TIME_1MS then Inr 96
         else if time = MESH_AUDIO_PACKET_TIME_125US then Inr 12
         else if time = MESH_AUDIO_PACKET_TIME_250US then Inr 24
         else if time = MESH_AUDIO_PACKET_TIME_333US then Inr 32
         else if time = MESH_AUDIO_PACKET_TIME_4MS then Inr 384
         else if time = MESH_AUDIO_PACKET_TIME_80US then Inr 8 else invalid)
      else if rate = MESH_AUDIO_SAMPLE_RATE_44100 then
        (if time = MESH_AUDIO_PACKET_TIME_1_09MS then Inr 48
         else if time = MESH_AUDIO_PACKET_TIME_0_14MS then Inr 6
         else if time = MESH_AUDIO_PACKET_TIME_0_09MS then Inr 4 else invalid)
      else Inl (- EINVAL))"

definition calc_audio_buf_size :: "ConnectionConfig \<Rightarrow> int + ConnectionConfig" where
  "calc_audio_buf_size c =
     bind_r (mesh_sample_size (k_format c)) (\<lambda>sample_size.
     bind_r (mesh_sample_num (k_sample_rate c) (k_packet_time c)) (\<lambda>sample_num.
     Inr (c\<lparr>k_calculated_payload_size := sample_size * sample_num * word_of_int (k_channels c)\<rparr>)))"

definition calc_video_buf_size :: "ConnectionConfig \<Rightarrow> int + ConnectionConfig" where
  "calc_video_buf_size c =
     (let pixels = k_width c * k_height c in
      if k_pixel_format c = MESH_VIDEO_PIXEL_FORMAT_YUV422PLANAR10LE
      then Inr (c\<lparr>k_calculated_payload_size := pixels * 4\<rparr>)
      else if k_pixel_format c = MESH_VIDEO_PIXEL_FORMAT_V210
      then (if pixels mod 3 \<noteq> 0 then invalid else Inr (c\<lparr>k_calculated_payload_size := pixels * 8 div 3\<rparr>))
      else if k_pixel_format c = MESH_VIDEO_PIXEL_FORMAT_YUV422RFC4175BE10
      then (if pixels mod 2 \<noteq> 0 then invalid else Inr (c\<lparr>k_calculated_payload_size := pixels * 5 div 2\<rparr>))
      else invalid)"

definition calc_payload_size :: "ConnectionConfig \<Rightarrow> int + ConnectionConfig" where
  "calc_payload_size c =
     (if k_payload_type c = MESH_PAYLOAD_TYPE_VIDEO then calc_video_buf_size c
      else if k_payload_type c = MESH_PAYLOAD_TYPE_AUDIO then calc_audio_buf_size c
      else if k_payload_type c = MESH_PAYLOAD_TYPE_BLOB
      then Inr (c\<lparr>k_calculated_payload_size := k_max_payload_size c\<rparr>)
      else invalid)"

definition align8 :: "u32 \<Rightarrow> u32" where
  "align8 n = (n + 7) AND NOT 7"

text \<open>\<open>sizeof(BufferSysData)\<close> is 24: a 64-bit timestamp, three 32-bit fields, and padding.\<close>

definition sizeof_BufferSysData :: u32 where "sizeof_BufferSysData = 24"

definition configure_buf_partitions :: "ConnectionConfig \<Rightarrow> ConnectionConfig" where
  "configure_buf_partitions c =
     (let sys = \<lparr>bp_size = align8 sizeof_BufferSysData, bp_offset = 0\<rparr>;
          pay = \<lparr>bp_size = align8 (k_calculated_payload_size c), bp_offset = bp_size sys\<rparr>;
          meta = \<lparr>bp_size = align8 (k_max_metadata_size c), bp_offset = bp_offset pay + bp_size pay\<rparr>
      in c\<lparr>k_buf_parts := \<lparr>bp_payload = pay, bp_metadata = meta, bp_sysdata = sys\<rparr>\<rparr>)"

text \<open>\<open>BufferPartitions::total_size\<close> adds three 32-bit sizes and converts the sum to \<open>size_t\<close>.\<close>

definition total_size :: "BufferPartitions \<Rightarrow> u64" where
  "total_size p = ucast (bp_size (bp_payload p) + bp_size (bp_metadata p) + bp_size (bp_sysdata p))"

definition apply_json_config ::
  "(string \<Rightarrow> json option) \<Rightarrow> string \<Rightarrow> ConnectionConfig \<Rightarrow> int + ConnectionConfig" where
  "apply_json_config json_parse config c =
     bind_r (parse_from_json json_parse config c) (\<lambda>c.
     bind_r (calc_payload_size c) (\<lambda>c. Inr (configure_buf_partitions c)))"

section \<open>Parameters of the data plane\<close>

text \<open>\<open>assign_to_mcm_conn_param\<close>: the argument \<open>double_bits\<close> is the encoding of a \<open>double\<close>, which the
  union holds next to integers.\<close>

definition assign_pix_fmt :: "int \<Rightarrow> int + video_pixel_format" where
  "assign_pix_fmt f =
     (if f = MESH_VIDEO_PIXEL_FORMAT_YUV422PLANAR10LE then Inr PIX_FMT_YUV422PLANAR10LE
      else if f = MESH_VIDEO_PIXEL_FORMAT_V210 then Inr PIX_FMT_V210
      else if f = MESH_VIDEO_PIXEL_FORMAT_YUV422RFC4175BE10 then Inr PIX_FMT_YUV422RFC4175BE10
      else invalid)"

definition pix_fmt_code :: "video_pixel_format \<Rightarrow> u64" where
  "pix_fmt_code f = (case f of PIX_FMT_YUV422PLANAR10LE \<Rightarrow> 0 | PIX_FMT_V210 \<Rightarrow> 1
     | PIX_FMT_YUV422RFC4175BE10 \<Rightarrow> 2)"

definition assign_sampling :: "int \<Rightarrow> int + u32" where
  "assign_sampling r =
     (if r = MESH_AUDIO_SAMPLE_RATE_44100 then Inr 2
      else if r = MESH_AUDIO_SAMPLE_RATE_48000 then Inr 0
      else if r = MESH_AUDIO_SAMPLE_RATE_96000 then Inr 1 else invalid)"

definition assign_ptime :: "int \<Rightarrow> int \<Rightarrow> int + u32" where
  "assign_ptime r t =
     (if r = MESH_AUDIO_SAMPLE_RATE_48000 \<or> r = MESH_AUDIO_SAMPLE_RATE_96000 then
        (if t = MESH_AUDIO_PACKET_TIME_1MS then Inr 0
         else if t = MESH_AUDIO_PACKET_TIME_125US then Inr 1
         else if t = MESH_AUDIO_PACKET_TIME_250US then Inr 2
         else if t = MESH_AUDIO_PACKET_TIME_333US then Inr 3
         else if t = MESH_AUDIO_PACKET_TIME_4MS then Inr 4
         else if t = MESH_AUDIO_PACKET_TIME_80US then Inr 5 else incompat)
      else if r = MESH_AUDIO_SAMPLE_RATE_44100 then
        (if t = MESH_AUDIO_PACKET_TIME_1_09MS then Inr 6
         else if t = MESH_AUDIO_PACKET_TIME_0_14MS then Inr 7
         else if t = MESH_AUDIO_PACKET_TIME_0_09MS then Inr 8 else incompat)
      else Inr 0)"

definition assign_audio_format :: "int \<Rightarrow> int + u32" where
  "assign_audio_format f =
     (if f = MESH_AUDIO_FORMAT_PCM_S8 then Inr 0
      else if f = MESH_AUDIO_FORMAT_PCM_S16BE then Inr 1
      else if f = MESH_AUDIO_FORMAT_PCM_S24BE then Inr 2 else invalid)"

definition assign_to_mcm_conn_param ::
  "(rat \<Rightarrow> u64) \<Rightarrow> ConnectionConfig \<Rightarrow> mcm_conn_param \<Rightarrow> int + mcm_conn_param" where
  "assign_to_mcm_conn_param double_bits c param =
     (if k_payload_type c = MESH_PAYLOAD_TYPE_VIDEO then
        bind_r (assign_pix_fmt (k_pixel_format c)) (\<lambda>f.
        Inr (param\<lparr>p_pix_fmt := f, p_width := k_width c, p_height := k_height c, p_fps := k_fps c,
          p_payload_args := (mk_video (k_width c) (k_height c))
            \<lparr>pw1 := double_bits (k_fps c), pw2 := pix_fmt_code f\<rparr>\<rparr>))
      else if k_payload_type c = MESH_PAYLOAD_TYPE_AUDIO then
        bind_r (assign_sampling (k_sample_rate c)) (\<lambda>sampling.
        bind_r (assign_ptime (k_sample_rate c) (k_packet_time c)) (\<lambda>ptime.
        bind_r (assign_audio_format (k_format c)) (\<lambda>fmt.
        Inr (param\<lparr>p_payload_args := mk_audio fmt (word_of_int (k_channels c)) sampling ptime\<rparr>))))
      else invalid)"

section \<open>What an accepted document describes\<close>

lemma parse_conn_type_spec:
  "parse_conn_type j c = Inr d \<Longrightarrow> k_conn_type c = MESH_CONN_TYPE_UNINITIALIZED \<Longrightarrow>
    \<exists>t \<in> {MESH_CONN_TYPE_GROUP, MESH_CONN_TYPE_ST2110, MESH_CONN_TYPE_RDMA}. d = c\<lparr>k_conn_type := t\<rparr>"
  by (auto simp: parse_conn_type_def Let_def split: if_splits)

text \<open>The fields a step does not touch.\<close>

abbreviation same_payload :: "ConnectionConfig \<Rightarrow> ConnectionConfig \<Rightarrow> bool" where
  "same_payload c d \<equiv> k_payload_type d = k_payload_type c \<and> k_kind d = k_kind c \<and>
     k_max_payload_size d = k_max_payload_size c \<and> k_max_metadata_size d = k_max_metadata_size c"

lemma parse_connection_spec:
  assumes "parse_connection j c = Inr d" and "k_conn_type c = MESH_CONN_TYPE_UNINITIALIZED"
  shows "k_conn_type d \<in> {MESH_CONN_TYPE_GROUP, MESH_CONN_TYPE_ST2110, MESH_CONN_TYPE_RDMA} \<and> same_payload c d"
proof -
  obtain c1 where c1: "parse_conn_type (member ''connection'' j) c = Inr c1"
    using assms(1) by (auto simp: parse_connection_def Let_def dest!: bind_r_InrD split: if_splits)
  from parse_conn_type_spec [OF c1 assms(2)] assms(1) c1 show ?thesis
    by (auto simp: parse_connection_def parse_st2110_def Let_def dest!: bind_r_InrD split: if_splits)
qed

lemma parse_options_spec:
  assumes "parse_options j c = Inr d" and "k_provider c = ''tcp''" and "k_num_endpoints c = 1"
  shows "k_provider d \<in> {''tcp'', ''verbs''} \<and> 1 \<le> k_num_endpoints d \<and> k_num_endpoints d \<le> 8 \<and>
    same_payload c d \<and> k_conn_type d = k_conn_type c"
proof -
  have "(1 :: u8) \<le> ucast n \<and> ucast n \<le> (8 :: u8)" if "1 \<le> n" "n \<le> 8" for n :: u32
  proof -
    have "unat n < 2 ^ 8" using that(2) by (simp add: word_le_nat_alt)
    then have "unat (ucast n :: u8) = unat n" by (simp add: unsigned_ucast_eq take_bit_nat_eq_self)
    with that show ?thesis by (simp add: word_le_nat_alt)
  qed
  with assms show ?thesis
    by (auto simp: parse_options_def Let_def dest!: bind_r_InrD split: if_splits)
qed

text \<open>Everything but the payload's own fields.\<close>

abbreviation same_frame :: "ConnectionConfig \<Rightarrow> ConnectionConfig \<Rightarrow> bool" where
  "same_frame c d \<equiv> k_kind d = k_kind c \<and> k_conn_type d = k_conn_type c \<and>
     k_max_payload_size d = k_max_payload_size c \<and> k_provider d = k_provider c \<and>
     k_num_endpoints d = k_num_endpoints c"

lemma parse_pixel_format_range: "parse_pixel_format s = Inr f \<Longrightarrow> f \<in> {0, 1, 2}"
  by (auto simp: parse_pixel_format_def split: if_splits)

lemma parse_audio_format_range: "parse_audio_format s = Inr f \<Longrightarrow> f \<in> {0, 1, 2}"
  by (auto simp: parse_audio_format_def split: if_splits)

lemma parse_packet_time_range: "parse_packet_time s = Inr t \<Longrightarrow> t \<noteq> MESH_AUDIO_PACKET_TIME_0_09MS"
  by (auto simp: parse_packet_time_def split: if_splits)

lemma parse_video_spec:
  "parse_video v c = Inr d \<Longrightarrow> same_frame c d \<and> k_payload_type d = k_payload_type c \<and> k_pixel_format d \<in> {0, 1, 2}"
  unfolding parse_video_def by (auto dest!: bind_r_InrD dest: parse_pixel_format_range)

lemma parse_audio_spec:
  assumes "parse_audio a c = Inr d"
  shows "same_frame c d \<and> k_payload_type d = k_payload_type c \<and> k_format d \<in> {0, 1, 2} \<and>
    audio_compatible (k_sample_rate d) (k_packet_time d) \<and> k_packet_time d \<noteq> MESH_AUDIO_PACKET_TIME_0_09MS"
  using assms unfolding parse_audio_def
  by (auto dest!: bind_r_InrD parse_audio_format_range parse_packet_time_range split: if_splits)

lemma parse_payload_type_spec:
  assumes "parse_payload_type j c = Inr d" and "k_payload_type c = MESH_PAYLOAD_TYPE_UNINITIALIZED"
  shows "same_frame c d \<and>
    k_payload_type d \<in> {MESH_PAYLOAD_TYPE_BLOB, MESH_PAYLOAD_TYPE_VIDEO, MESH_PAYLOAD_TYPE_AUDIO}"
  using assms by (auto simp: parse_payload_type_def Let_def split: if_splits)

lemma parse_payload_spec:
  assumes "parse_payload j c = Inr d" and "k_payload_type c = MESH_PAYLOAD_TYPE_UNINITIALIZED"
  shows "same_frame c d \<and>
    k_payload_type d \<in> {MESH_PAYLOAD_TYPE_BLOB, MESH_PAYLOAD_TYPE_VIDEO, MESH_PAYLOAD_TYPE_AUDIO} \<and>
    (k_payload_type d = MESH_PAYLOAD_TYPE_VIDEO \<longrightarrow> k_pixel_format d \<in> {0, 1, 2}) \<and>
    (k_payload_type d = MESH_PAYLOAD_TYPE_AUDIO \<longrightarrow> k_format d \<in> {0, 1, 2} \<and>
       audio_compatible (k_sample_rate d) (k_packet_time d) \<and>
       k_packet_time d \<noteq> MESH_AUDIO_PACKET_TIME_0_09MS)"
proof (cases "contains ''payload'' j")
  case True
  then obtain e where e: "parse_payload_type (member ''payload'' j) c = Inr e"
    and d: "(if k_payload_type e = MESH_PAYLOAD_TYPE_VIDEO then parse_video (member ''video'' (member ''payload'' j)) e
      else if k_payload_type e = MESH_PAYLOAD_TYPE_AUDIO then parse_audio (member ''audio'' (member ''payload'' j)) e
      else Inr e) = Inr d"
    using assms(1) by (auto simp: parse_payload_def Let_def dest!: bind_r_InrD)
  note pe = parse_payload_type_spec [OF e assms(2)]
  consider "k_payload_type e = MESH_PAYLOAD_TYPE_VIDEO" "parse_video (member ''video'' (member ''payload'' j)) e = Inr d"
    | "k_payload_type e = MESH_PAYLOAD_TYPE_AUDIO" "parse_audio (member ''audio'' (member ''payload'' j)) e = Inr d"
    | "k_payload_type e = MESH_PAYLOAD_TYPE_BLOB" "e = d"
    using d pe by (auto split: if_splits)
  then show ?thesis
  proof cases
    case 1
    then show ?thesis using parse_video_spec [OF 1(2)] pe by simp
  next
    case 2
    then show ?thesis using parse_audio_spec [OF 2(2)] pe by simp
  qed (use pe in simp)
qed (use assms in \<open>auto simp: parse_payload_def\<close>)

definition config_ok :: "ConnectionConfig \<Rightarrow> bool" where
  "config_ok c \<longleftrightarrow>
     k_conn_type c \<in> {MESH_CONN_TYPE_GROUP, MESH_CONN_TYPE_ST2110, MESH_CONN_TYPE_RDMA} \<and>
     k_provider c \<in> {''tcp'', ''verbs''} \<and> 1 \<le> k_num_endpoints c \<and> k_num_endpoints c \<le> 8 \<and>
     (if k_payload_type c = MESH_PAYLOAD_TYPE_BLOB
      then k_conn_type c = MESH_CONN_TYPE_GROUP \<and> k_max_payload_size c \<noteq> 0
      else if k_payload_type c = MESH_PAYLOAD_TYPE_VIDEO then k_pixel_format c \<in> {0, 1, 2}
      else k_payload_type c = MESH_PAYLOAD_TYPE_AUDIO \<and> k_format c \<in> {0, 1, 2} \<and>
        audio_compatible (k_sample_rate c) (k_packet_time c))"

lemma parse_from_json_spec:
  assumes "parse_from_json jp doc (new_config kind) = Inr c"
  shows "config_ok c \<and> k_kind c = kind \<and>
    (k_payload_type c = MESH_PAYLOAD_TYPE_AUDIO \<longrightarrow> k_packet_time c \<noteq> MESH_AUDIO_PACKET_TIME_0_09MS)"
proof -
  obtain j cap mp mm delay c1 c2 c3 where
    c1: "parse_connection j ((new_config kind)\<lparr>k_buf_queue_capacity := cap, k_max_payload_size := mp,
      k_max_metadata_size := mm, k_tx_conn_creation_delay := delay\<rparr>) = Inr c1" (is "parse_connection _ ?ini = _")
    and c2: "parse_options j c1 = Inr c2" and c3: "parse_payload j c2 = Inr c3" and c: "check_blob c3 = Inr c"
    using assms by (auto simp: parse_from_json_def dest!: bind_r_InrD split: option.splits)
  have c0: "k_conn_type ?ini = MESH_CONN_TYPE_UNINITIALIZED"
    "k_payload_type ?ini = MESH_PAYLOAD_TYPE_UNINITIALIZED" "k_kind ?ini = kind" "k_provider ?ini = ''tcp''"
    "k_num_endpoints ?ini = 1" by (simp_all add: new_config_def)
  have "k_provider c1 = ''tcp''" "k_num_endpoints c1 = 1"
    using c1 c0(4,5) by (auto simp: parse_connection_def parse_conn_type_def parse_st2110_def Let_def
        dest!: bind_r_InrD split: if_splits)
  note o = parse_options_spec [OF c2 this] and s = parse_connection_spec [OF c1 c0(1)]
  have "k_payload_type c2 = MESH_PAYLOAD_TYPE_UNINITIALIZED" using s o c0(2) by simp
  note p = parse_payload_spec [OF c3 this]
  have "c = c3" "k_payload_type c3 = MESH_PAYLOAD_TYPE_BLOB \<Longrightarrow>
      k_conn_type c3 = MESH_CONN_TYPE_GROUP \<and> k_max_payload_size c3 \<noteq> 0"
    using c by (auto simp: check_blob_def split: if_splits)
  with p o s c0 show ?thesis by (auto simp: config_ok_def)
qed

lemma configure_buf_partitions_sel [simp]:
  "config_ok (configure_buf_partitions c) = config_ok c" "k_kind (configure_buf_partitions c) = k_kind c"
  "k_payload_type (configure_buf_partitions c) = k_payload_type c"
  "k_packet_time (configure_buf_partitions c) = k_packet_time c"
  "k_calculated_payload_size (configure_buf_partitions c) = k_calculated_payload_size c"
  "k_max_metadata_size (configure_buf_partitions c) = k_max_metadata_size c"
  "k_channels (configure_buf_partitions c) = k_channels c" "k_format (configure_buf_partitions c) = k_format c"
  "k_sample_rate (configure_buf_partitions c) = k_sample_rate c"
  by (simp_all add: configure_buf_partitions_def Let_def config_ok_def)

lemma apply_json_configD:
  assumes "apply_json_config jp doc (new_config kind) = Inr c"
  obtains c1 c2 where "parse_from_json jp doc (new_config kind) = Inr c1" "calc_payload_size c1 = Inr c2"
    "c = configure_buf_partitions c2" "c2 = c1\<lparr>k_calculated_payload_size := k_calculated_payload_size c2\<rparr>"
proof -
  obtain c1 c2 where c: "parse_from_json jp doc (new_config kind) = Inr c1" "calc_payload_size c1 = Inr c2"
    "c = configure_buf_partitions c2"
    using assms by (auto simp: apply_json_config_def dest!: bind_r_InrD)
  have "c2 = c1\<lparr>k_calculated_payload_size := k_calculated_payload_size c2\<rparr>"
    using c(2) by (auto simp: calc_payload_size_def calc_video_buf_size_def calc_audio_buf_size_def Let_def
        dest!: bind_r_InrD split: if_splits)
  with c that show ?thesis by blast
qed

lemma accepted_config:
  assumes "apply_json_config jp doc (new_config kind) = Inr c"
  shows "config_ok c \<and> k_kind c = kind \<and>
    (k_payload_type c = MESH_PAYLOAD_TYPE_AUDIO \<longrightarrow> k_packet_time c \<noteq> MESH_AUDIO_PACKET_TIME_0_09MS)"
proof -
  from assms obtain c1 c2 where p: "parse_from_json jp doc (new_config kind) = Inr c1"
    and c: "c = configure_buf_partitions c2"
    and e: "c2 = c1\<lparr>k_calculated_payload_size := k_calculated_payload_size c2\<rparr>"
    by (rule apply_json_configD)
  have "config_ok c2 = config_ok c1" "k_kind c2 = k_kind c1" "k_payload_type c2 = k_payload_type c1"
    "k_packet_time c2 = k_packet_time c1"
    by (subst e, simp add: config_ok_def)+
  then show ?thesis using parse_from_json_spec [OF p] unfolding c by simp
qed

text \<open>
  C31. A configuration document that the SDK accepts is well-formed: one connection type, a known
  provider, one to eight endpoints; a blob payload only on a multipoint group and with a size; a
  known pixel format; a known sample format and a packet time that fits the sample rate. The
  packet time of 0.09 ms is never selected, although the document may name it.
\<close>

theorem accepted_config_well_formed:
  assumes "apply_json_config jp doc (new_config kind) = Inr c"
  shows "config_ok c \<and> k_kind c = kind \<and>
    (k_payload_type c = MESH_PAYLOAD_TYPE_AUDIO \<longrightarrow> k_packet_time c \<noteq> MESH_AUDIO_PACKET_TIME_0_09MS)"
  using accepted_config [OF assms] .

text \<open>The document of the witnesses: an audio stream of 44.1 kHz whose packet time is 0.09 ms.\<close>

definition audio_doc :: "string \<Rightarrow> json option" where
  "audio_doc _ = Some (JObj [(''connection'', JObj [(''multipointGroup'', JObj [(''urn'', JStr ''224.0.0.1'')])]),
     (''payload'', JObj [(''audio'', JObj [(''channels'', JInt 2), (''sampleRate'', JInt 44100),
       (''packetTime'', JStr ''0.09ms'')])])])"

definition audio_cfg :: ConnectionConfig where
  "audio_cfg = (case apply_json_config audio_doc [] (new_config 0) of Inr c \<Rightarrow> c | Inl _ \<Rightarrow> new_config 0)"

lemma audio_cfg_eq: "apply_json_config audio_doc [] (new_config 0) = Inr audio_cfg"
  unfolding audio_cfg_def by code_simp

lemma audio_cfg_sel: "k_packet_time audio_cfg = MESH_AUDIO_PACKET_TIME_1_09MS"
  "k_payload_type audio_cfg = MESH_PAYLOAD_TYPE_AUDIO" "k_channels audio_cfg = 2"
  "k_calculated_payload_size audio_cfg = 288" "k_max_metadata_size audio_cfg = 0"
  by code_simp+

theorem accepted_config_well_formed_witness:
  "\<exists>c. apply_json_config audio_doc [] (new_config 0) = Inr c \<and> config_ok c \<and>
     k_packet_time c = MESH_AUDIO_PACKET_TIME_1_09MS"
  using accepted_config_well_formed [OF audio_cfg_eq] audio_cfg_eq audio_cfg_sel(1) by blast

section \<open>Sizes agree with the data plane\<close>

lemma mk_audio_sel:
  "audio_format (mk_audio f ch s t) = f" "audio_channel (mk_audio f ch s t) = ch"
  "audio_sampling (mk_audio f ch s t) = s" "audio_ptime (mk_audio f ch s t) = t"
proof -
  have "\<not> bit ch (32 + n)" for n using bit_imp_le_length [of ch "32 + n"] by auto
  then show "audio_format (mk_audio f ch s t) = f" "audio_channel (mk_audio f ch s t) = ch"
    "audio_sampling (mk_audio f ch s t) = s" "audio_ptime (mk_audio f ch s t) = t"
    unfolding audio_format_def audio_channel_def audio_sampling_def audio_ptime_def mk_audio_def
    by (auto intro!: bit_word_eqI simp: bit_simps)
qed

lemma channel_cast:
  assumes "0 \<le> ch" and "ch < 65536"
  shows "ucast (word_of_int ch :: u16) = (word_of_int ch :: u32)"
  using assms by (simp add: word_uint_eq_iff unsigned_ucast_eq uint_word_of_int take_bit_int_eq_self)

text \<open>Codes of the configuration and codes of the data plane select the same table entries.\<close>

lemma audio_format_codes:
  "f \<in> {0, 1, 2} \<Longrightarrow>
    \<exists>fmt n. assign_audio_format f = Inr fmt \<and> audio_sample_size fmt = Some n \<and> mesh_sample_size f = Inr n"
  by (auto simp: assign_audio_format_def audio_sample_size_def mesh_sample_size_def)

lemma audio_time_codes:
  assumes "audio_compatible r u"
  shows "\<exists>s t m. assign_sampling r = Inr s \<and> assign_ptime r u = Inr t \<and> audio_sample_num s t = Some m \<and>
    mesh_sample_num r u = Inr m"
proof -
  consider "r = 0" "u \<in> {0, 1, 2, 3, 4, 5}" | "r = 1" "u \<in> {0, 1, 2, 3, 4, 5}" | "r = 2" "u \<in> {6, 7, 8}"
    using assms by (auto simp: audio_compatible_def split: if_splits)
  then show ?thesis
    by cases (auto simp: assign_sampling_def assign_ptime_def audio_sample_num_def mesh_sample_num_def)
qed

text \<open>
  C32. The two places that compute the size of an audio packet agree: for every accepted
  configuration with at most 65535 channels, the parameters handed to the data plane make
  \<open>mcm_calc_audio_buffer_size\<close> succeed with the very size the SDK computed.
\<close>

theorem audio_sizes_agree:
  assumes "apply_json_config jp doc (new_config kind) = Inr c"
    and "k_payload_type c = MESH_PAYLOAD_TYPE_AUDIO" and "0 \<le> k_channels c" and "k_channels c < 65536"
  shows "\<exists>q. assign_to_mcm_conn_param bits c param = Inr q \<and>
    mcm_calc_audio_buffer_size (p_payload_args q) = (0, k_calculated_payload_size c)"
proof -
  from assms(1) obtain c1 c2 where p: "parse_from_json jp doc (new_config kind) = Inr c1"
    and z: "calc_payload_size c1 = Inr c2" and c: "c = configure_buf_partitions c2"
    and e: "c2 = c1\<lparr>k_calculated_payload_size := k_calculated_payload_size c2\<rparr>"
    by (rule apply_json_configD)
  have f: "k_format c2 = k_format c1" "k_sample_rate c2 = k_sample_rate c1" "k_channels c2 = k_channels c1"
    "k_packet_time c2 = k_packet_time c1" "k_payload_type c2 = k_payload_type c1"
    by (subst e, simp)+
  have ch: "ucast (word_of_int (k_channels c1) :: u16) = (word_of_int (k_channels c1) :: u32)"
    using assms(3,4) f(3) c by (simp add: channel_cast)
  have k: "k_payload_type c1 = MESH_PAYLOAD_TYPE_AUDIO" using assms(2) f(5) c by simp
  with parse_from_json_spec [OF p] have "k_format c1 \<in> {0, 1, 2}"
    "audio_compatible (k_sample_rate c1) (k_packet_time c1)" by (auto simp: config_ok_def)
  with audio_format_codes audio_time_codes obtain fmt n s t m where a: "assign_audio_format (k_format c1) = Inr fmt"
    "audio_sample_size fmt = Some n" "mesh_sample_size (k_format c1) = Inr n"
    "assign_sampling (k_sample_rate c1) = Inr s" "assign_ptime (k_sample_rate c1) (k_packet_time c1) = Inr t"
    "audio_sample_num s t = Some m" "mesh_sample_num (k_sample_rate c1) (k_packet_time c1) = Inr m" by metis
  then have "k_calculated_payload_size c2 = n * m * word_of_int (k_channels c1)"
    using z k by (auto simp: calc_payload_size_def calc_audio_buf_size_def)
  with a k show ?thesis
    by (simp add: c f assign_to_mcm_conn_param_def mcm_calc_audio_buffer_size_def mk_audio_sel ch)
qed

theorem audio_sizes_agree_witness:
  "\<exists>q. assign_to_mcm_conn_param (\<lambda>_. 0) audio_cfg param0 = Inr q \<and>
    mcm_calc_audio_buffer_size (p_payload_args q) = (0, 288)"
  using audio_sizes_agree [OF audio_cfg_eq audio_cfg_sel(2), of "\<lambda>_. 0" param0] audio_cfg_sel by simp

section \<open>Layout of a buffer\<close>

lemma align8_unat:
  assumes "unat n + 7 < 2 ^ 32"
  shows "unat (align8 n) = (unat n + 7) div 8 * 8"
proof -
  have a: "unat (n + 7) = unat n + 7" using assms by (subst unat_add_lem [THEN iffD1]) auto
  have "(n + 7) AND NOT 7 = push_bit 3 (drop_bit 3 (n + 7))"
  proof (rule bit_word_eqI)
    fix i :: nat
    have m: "(7 :: u32) = mask 3" by (simp add: mask_eq_exp_minus_1)
    have "bit (7 :: u32) i \<longleftrightarrow> i < 3" by (subst m, simp only: bit_mask_iff) auto
    then show "bit ((n + 7) AND NOT 7) i = bit (push_bit 3 (drop_bit 3 (n + 7))) i" if "i < LENGTH(32)"
      using that by (auto simp: bit_simps)
  qed
  then have "align8 n = push_bit 3 (drop_bit 3 (n + 7))" by (simp add: align8_def)
  also have "unat \<dots> = (unat n + 7) div 8 * 8"
  proof -
    have "(unat n + 7) div 8 * 8 < 2 ^ 32" using assms by linarith
    moreover have "unat (push_bit 3 (drop_bit 3 (n + 7))) = take_bit 32 (push_bit 3 ((unat n + 7) div 8))"
      using assms a take_bit_nat_eq_self [of "unat n + 7" 32]
      by (simp add: unsigned_push_bit_eq unsigned_drop_bit_eq drop_bit_nat_def)
    ultimately show ?thesis by (simp add: push_bit_nat_def take_bit_nat_eq_self)
  qed
  finally show ?thesis .
qed

abbreviation fits :: "ConnectionConfig \<Rightarrow> bool" where
  "fits c \<equiv> unat (k_calculated_payload_size c) + unat (k_max_metadata_size c) + 40 < 2 ^ 32"

lemma partition_sizes:
  assumes "fits c"
  shows "unat (bp_size (bp_sysdata (k_buf_parts (configure_buf_partitions c)))) = 24"
    "unat (bp_offset (bp_payload (k_buf_parts (configure_buf_partitions c)))) = 24"
    "unat (bp_size (bp_payload (k_buf_parts (configure_buf_partitions c)))) =
       (unat (k_calculated_payload_size c) + 7) div 8 * 8"
    "unat (bp_size (bp_metadata (k_buf_parts (configure_buf_partitions c)))) =
       (unat (k_max_metadata_size c) + 7) div 8 * 8"
  using assms align8_unat [of "k_calculated_payload_size c"] align8_unat [of "k_max_metadata_size c"]
    align8_unat [of sizeof_BufferSysData]
  by (simp_all add: configure_buf_partitions_def Let_def sizeof_BufferSysData_def)

lemma unat_u32_lt: "unat (w :: u32) < 2 ^ 64"
proof -
  have "unat w < 2 ^ LENGTH(32)" by (rule unsigned_less)
  then show ?thesis by simp
qed

lemma unat_ucast_u64: "unat (ucast (w :: u32) :: u64) = unat w"
  by (simp add: unsigned_ucast_eq take_bit_nat_eq_self [OF unat_u32_lt])

lemma unat_add_small: "unat (a :: u32) + unat b < 2 ^ 32 \<Longrightarrow> unat (a + b) = unat a + unat b"
  by (simp add: unat_add_lem [THEN iffD1])

lemma partitions_laid_out:
  assumes "unat (k_calculated_payload_size c) + unat (k_max_metadata_size c) + 40 < 2 ^ 32"
    and "k_buf_parts (configure_buf_partitions c) = p"
  shows "unat (bp_offset (bp_sysdata p)) = 0 \<and>
    unat (bp_offset (bp_payload p)) = unat (bp_size (bp_sysdata p)) \<and>
    unat (bp_offset (bp_metadata p)) = unat (bp_offset (bp_payload p)) + unat (bp_size (bp_payload p)) \<and>
    unat (total_size p) = unat (bp_offset (bp_metadata p)) + unat (bp_size (bp_metadata p)) \<and>
    8 dvd unat (bp_offset (bp_payload p)) \<and> 8 dvd unat (bp_offset (bp_metadata p)) \<and>
    unat (k_calculated_payload_size c) \<le> unat (bp_size (bp_payload p)) \<and>
    unat (bp_size (bp_payload p)) < unat (k_calculated_payload_size c) + 8 \<and>
    unat (k_max_metadata_size c) \<le> unat (bp_size (bp_metadata p)) \<and>
    unat (bp_size (bp_metadata p)) < unat (k_max_metadata_size c) + 8"
proof -
  note s = partition_sizes [OF assms(1), unfolded assms(2)]
  have o: "bp_offset (bp_sysdata p) = 0"
    "bp_offset (bp_metadata p) = bp_offset (bp_payload p) + bp_size (bp_payload p)"
    using assms(2) by (auto simp: configure_buf_partitions_def Let_def)
  let ?P = "unat (k_calculated_payload_size c)" and ?M = "unat (k_max_metadata_size c)"
  have b: "(?P + 7) div 8 * 8 < ?P + 8" "?P \<le> (?P + 7) div 8 * 8" "(?M + 7) div 8 * 8 < ?M + 8"
    "?M \<le> (?M + 7) div 8 * 8" by presburger+
  have m: "unat (bp_offset (bp_metadata p)) = 24 + (?P + 7) div 8 * 8"
    unfolding o(2) using s b assms(1) by (subst unat_add_small) auto
  have pm: "unat (bp_size (bp_payload p) + bp_size (bp_metadata p)) = (?P + 7) div 8 * 8 + (?M + 7) div 8 * 8"
    using s b assms(1) by (subst unat_add_small) auto
  have "unat (bp_size (bp_payload p) + bp_size (bp_metadata p) + bp_size (bp_sysdata p)) =
      (?P + 7) div 8 * 8 + (?M + 7) div 8 * 8 + 24"
    using s b assms(1) pm by (subst unat_add_small) auto
  then have "unat (total_size p) = (?P + 7) div 8 * 8 + (?M + 7) div 8 * 8 + 24"
    by (simp add: total_size_def unat_ucast_u64)
  then show ?thesis using s o(1) m b by auto
qed

text \<open>
  C33. The layout of a shared-memory buffer, as long as its size stays below 4 GiB: system data,
  payload and metadata follow each other without gaps or overlap, each partition starts at a
  multiple of eight and is at least as large as what it has to hold, by less than eight bytes, and
  the total is the sum of the three.
\<close>

theorem buffer_partitions_layout:
  assumes "unat (k_calculated_payload_size c) + unat (k_max_metadata_size c) + 40 < 2 ^ 32"
    and "k_buf_parts (configure_buf_partitions c) = p"
  shows "unat (bp_offset (bp_sysdata p)) = 0 \<and>
    unat (bp_offset (bp_payload p)) = unat (bp_size (bp_sysdata p)) \<and>
    unat (bp_offset (bp_metadata p)) = unat (bp_offset (bp_payload p)) + unat (bp_size (bp_payload p)) \<and>
    unat (total_size p) = unat (bp_offset (bp_metadata p)) + unat (bp_size (bp_metadata p)) \<and>
    8 dvd unat (bp_offset (bp_payload p)) \<and> 8 dvd unat (bp_offset (bp_metadata p)) \<and>
    unat (k_calculated_payload_size c) \<le> unat (bp_size (bp_payload p)) \<and>
    unat (bp_size (bp_payload p)) < unat (k_calculated_payload_size c) + 8 \<and>
    unat (k_max_metadata_size c) \<le> unat (bp_size (bp_metadata p)) \<and>
    unat (bp_size (bp_metadata p)) < unat (k_max_metadata_size c) + 8"
  using partitions_laid_out [OF assms] .

theorem buffer_partitions_layout_witness:
  "unat (total_size (k_buf_parts (configure_buf_partitions audio_cfg))) =
     unat (bp_offset (bp_metadata (k_buf_parts (configure_buf_partitions audio_cfg)))) +
     unat (bp_size (bp_metadata (k_buf_parts (configure_buf_partitions audio_cfg)))) \<and>
   288 \<le> unat (bp_size (bp_payload (k_buf_parts (configure_buf_partitions audio_cfg))))"
  using buffer_partitions_layout [of audio_cfg, OF _ refl] audio_cfg_sel(4,5) by simp

end
