(* ===== verification/Proxy_Config.thy ===== *)
theory Proxy_Config
  imports Mesh_Config Connection
begin

text \<open>
  The configuration of a connection on its way from the SDK through the media proxy to the
  agent: the message \<open>sdk::ConnectionConfig\<close> (protos/conn-config.proto), how the SDK fills it
  (\<open>CreateConnectionJson\<close>, sdk/src/mesh_sdk_api.cc), how the proxy reads it into its own \<open>Config\<close>
  and writes it again for the agent (\<open>assign_from_pb\<close>, \<open>assign_to_pb\<close>,
  media-proxy/src/mesh/conn.cc), and the names it logs. A field of a message is \<open>option\<close> where the
  generated code has a \<open>has_\<close> test; a \<open>oneof\<close> is a datatype. An enumeration of the message is
  open, so it is an \<open>int\<close>; a C++ \<open>int\<close> field is kept as the 32-bit word it is stored in.
\<close>

section \<open>The message\<close>

record pb_st2110 =
  m_ip_addr :: string
  m_port :: u32
  m_mcast_sip_addr :: string
  m_transport :: int
  m_pacing :: string
  m_payload_type :: u32

datatype pb_conn = PbGroup string | PbST2110 pb_st2110 | PbRDMA string u32

datatype pb_payload = PbVideo u32 u32 rat int | PbAudio u32 int int int | PbBlob

record pb_config =
  pb_kind :: int
  pb_buf_queue_capacity :: u32
  pb_max_payload_size :: u32
  pb_max_metadata_size :: u32
  pb_calculated_payload_size :: u32
  pb_buf_parts :: "(BufferPartition option \<times> BufferPartition option \<times> BufferPartition option) option"
  pb_conn :: "pb_conn option"
  pb_options :: "(string \<times> u32) option option"
  pb_payload :: "pb_payload option"

definition pb_empty :: pb_config where
  "pb_empty = \<lparr>pb_kind = 0, pb_buf_queue_capacity = 0, pb_max_payload_size = 0, pb_max_metadata_size = 0,
     pb_calculated_payload_size = 0, pb_buf_parts = None, pb_conn = None, pb_options = None,
     pb_payload = None\<rparr>"

section \<open>The proxy's configuration\<close>

abbreviation (input) CONN_TYPE_GROUP :: int where "CONN_TYPE_GROUP \<equiv> 1"
abbreviation (input) CONN_TYPE_ST2110 :: int where "CONN_TYPE_ST2110 \<equiv> 2"
abbreviation (input) CONN_TYPE_RDMA :: int where "CONN_TYPE_RDMA \<equiv> 3"
abbreviation (input) PAYLOAD_TYPE_BLOB :: int where "PAYLOAD_TYPE_BLOB \<equiv> 0"
abbreviation (input) PAYLOAD_TYPE_VIDEO :: int where "PAYLOAD_TYPE_VIDEO \<equiv> 1"
abbreviation (input) PAYLOAD_TYPE_AUDIO :: int where "PAYLOAD_TYPE_AUDIO \<equiv> 2"

record Config =
  x_kind :: int
  x_buf_queue_capacity :: u16
  x_max_payload_size :: u32
  x_max_metadata_size :: u32
  x_calculated_payload_size :: u32
  x_buf_parts :: BufferPartitions
  x_conn_type :: int
  x_urn :: string
  x_ip_addr :: string
  x_port :: u16
  x_mcast_sip_addr :: string
  x_transport :: int
  x_pacing :: string
  x_st_payload_type :: u32
  x_connection_mode :: string
  x_max_latency_ns :: u32
  x_provider :: string
  x_num_endpoints :: u16
  x_payload_type :: int
  x_width :: u32
  x_height :: u32
  x_fps :: rat
  x_pixel_format :: int
  x_channels :: u32
  x_sample_rate :: int
  x_format :: int
  x_packet_time :: int

text \<open>\<open>Config::assign_from_pb\<close>: the parts of the source between its early returns. Each part gives
  the result and the fields assigned so far.\<close>

definition read_parts ::
  "(BufferPartition option \<times> BufferPartition option \<times> BufferPartition option) option \<Rightarrow> BufferPartitions option" where
  "read_parts p = (case p of
      Some (Some pay, Some meta, Some sys) \<Rightarrow>
        Some \<lparr>bp_payload = pay, bp_metadata = meta, bp_sysdata = sys\<rparr>
    | _ \<Rightarrow> None)"

definition read_conn :: "pb_conn \<Rightarrow> Config \<Rightarrow> Config" where
  "read_conn m c = (case m of
      PbGroup urn \<Rightarrow> c\<lparr>x_conn_type := CONN_TYPE_GROUP, x_urn := urn\<rparr>
    | PbST2110 s \<Rightarrow> c\<lparr>x_conn_type := CONN_TYPE_ST2110, x_ip_addr := m_ip_addr s,
        x_port := ucast (m_port s), x_mcast_sip_addr := m_mcast_sip_addr s, x_transport := m_transport s,
        x_pacing := m_pacing s, x_st_payload_type := m_payload_type s\<rparr>
    | PbRDMA mode ns \<Rightarrow> c\<lparr>x_conn_type := CONN_TYPE_RDMA, x_connection_mode := mode,
        x_max_latency_ns := ns\<rparr>)"

definition read_options :: "(string \<times> u32) option option \<Rightarrow> Config \<Rightarrow> Config" where
  "read_options m c = (case m of
      Some (Some (provider, n)) \<Rightarrow> c\<lparr>x_provider := provider, x_num_endpoints := ucast n\<rparr>
    | _ \<Rightarrow> c)"

definition read_payload :: "pb_payload \<Rightarrow> Config \<Rightarrow> Config" where
  "read_payload m c = (case m of
      PbVideo w h fps f \<Rightarrow> c\<lparr>x_payload_type := PAYLOAD_TYPE_VIDEO, x_width := w, x_height := h,
        x_fps := fps, x_pixel_format := f\<rparr>
    | PbAudio ch sr f t \<Rightarrow> c\<lparr>x_payload_type := PAYLOAD_TYPE_AUDIO, x_channels := ch,
        x_sample_rate := sr, x_format := f, x_packet_time := t\<rparr>
    | PbBlob \<Rightarrow> c\<lparr>x_payload_type := PAYLOAD_TYPE_BLOB\<rparr>)"

definition assign_from_pb :: "pb_config \<Rightarrow> Config \<Rightarrow> result \<times> Config" where
  "assign_from_pb m c =
     (let c = c\<lparr>x_kind := pb_kind m\<rparr> in
      if pb_kind m \<noteq> 0 \<and> pb_kind m \<noteq> 1 then (error_conn_config_invalid, c) else
      let c = c\<lparr>x_buf_queue_capacity := ucast (pb_buf_queue_capacity m),
                x_max_payload_size := pb_max_payload_size m, x_max_metadata_size := pb_max_metadata_size m,
                x_calculated_payload_size := pb_calculated_payload_size m\<rparr>
      in case read_parts (pb_buf_parts m) of
           None \<Rightarrow> (error_buf_config_invalid, c)
         | Some parts \<Rightarrow>
             let c = c\<lparr>x_buf_parts := parts\<rparr>
             in case pb_conn m of
                  None \<Rightarrow> (error_conn_config_invalid, c)
                | Some conn \<Rightarrow>
                    let c = read_options (pb_options m) (read_conn conn c)
                    in case pb_payload m of
                         None \<Rightarrow> (error_payload_config_invalid, c)
                       | Some p \<Rightarrow> (success, read_payload p c))"

definition write_parts ::
  "BufferPartitions \<Rightarrow> (BufferPartition option \<times> BufferPartition option \<times> BufferPartition option) option" where
  "write_parts p = Some (Some (bp_payload p), Some (bp_metadata p), Some (bp_sysdata p))"

definition write_conn :: "Config \<Rightarrow> pb_conn option \<Rightarrow> pb_conn option" where
  "write_conn c old =
     (if x_conn_type c = CONN_TYPE_GROUP then Some (PbGroup (x_urn c))
      else if x_conn_type c = CONN_TYPE_ST2110 then
        Some (PbST2110 \<lparr>m_ip_addr = x_ip_addr c, m_port = ucast (x_port c),
          m_mcast_sip_addr = x_mcast_sip_addr c, m_transport = x_transport c, m_pacing = x_pacing c,
          m_payload_type = x_st_payload_type c\<rparr>)
      else if x_conn_type c = CONN_TYPE_RDMA then Some (PbRDMA (x_connection_mode c) (x_max_latency_ns c))
      else old)"

definition write_payload :: "Config \<Rightarrow> pb_payload option \<Rightarrow> pb_payload option" where
  "write_payload c old =
     (if x_payload_type c = PAYLOAD_TYPE_VIDEO
      then Some (PbVideo (x_width c) (x_height c) (x_fps c) (x_pixel_format c))
      else if x_payload_type c = PAYLOAD_TYPE_AUDIO
      then Some (PbAudio (x_channels c) (x_sample_rate c) (x_format c) (x_packet_time c))
      else if x_payload_type c = PAYLOAD_TYPE_BLOB then Some PbBlob
      else old)"

definition assign_to_pb :: "Config \<Rightarrow> pb_config \<Rightarrow> pb_config" where
  "assign_to_pb c m =
     m\<lparr>pb_kind := x_kind c, pb_buf_queue_capacity := ucast (x_buf_queue_capacity c),
       pb_max_payload_size := x_max_payload_size c, pb_max_metadata_size := x_max_metadata_size c,
       pb_calculated_payload_size := x_calculated_payload_size c,
       pb_buf_parts := write_parts (x_buf_parts c), pb_conn := write_conn c (pb_conn m),
       pb_options := Some (Some (x_provider c, ucast (x_num_endpoints c))),
       pb_payload := write_payload c (pb_payload m)\<rparr>"

definition copy_buf_parts_from :: "Config \<Rightarrow> Config \<Rightarrow> Config" where
  "copy_buf_parts_from src c = c\<lparr>x_buf_parts := x_buf_parts src\<rparr>"

section \<open>The SDK's request\<close>

text \<open>\<open>SDKAPIClient::CreateConnectionJson\<close>: the configuration it puts into the request.\<close>

definition sdk_conn :: "ConnectionConfig \<Rightarrow> pb_conn option" where
  "sdk_conn c =
     (if k_conn_type c = MESH_CONN_TYPE_GROUP then Some (PbGroup (k_urn c))
      else if k_conn_type c = MESH_CONN_TYPE_ST2110 then
        Some (PbST2110 \<lparr>m_ip_addr = k_ip_addr c, m_port = ucast (k_port c),
          m_mcast_sip_addr = k_mcast_sip_addr c, m_transport = k_transport c, m_pacing = k_pacing c,
          m_payload_type = ucast (k_st_payload_type c)\<rparr>)
      else if k_conn_type c = MESH_CONN_TYPE_RDMA then Some (PbRDMA (k_connection_mode c) (k_max_latency_ns c))
      else None)"

definition sdk_payload :: "ConnectionConfig \<Rightarrow> pb_payload option" where
  "sdk_payload c =
     (if k_payload_type c = MESH_PAYLOAD_TYPE_VIDEO
      then Some (PbVideo (k_width c) (k_height c) (k_fps c) (k_pixel_format c))
      else if k_payload_type c = MESH_PAYLOAD_TYPE_AUDIO
      then Some (PbAudio (word_of_int (k_channels c)) (k_sample_rate c) (k_format c) (k_packet_time c))
      else if k_payload_type c = MESH_PAYLOAD_TYPE_BLOB then Some PbBlob
      else None)"

definition sdk_request_config :: "ConnectionConfig \<Rightarrow> pb_config" where
  "sdk_request_config c =
     \<lparr>pb_kind = k_kind c, pb_buf_queue_capacity = ucast (k_buf_queue_capacity c),
      pb_max_payload_size = k_max_payload_size c, pb_max_metadata_size = k_max_metadata_size c,
      pb_calculated_payload_size = k_calculated_payload_size c,
      pb_buf_parts = write_parts (k_buf_parts c), pb_conn = sdk_conn c,
      pb_options = Some (Some (k_provider c, ucast (k_num_endpoints c))), pb_payload = sdk_payload c\<rparr>"

section \<open>Names\<close>

definition cfg_kind2str :: "Config \<Rightarrow> string" where
  "cfg_kind2str c = (if x_kind c = 0 then ''tx'' else if x_kind c = 1 then ''rx'' else str_unknown)"

definition conn_type2str :: "Config \<Rightarrow> string" where
  "conn_type2str c =
     (if x_conn_type c = CONN_TYPE_GROUP then ''multipoint-group''
      else if x_conn_type c = CONN_TYPE_ST2110 then ''st2110''
      else if x_conn_type c = CONN_TYPE_RDMA then ''rdma'' else str_unknown)"

definition st2110_transport2str :: "Config \<Rightarrow> string" where
  "st2110_transport2str c =
     (if x_transport c = 0 then ''st2110-20'' else if x_transport c = 1 then ''st2110-22''
      else if x_transport c = 2 then ''st2110-30'' else str_unknown)"

definition payload_type2str :: "Config \<Rightarrow> string" where
  "payload_type2str c =
     (if x_payload_type c = PAYLOAD_TYPE_BLOB then ''blob''
      else if x_payload_type c = PAYLOAD_TYPE_VIDEO then ''video''
      else if x_payload_type c = PAYLOAD_TYPE_AUDIO then ''audio'' else str_unknown)"

definition video_pixel_format2str :: "Config \<Rightarrow> string" where
  "video_pixel_format2str c =
     (if x_pixel_format c = 0 then ''yuv422p10le'' else if x_pixel_format c = 1 then ''v210''
      else if x_pixel_format c = 2 then ''yuv422p10rfc4175'' else str_unknown)"

definition audio_sample_rate2str :: "Config \<Rightarrow> string" where
  "audio_sample_rate2str c =
     (if x_sample_rate c = 0 then ''48K'' else if x_sample_rate c = 1 then ''96K''
      else if x_sample_rate c = 2 then ''44.1K'' else str_unknown)"

definition audio_format2str :: "Config \<Rightarrow> string" where
  "audio_format2str c =
     (if x_format c = 0 then ''pcm_s8'' else if x_format c = 1 then ''pcm_s16be''
      else if x_format c = 2 then ''pcm_s24be'' else str_unknown)"

definition audio_packet_time2str :: "Config \<Rightarrow> string" where
  "audio_packet_time2str c =
     (let t = x_packet_time c in
      if t = 0 then ''1ms'' else if t = 1 then ''125us'' else if t = 2 then ''250us''
      else if t = 3 then ''333us'' else if t = 4 then ''4ms'' else if t = 5 then ''80us''
      else if t = 6 then ''1.09ms'' else if t = 7 then ''0.14ms'' else if t = 8 then ''0.09ms''
      else str_unknown)"

fun result2str :: "result \<Rightarrow> string" where
  "result2str success = ''success''"
| "result2str error_not_supported = ''not supported''"
| "result2str error_wrong_state = ''wrong state''"
| "result2str error_no_link_assigned = ''no link assigned''"
| "result2str error_bad_argument = ''bad argument''"
| "result2str error_out_of_memory = ''out of memory''"
| "result2str error_general_failure = ''general failure''"
| "result2str error_context_cancelled = ''context cancelled''"
| "result2str error_conn_config_invalid = ''invalid conn config''"
| "result2str error_buf_config_invalid = ''invalid buf config''"
| "result2str error_payload_config_invalid = ''invalid payload config''"
| "result2str error_already_initialized = ''already initialized''"
| "result2str error_initialization_failed = ''initialization failed''"
| "result2str error_memory_registration_failed = ''memory registration failed''"
| "result2str error_thread_creation_failed = ''thread creation failed''"
| "result2str error_no_buffer = ''no buffer''"
| "result2str error_timeout = ''timeout''"

text \<open>The names of pixel formats, audio formats and packet times are those the SDK reads: the
  proxy's name for a value the SDK accepted reads back as that value.\<close>

lemma pixel_format_name:
  "x_pixel_format c \<in> {0, 1, 2} \<Longrightarrow> parse_pixel_format (video_pixel_format2str c) = Inr (x_pixel_format c)"
  by (auto simp: parse_pixel_format_def video_pixel_format2str_def)

lemma audio_format_name:
  "x_format c \<in> {0, 1, 2} \<Longrightarrow> parse_audio_format (audio_format2str c) = Inr (x_format c)"
  by (auto simp: parse_audio_format_def audio_format2str_def)

lemma transport_name:
  "x_transport c \<in> {0, 1, 2} \<Longrightarrow> parse_transport (st2110_transport2str c) = Inr (x_transport c)"
  by (auto simp: parse_transport_def st2110_transport2str_def)

section \<open>Round trips\<close>

text \<open>A message a reader understands: what the protocol asks a sender to provide.\<close>

definition pb_complete :: "pb_config \<Rightarrow> bool" where
  "pb_complete m \<longleftrightarrow> pb_kind m \<in> {0, 1} \<and> (\<exists>parts. pb_buf_parts m = write_parts parts) \<and>
     (\<exists>cn. pb_conn m = Some cn) \<and> (\<exists>pr n. pb_options m = Some (Some (pr, n)) \<and> unat n < 2 ^ 16) \<and>
     (\<exists>p. pb_payload m = Some p) \<and> unat (pb_buf_queue_capacity m) < 2 ^ 16 \<and>
     (\<forall>s. pb_conn m = Some (PbST2110 s) \<longrightarrow> unat (m_port s) < 2 ^ 16)"

lemma read_write_parts [simp]: "read_parts (write_parts p) = Some p"
  by (simp add: read_parts_def write_parts_def)

lemma ucast_u16_u32 [simp]:
  assumes "unat (n :: u32) < 2 ^ 16"
  shows "ucast (ucast n :: u16) = n"
  using assms by (simp add: word_unat_eq_iff unsigned_ucast_eq unsigned_take_bit_eq take_bit_nat_eq_self)

lemma unat_ucast_small:
  "unat (ucast (a :: u16) :: u32) < 2 ^ 16" "unat (ucast (b :: u8) :: u32) < 2 ^ 16"
proof -
  have "unat a < 2 ^ LENGTH(16)" "unat b < 2 ^ LENGTH(8)" by (rule unsigned_less)+
  then show "unat (ucast a :: u32) < 2 ^ 16" "unat (ucast b :: u32) < 2 ^ 16"
    by (simp_all add: unsigned_ucast_eq take_bit_nat_eq_self)
qed

lemma write_read_conn:
  assumes "\<And>s. m = PbST2110 s \<Longrightarrow> unat (m_port s) < 2 ^ 16"
  shows "write_conn (read_conn m c) old = Some m"
  using assms by (cases m) (auto simp: write_conn_def read_conn_def)

lemma write_read_payload: "write_payload (read_payload m c) old = Some m"
  by (cases m) (auto simp: write_payload_def read_payload_def)

lemma read_conn_frame [simp]:
  "x_kind (read_conn m c) = x_kind c" "x_buf_queue_capacity (read_conn m c) = x_buf_queue_capacity c"
  "x_max_payload_size (read_conn m c) = x_max_payload_size c"
  "x_max_metadata_size (read_conn m c) = x_max_metadata_size c"
  "x_calculated_payload_size (read_conn m c) = x_calculated_payload_size c"
  "x_buf_parts (read_conn m c) = x_buf_parts c"
  by (cases m; simp add: read_conn_def)+

lemma read_payload_frame [simp]:
  "x_kind (read_payload m c) = x_kind c" "x_buf_queue_capacity (read_payload m c) = x_buf_queue_capacity c"
  "x_max_payload_size (read_payload m c) = x_max_payload_size c"
  "x_max_metadata_size (read_payload m c) = x_max_metadata_size c"
  "x_calculated_payload_size (read_payload m c) = x_calculated_payload_size c"
  "x_buf_parts (read_payload m c) = x_buf_parts c" "x_provider (read_payload m c) = x_provider c"
  "x_num_endpoints (read_payload m c) = x_num_endpoints c"
  "write_conn (read_payload m c) old = write_conn c old"
  by (cases m; simp add: read_payload_def write_conn_def)+

text \<open>Reading a complete message and writing the configuration again gives the message back,
  whatever the configuration held before.\<close>

lemma assign_roundtrip:
  assumes "pb_complete m"
  shows "fst (assign_from_pb m c) = success \<and> assign_to_pb (snd (assign_from_pb m c)) pb_empty = m"
proof -
  obtain parts cn pr n p where m: "pb_kind m \<in> {0, 1}" "pb_buf_parts m = write_parts parts"
    "pb_conn m = Some cn" "pb_options m = Some (Some (pr, n))" "unat n < 2 ^ 16" "pb_payload m = Some p"
    "unat (pb_buf_queue_capacity m) < 2 ^ 16"
    "\<And>s. cn = PbST2110 s \<Longrightarrow> unat (m_port s) < 2 ^ 16"
    using assms unfolding pb_complete_def by (metis option.inject)
  have w: "write_conn (c\<lparr>x_provider := a, x_num_endpoints := b\<rparr>) old = write_conn c old" for c a b old
    by (simp add: write_conn_def)
  show ?thesis
    using m(1-7) write_read_conn [OF m(8)] write_read_payload
    by (auto simp: assign_from_pb_def assign_to_pb_def Let_def read_options_def pb_empty_def w)
qed

lemma sdk_request_complete:
  assumes "config_ok c" and "k_kind c \<in> {0, 1}"
  shows "pb_complete (sdk_request_config c)"
proof -
  have "k_conn_type c \<in> {1, 2, 3}" "k_payload_type c \<in> {0, 1, 2}"
    using assms(1) unfolding config_ok_def by (metis insertI1 insertCI)+
  then have cn: "\<exists>cn. sdk_conn c = Some cn" and p: "\<exists>p. sdk_payload c = Some p"
    unfolding sdk_conn_def sdk_payload_def by force+
  have s: "unat (m_port s) < 2 ^ 16" if "sdk_conn c = Some (PbST2110 s)" for s
    using that unat_ucast_small(1) by (auto simp: sdk_conn_def split: if_splits)
  show ?thesis
    unfolding pb_complete_def sdk_request_config_def pb_config.select_convs
    using assms(2) cn p s unat_ucast_small by blast
qed

text \<open>
  C34. The configuration of a connection survives its way from the SDK to the agent: for every
  document the SDK accepts, the proxy accepts the SDK's message, its own configuration has the
  same buffer partitions and sizes, and the message it registers with the agent is the one the
  SDK sent.
\<close>

theorem config_reaches_agent:
  assumes "apply_json_config jp doc (new_config kind) = Inr c" and "kind = 0 \<or> kind = 1"
    and "assign_from_pb (sdk_request_config c) c0 = (r, x)"
  shows "r = success \<and> assign_to_pb x pb_empty = sdk_request_config c \<and>
    x_buf_parts x = k_buf_parts c \<and> x_calculated_payload_size x = k_calculated_payload_size c"
proof -
  note ok = accepted_config [OF assms(1)]
  have "pb_complete (sdk_request_config c)" using sdk_request_complete ok assms(2) by simp
  from assign_roundtrip [OF this, of c0] assms(3) have
    a: "r = success" "assign_to_pb x pb_empty = sdk_request_config c" by auto
  have "write_parts (x_buf_parts x) = write_parts (k_buf_parts c)"
    using arg_cong [OF a(2), of pb_buf_parts] by (simp add: assign_to_pb_def sdk_request_config_def)
  then have "x_buf_parts x = k_buf_parts c" by (metis read_write_parts option.inject)
  moreover have "x_calculated_payload_size x = k_calculated_payload_size c"
    using arg_cong [OF a(2), of pb_calculated_payload_size]
    by (simp add: assign_to_pb_def sdk_request_config_def)
  ultimately show ?thesis using a by blast
qed

definition config0 :: Config where
  "config0 = \<lparr>x_kind = 0, x_buf_queue_capacity = 0, x_max_payload_size = 0, x_max_metadata_size = 0,
     x_calculated_payload_size = 0, x_buf_parts = k_buf_parts (new_config 0), x_conn_type = 0, x_urn = [],
     x_ip_addr = [], x_port = 0, x_mcast_sip_addr = [], x_transport = 0, x_pacing = [],
     x_st_payload_type = 0, x_connection_mode = [], x_max_latency_ns = 0, x_provider = [],
     x_num_endpoints = 0, x_payload_type = 0, x_width = 0, x_height = 0, x_fps = 0, x_pixel_format = 0,
     x_channels = 0, x_sample_rate = 0, x_format = 0, x_packet_time = 0\<rparr>"

theorem config_reaches_agent_witness:
  "\<exists>x. assign_from_pb (sdk_request_config audio_cfg) config0 = (success, x) \<and>
     assign_to_pb x pb_empty = sdk_request_config audio_cfg \<and> x_calculated_payload_size x = 288"
proof -
  obtain r x where e: "assign_from_pb (sdk_request_config audio_cfg) config0 = (r, x)" by force
  from config_reaches_agent [OF audio_cfg_eq _ e] audio_cfg_sel(4) e show ?thesis by auto
qed

end
