(* ===== verification/Memory.thy ===== *)
theory Memory
  imports Prelude
begin

text \<open>
  Memory as bytes by address, shared by the models of the SDK's buffers and of the RDMA frames, and
  the little-endian bytes of 32-bit and 64-bit words.
\<close>

definition mem_read :: "(nat \<Rightarrow> u8) \<Rightarrow> nat \<Rightarrow> nat \<Rightarrow> u8 list" where
  "mem_read m a n = map m [a..<a + n]"

definition mem_write :: "nat \<Rightarrow> u8 list \<Rightarrow> (nat \<Rightarrow> u8) \<Rightarrow> (nat \<Rightarrow> u8)" where
  "mem_write a bs m = (\<lambda>x. if a \<le> x \<and> x < a + length bs then bs ! (x - a) else m x)"

definition le32 :: "u32 \<Rightarrow> u8 list" where
  "le32 w = [ucast w, ucast (drop_bit 8 w), ucast (drop_bit 16 w), ucast (drop_bit 24 w)]"

definition of_le32 :: "u8 list \<Rightarrow> u32" where
  "of_le32 bs = ucast (bs ! 0) OR push_bit 8 (ucast (bs ! 1)) OR push_bit 16 (ucast (bs ! 2)) OR
     push_bit 24 (ucast (bs ! 3))"

definition le64 :: "u64 \<Rightarrow> u8 list" where
  "le64 w = le32 (ucast w) @ le32 (ucast (drop_bit 32 w))"

definition of_le64 :: "u8 list \<Rightarrow> u64" where
  "of_le64 bs = ucast (of_le32 (take 4 bs)) OR push_bit 32 (ucast (of_le32 (drop 4 bs)))"

lemma length_mem_read [simp]: "length (mem_read m a n) = n"
  by (simp add: mem_read_def)

lemma mem_read_nth [simp]: "i < n \<Longrightarrow> mem_read m a n ! i = m (a + i)"
  by (simp add: mem_read_def)

lemma mem_read_cong: "(\<And>i. i < n \<Longrightarrow> m (a + i) = m' (a' + i)) \<Longrightarrow> mem_read m a n = mem_read m' a' n"
  by (rule nth_equalityI) auto

lemma mem_read_write [simp]: "n = length bs \<Longrightarrow> mem_read (mem_write a bs m) a n = bs"
  by (rule nth_equalityI) (auto simp: mem_write_def)

lemma mem_read_write_other:
  "a + length bs \<le> a' \<or> a' + n \<le> a \<Longrightarrow> mem_read (mem_write a bs m) a' n = mem_read m a' n"
  by (rule mem_read_cong) (auto simp: mem_write_def)

text \<open>A slice of a block that was copied from elsewhere.\<close>

lemma mem_read_copy:
  "off + k \<le> n \<Longrightarrow> mem_read (mem_write a' (mem_read m a n) m') (a' + off) k = mem_read m (a + off) k"
  by (rule mem_read_cong) (auto simp: mem_write_def ac_simps)

lemma length_le32 [simp]: "length (le32 w) = 4"
  by (simp add: le32_def)

lemma of_le32_le32 [simp]: "of_le32 (le32 w) = w"
proof (rule bit_word_eqI)
  fix n assume "n < LENGTH(32)"
  then have "n < 32" by simp
  then consider "n < 8" | "8 \<le> n" "n < 16" | "16 \<le> n" "n < 24" | "24 \<le> n" "n < 32" by linarith
  then show "bit (of_le32 (le32 w)) n = bit w n"
    by cases (auto simp: of_le32_def le32_def bit_simps numeral_2_eq_2 numeral_3_eq_3)
qed

lemma mem_read_append: "mem_read m a (i + j) = mem_read m a i @ mem_read m (a + i) j"
  by (rule nth_equalityI) (auto simp: nth_append)

lemma mem_read_fill:
  "mem_read (mem_write (a + i) bs m) a (i + length bs) = mem_read m a i @ bs"
  by (simp add: mem_read_append mem_read_write_other)

lemma length_le64 [simp]: "length (le64 w) = 8"
  by (simp add: le64_def)

lemma of_le64_le64 [simp]: "of_le64 (le64 w) = w"
proof -
  have "of_le64 (le64 w) = ucast (ucast w :: u32) OR push_bit 32 (ucast (ucast (drop_bit 32 w) :: u32))"
    by (simp add: of_le64_def le64_def)
  also have "\<dots> = w" by (rule bit_word_eqI) (auto simp: bit_simps)
  finally show ?thesis .
qed

end
