(* ===== verification/Mesh_Sdk.thy ===== *)
theory Mesh_Sdk
  imports Mesh_Config Memory
begin

text \<open>
  The SDK's public API, sdk/src/mesh_dp.cc, with the classes behind it: clients (mesh_client.cc),
  connections (mesh_conn.cc) and buffers (mesh_buf.cc). Objects live in a store by address, shared
  memory is an array of bytes, and the system data at the start of a buffer is written and read as
  the bytes it occupies. The functions the classes reach through the table \<open>mesh_internal_ops\<close>
  (data plane and gRPC) and the allocator are calls of the environment. A function returns \<open>None\<close>
  where the source uses an object that does not exist any more.
\<close>

section \<open>Errors\<close>

abbreviation (input) MESH_ERR_BAD_CLIENT_PTR :: int where "MESH_ERR_BAD_CLIENT_PTR \<equiv> 1000"
abbreviation (input) MESH_ERR_BAD_CONN_PTR :: int where "MESH_ERR_BAD_CONN_PTR \<equiv> 1001"
abbreviation (input) MESH_ERR_BAD_CONFIG_PTR :: int where "MESH_ERR_BAD_CONFIG_PTR \<equiv> 1002"
abbreviation (input) MESH_ERR_BAD_BUF_PTR :: int where "MESH_ERR_BAD_BUF_PTR \<equiv> 1003"
abbreviation (input) MESH_ERR_BAD_BUF_LEN :: int where "MESH_ERR_BAD_BUF_LEN \<equiv> 1004"
abbreviation (input) MESH_ERR_CLIENT_CONFIG_INVAL :: int where "MESH_ERR_CLIENT_CONFIG_INVAL \<equiv> 1005"
abbreviation (input) MESH_ERR_MAX_CONN :: int where "MESH_ERR_MAX_CONN \<equiv> 1006"
abbreviation (input) MESH_ERR_FOUND_ALLOCATED :: int where "MESH_ERR_FOUND_ALLOCATED \<equiv> 1007"
abbreviation (input) MESH_ERR_CONN_FAILED :: int where "MESH_ERR_CONN_FAILED \<equiv> 1008"
abbreviation (input) MESH_ERR_CONN_CLOSED :: int where "MESH_ERR_CONN_CLOSED \<equiv> 1011"
abbreviation (input) MESH_ERR_TIMEOUT :: int where "MESH_ERR_TIMEOUT \<equiv> 1012"
abbreviation (input) MESH_ERR_NOT_IMPLEMENTED :: int where "MESH_ERR_NOT_IMPLEMENTED \<equiv> 1013"

definition mesh_err2str :: "int \<Rightarrow> string" where
  "mesh_err2str err =
     (if err = - MESH_ERR_BAD_CLIENT_PTR then ''Bad client pointer''
      else if err = - MESH_ERR_BAD_CONN_PTR then ''Bad connection pointer''
      else if err = - MESH_ERR_BAD_CONFIG_PTR then ''Bad configuration pointer''
      else if err = - MESH_ERR_BAD_BUF_PTR then ''Bad buffer pointer''
      else if err = - MESH_ERR_BAD_BUF_LEN then ''Bad buffer length''
      else if err = - MESH_ERR_CLIENT_CONFIG_INVAL then ''Invalid parameters in client configuration''
      else if err = - MESH_ERR_MAX_CONN then ''Reached max number of connections''
      else if err = - MESH_ERR_FOUND_ALLOCATED then ''Found allocated resources''
      else if err = - MESH_ERR_CONN_FAILED then ''Connection creation failed''
      else if err = - MESH_ERR_CONN_CONFIG_INVAL then ''Invalid parameters in connection configuration''
      else if err = - MESH_ERR_CONN_CONFIG_INCOMPAT then ''Incompatible parameters in connection configuration''
      else if err = - MESH_ERR_CONN_CLOSED then ''Connection is closed''
      else if err = - MESH_ERR_TIMEOUT then ''Timeout occurred''
      else if err = - MESH_ERR_NOT_IMPLEMENTED then ''Feature not implemented yet''
      else ''Unknown error code'')"

section \<open>System data of a buffer\<close>

text \<open>\<open>BufferSysData\<close>: \<open>timestamp_ms\<close> at offset 0, \<open>seq\<close> at 8, \<open>payload_len\<close> at 12, \<open>metadata_len\<close>
  at 16.\<close>

definition set_payload_field :: "nat \<Rightarrow> u32 \<Rightarrow> (nat \<Rightarrow> u8) \<Rightarrow> (nat \<Rightarrow> u8)" where
  "set_payload_field sysdata n = mem_write (sysdata + 12) (le32 n)"

definition set_metadata_field :: "nat \<Rightarrow> u32 \<Rightarrow> (nat \<Rightarrow> u8) \<Rightarrow> (nat \<Rightarrow> u8)" where
  "set_metadata_field sysdata n = mem_write (sysdata + 16) (le32 n)"

definition set_seq_field :: "nat \<Rightarrow> u32 \<Rightarrow> (nat \<Rightarrow> u8) \<Rightarrow> (nat \<Rightarrow> u8)" where
  "set_seq_field sysdata n = mem_write (sysdata + 8) (le32 n)"

definition clear_timestamp :: "nat \<Rightarrow> (nat \<Rightarrow> u8) \<Rightarrow> (nat \<Rightarrow> u8)" where
  "clear_timestamp sysdata = mem_write sysdata (le32 0 @ le32 0)"

definition payload_field :: "nat \<Rightarrow> (nat \<Rightarrow> u8) \<Rightarrow> u32" where
  "payload_field sysdata m = of_le32 (mem_read m (sysdata + 12) 4)"

definition metadata_field :: "nat \<Rightarrow> (nat \<Rightarrow> u8) \<Rightarrow> u32" where
  "metadata_field sysdata m = of_le32 (mem_read m (sysdata + 16) 4)"

section \<open>Objects and calls\<close>

record ClientContext =
  cl_conns :: "nat list"
  cl_grpc_client :: nat
  cl_default_timeout_us :: int
  cl_max_conn_num :: int

record ConnectionContext =
  cx_client :: nat
  cx_payload_size :: u64
  cx_metadata_size :: u64
  cx_handle :: nat
  cx_grpc_conn :: nat
  cx_cfg :: ConnectionConfig

record BufferContext =
  bx_conn :: nat
  bx_payload_ptr :: nat
  bx_payload_len :: u64
  bx_metadata_ptr :: nat
  bx_metadata_len :: u64
  bx_buf :: nat
  bx_data :: nat
  bx_len :: u64

text \<open>The calls the SDK makes, followed by those of the FFmpeg plugin (theory \<open>Ffmpeg_Plugin\<close>).
  \<open>EnqueueBuf\<close> carries the bytes of the buffer at the time of the call.\<close>

datatype mesh_call =
    MNew string | MPushBack | MGetenv string | MUsleep nat
  | GrpcCreateClient string | GrpcDestroyClient nat
  | GrpcCreateConn nat ConnectionConfig | GrpcDestroyConn nat
  | DequeueBuf nat int | EnqueueBuf nat nat "u8 list" | DrainRounds
  | MutexLock | MutexUnlock | ShutdownFlag | NewStream | AvNewPacket int

record mesh_res =
  e_ret :: int
  e_ptr :: nat
  e_handle :: nat
  e_frame_size :: u64
  e_data :: nat
  e_bytes :: "u8 list"
  e_str :: "string option"

type_synonym mesh_env = "(mesh_call, mesh_res) environ"

record mesh_state =
  ms_clients :: "nat \<Rightarrow> ClientContext option"
  ms_conns :: "nat \<Rightarrow> ConnectionContext option"
  ms_bufs :: "nat \<Rightarrow> BufferContext option"
  ms_mem :: "nat \<Rightarrow> u8"
  ms_tr :: "(mesh_call, mesh_res) trace"

definition call_of :: "mesh_env \<Rightarrow> mesh_call \<Rightarrow> mesh_state \<Rightarrow> mesh_res \<times> mesh_state" where
  "call_of env c s = (let (r, tr) = ext_call env c (ms_tr s) in (r, s\<lparr>ms_tr := tr\<rparr>))"

section \<open>Buffers\<close>

definition sysdata_of :: "ConnectionConfig \<Rightarrow> nat \<Rightarrow> nat" where
  "sysdata_of c base = base + unat (bp_offset (bp_sysdata (k_buf_parts c)))"

definition new_buffer_ctx :: "nat \<Rightarrow> BufferContext" where
  "new_buffer_ctx c = \<lparr>bx_conn = c, bx_payload_ptr = 0, bx_payload_len = 0, bx_metadata_ptr = 0,
     bx_metadata_len = 0, bx_buf = 0, bx_data = 0, bx_len = 0\<rparr>"

text \<open>\<open>BufferContext::dequeue\<close>: the context and the code it returns. The transport delivers the
  buffer together with its contents.\<close>

definition buffer_dequeue ::
  "mesh_env \<Rightarrow> int \<Rightarrow> BufferContext \<Rightarrow> mesh_state \<Rightarrow> (int \<times> BufferContext \<times> mesh_state) option" where
  "buffer_dequeue env timeout_ms b s =
     (if bx_conn b = 0 then Some (- MESH_ERR_BAD_CONN_PTR, b, s) else
      case ms_conns s (bx_conn b) of
        None \<Rightarrow> None
      | Some conn \<Rightarrow>
          let cfg = cx_cfg conn;
              (r, s) = call_of env (DequeueBuf (cx_handle conn) timeout_ms) s
          in if e_ptr r = 0 then
               Some (if e_ret r \<noteq> 0 then e_ret r else - MESH_ERR_CONN_CLOSED, b\<lparr>bx_buf := 0\<rparr>, s)
             else
               let len = word_of_nat (length (e_bytes r));
                   base = e_data r;
                   s = s\<lparr>ms_mem := mem_write base (e_bytes r) (ms_mem s)\<rparr>;
                   b = b\<lparr>bx_buf := e_ptr r, bx_data := base, bx_len := len\<rparr>
               in if len \<noteq> total_size (k_buf_parts cfg) then
                    let (_, s) = call_of env (EnqueueBuf (cx_handle conn) base
                                   (mem_read (ms_mem s) base (unat len))) s
                    in Some (- MESH_ERR_BAD_BUF_LEN, b, s)
                  else
                    let sysdata = sysdata_of cfg base;
                        m = ms_mem s;
                        m = (if k_kind cfg = MESH_CONN_KIND_SENDER then
                               set_metadata_field sysdata 0
                                 (set_payload_field sysdata (k_calculated_payload_size cfg) m)
                             else
                               let m = (if payload_field sysdata m > bp_size (bp_payload (k_buf_parts cfg))
                                        then set_payload_field sysdata (bp_size (bp_payload (k_buf_parts cfg))) m
                                        else m)
                               in if metadata_field sysdata m > bp_size (bp_metadata (k_buf_parts cfg))
                                  then set_metadata_field sysdata (bp_size (bp_metadata (k_buf_parts cfg))) m
                                  else m)
                    in Some (0,
                         b\<lparr>bx_payload_ptr := base + unat (bp_offset (bp_payload (k_buf_parts cfg))),
                           bx_payload_len := ucast (payload_field sysdata m),
                           bx_metadata_ptr := base + unat (bp_offset (bp_metadata (k_buf_parts cfg))),
                           bx_metadata_len := ucast (metadata_field sysdata m)\<rparr>,
                         s\<lparr>ms_mem := m\<rparr>))"

text \<open>What \<open>BufferContext::enqueue\<close> of a sender writes into the system data.\<close>

definition stamp_sysdata :: "nat \<Rightarrow> BufferContext \<Rightarrow> (nat \<Rightarrow> u8) \<Rightarrow> (nat \<Rightarrow> u8)" where
  "stamp_sysdata sysdata b m =
     clear_timestamp sysdata (set_seq_field sysdata 0
       (set_metadata_field sysdata (ucast (bx_metadata_len b))
         (set_payload_field sysdata (ucast (bx_payload_len b)) m)))"

definition buffer_enqueue ::
  "mesh_env \<Rightarrow> BufferContext \<Rightarrow> mesh_state \<Rightarrow> (int \<times> mesh_state) option" where
  "buffer_enqueue env b s =
     (if bx_conn b = 0 then Some (- MESH_ERR_BAD_CONN_PTR, s) else
      case ms_conns s (bx_conn b) of
        None \<Rightarrow> None
      | Some conn \<Rightarrow>
          let cfg = cx_cfg conn;
              s = (if k_kind cfg = MESH_CONN_KIND_SENDER
                   then s\<lparr>ms_mem := stamp_sysdata (sysdata_of cfg (bx_data b)) b (ms_mem s)\<rparr> else s);
              (r, s) = call_of env (EnqueueBuf (cx_handle conn) (bx_data b)
                         (mem_read (ms_mem s) (bx_data b) (unat (bx_len b)))) s
          in Some (e_ret r, s))"

definition setPayloadLen :: "u64 \<Rightarrow> BufferContext \<Rightarrow> mesh_state \<Rightarrow> (int \<times> BufferContext) option" where
  "setPayloadLen n b s =
     (if bx_conn b = 0 then Some (- MESH_ERR_BAD_CONN_PTR, b) else
      case ms_conns s (bx_conn b) of
        None \<Rightarrow> None
      | Some conn \<Rightarrow>
          if n > ucast (bp_size (bp_payload (k_buf_parts (cx_cfg conn)))) then Some (- MESH_ERR_BAD_BUF_LEN, b)
          else Some (0, b\<lparr>bx_payload_len := n\<rparr>))"

definition setMetadataLen :: "u64 \<Rightarrow> BufferContext \<Rightarrow> mesh_state \<Rightarrow> (int \<times> BufferContext) option" where
  "setMetadataLen n b s =
     (if bx_conn b = 0 then Some (- MESH_ERR_BAD_CONN_PTR, b) else
      case ms_conns s (bx_conn b) of
        None \<Rightarrow> None
      | Some conn \<Rightarrow>
          if n > ucast (bp_size (bp_metadata (k_buf_parts (cx_cfg conn)))) then Some (- MESH_ERR_BAD_BUF_LEN, b)
          else Some (0, b\<lparr>bx_metadata_len := n\<rparr>))"

section \<open>Clients\<close>

text \<open>\<open>std::getline\<close> on the rest of a string stream: it fails at the end of the stream.\<close>

definition getline :: "char \<Rightarrow> string \<Rightarrow> (string \<times> string) option" where
  "getline delim s = (if s = [] then None else
     Some (takeWhile (\<lambda>c. c \<noteq> delim) s, drop 1 (dropWhile (\<lambda>c. c \<noteq> delim) s)))"

lemma getline_shorter: "getline d s = Some (t, r) \<Longrightarrow> length r < length s"
  using length_dropWhile_le [of "\<lambda>c. c \<noteq> d" s] by (cases s) (auto simp: getline_def)

definition trim :: "string \<Rightarrow> string" where
  "trim s = rev (dropWhile is_space (rev (dropWhile is_space s)))"

definition kv_token :: "string \<Rightarrow> (string \<Rightarrow> string option) \<Rightarrow> (string \<Rightarrow> string option)" where
  "kv_token token m = (case getline (CHR ''='') token of
      None \<Rightarrow> m
    | Some (key, rest) \<Rightarrow>
        (case getline (CHR 10) rest of None \<Rightarrow> m | Some (val, _) \<Rightarrow> m(trim key \<mapsto> trim val)))"

function kv_parse :: "string \<Rightarrow> (string \<Rightarrow> string option) \<Rightarrow> (string \<Rightarrow> string option)" where
  "kv_parse s m = (case getline (CHR '';'') s of
      None \<Rightarrow> m | Some (token, rest) \<Rightarrow> kv_parse rest (kv_token token m))"
  by pat_completeness auto
termination
  by (relation "measure (length \<circ> fst)") (auto dest: getline_shorter)

declare kv_parse.simps [simp del]

text \<open>\<open>ClientConfig::parse_from_json\<close>: default timeout, number of connections, and the address of
  the proxy, from the connection string or else from the process environment.\<close>

definition param_or_env ::
  "mesh_env \<Rightarrow> string option \<Rightarrow> string \<Rightarrow> string \<Rightarrow> mesh_state \<Rightarrow> string \<times> mesh_state" where
  "param_or_env env p name dflt s = (case p of
      Some v \<Rightarrow> (v, s)
    | None \<Rightarrow> (let (r, s) = call_of env (MGetenv name) s
              in (case e_str r of Some v \<Rightarrow> v | None \<Rightarrow> dflt, s)))"

definition client_parse_from_json ::
  "mesh_env \<Rightarrow> (string \<Rightarrow> json option) \<Rightarrow> string \<Rightarrow> mesh_state \<Rightarrow> (int + int \<times> int \<times> string \<times> string) \<times> mesh_state" where
  "client_parse_from_json env json_parse str s = (case json_parse str of
      None \<Rightarrow> (Inl (- MESH_ERR_CLIENT_CONFIG_INVAL), s)
    | Some j \<Rightarrow>
        (case bind_r (value_str ''apiVersion'' ''v1'' j) (\<lambda>_.
              bind_r (value_int ''apiDefaultTimeoutMicroseconds'' 1000000 j) (\<lambda>t.
              bind_r (value_int ''maxMediaConnections'' 32 j) (\<lambda>n.
              bind_r (value_str ''apiConnectionString'' [] j) (\<lambda>cs. Inr (t, n, cs))))) of
           Inl _ \<Rightarrow> (Inl (- MESH_ERR_CLIENT_CONFIG_INVAL), s)
         | Inr (t, n, cs) \<Rightarrow>
             let params = kv_parse cs (\<lambda>_. None);
                 (ip, s) = param_or_env env (params ''Server'') ''MCM_MEDIA_PROXY_IP'' ''127.0.0.1'' s;
                 (port, s) = param_or_env env (params ''Port'') ''MCM_MEDIA_PROXY_PORT'' ''8002'' s
             in (Inr (t, n, ip, port), s)))"

definition client_init ::
  "mesh_env \<Rightarrow> (string \<Rightarrow> json option) \<Rightarrow> string \<Rightarrow> ClientContext \<Rightarrow> mesh_state \<Rightarrow> int \<times> ClientContext \<times> mesh_state" where
  "client_init env json_parse cfg cl s =
     (case client_parse_from_json env json_parse cfg s of
        (Inl e, s) \<Rightarrow> (e, cl, s)
      | (Inr (t, n, ip, port), s) \<Rightarrow>
          let (r, s) = call_of env (GrpcCreateClient (ip @ '':'' @ port)) s
          in (0, cl\<lparr>cl_default_timeout_us := t, cl_max_conn_num := n, cl_grpc_client := e_ptr r\<rparr>, s))"

definition new_client :: ClientContext where
  "new_client = \<lparr>cl_conns = [], cl_grpc_client = 0, cl_default_timeout_us = 0, cl_max_conn_num = 0\<rparr>"

text \<open>An argument of type pointer to pointer is the value it points to, or \<open>None\<close> if it is NULL, and
  so is a string. The results of the API functions are the code returned, the value pointed to
  afterwards, and the state.\<close>

definition mesh_create_client ::
  "mesh_env \<Rightarrow> (string \<Rightarrow> json option) \<Rightarrow> nat option \<Rightarrow> string option \<Rightarrow> mesh_state \<Rightarrow> int \<times> nat \<times> mesh_state" where
  "mesh_create_client env json_parse mcp cfgp s = (case (mcp, cfgp) of
      (None, _) \<Rightarrow> (- MESH_ERR_BAD_CLIENT_PTR, 0, s)
    | (Some mc, None) \<Rightarrow> (- MESH_ERR_BAD_CONFIG_PTR, mc, s)
    | (Some mc, Some cfg) \<Rightarrow>
        let (p, s) = call_of env (MNew ''ClientContext'') s in
        if e_ptr p = 0 then (- ENOMEM, 0, s) else
        let (ret, cl, s) = client_init env json_parse cfg new_client s
        in if ret \<noteq> 0 then (ret, mc, s)
           else (0, e_ptr p, s\<lparr>ms_clients := (ms_clients s)(e_ptr p \<mapsto> cl)\<rparr>))"

definition client_shutdown :: "mesh_env \<Rightarrow> nat \<Rightarrow> mesh_state \<Rightarrow> (int \<times> mesh_state) option" where
  "client_shutdown env mc s = (case ms_clients s mc of
      None \<Rightarrow> None
    | Some cl \<Rightarrow>
        if cl_conns cl \<noteq> [] then Some (- MESH_ERR_FOUND_ALLOCATED, s) else
        let (_, s) = call_of env (GrpcDestroyClient (cl_grpc_client cl)) s
        in Some (0, s\<lparr>ms_clients := (ms_clients s)(mc \<mapsto> cl\<lparr>cl_grpc_client := 0\<rparr>)\<rparr>))"

definition mesh_delete_client :: "mesh_env \<Rightarrow> nat option \<Rightarrow> mesh_state \<Rightarrow> (int \<times> nat \<times> mesh_state) option" where
  "mesh_delete_client env mcp s = (case mcp of
      None \<Rightarrow> Some (- MESH_ERR_BAD_CLIENT_PTR, 0, s)
    | Some mc \<Rightarrow>
        if mc = 0 then Some (- MESH_ERR_BAD_CLIENT_PTR, mc, s) else
        (case client_shutdown env mc s of
           None \<Rightarrow> None
         | Some (err, s) \<Rightarrow>
             if err \<noteq> 0 then Some (err, mc, s)
             else Some (0, 0, s\<lparr>ms_clients := (ms_clients s)(mc := None)\<rparr>)))"

section \<open>Connections\<close>

definition new_conn_ctx :: "nat \<Rightarrow> int \<Rightarrow> ConnectionContext" where
  "new_conn_ctx parent kind = \<lparr>cx_client = parent, cx_payload_size = 0, cx_metadata_size = 0, cx_handle = 0,
     cx_grpc_conn = 0, cx_cfg = new_config kind\<rparr>"

text \<open>\<open>ClientContext::create_conn\<close>. If the list cannot grow, the source deletes the new connection,
  whose destructor takes the mutex the function holds: \<open>None\<close>.\<close>

definition create_conn :: "mesh_env \<Rightarrow> nat \<Rightarrow> nat option \<Rightarrow> int \<Rightarrow> mesh_state \<Rightarrow> (int \<times> nat \<times> mesh_state) option" where
  "create_conn env mc connp kind s = (case connp of
      None \<Rightarrow> Some (- MESH_ERR_BAD_CONN_PTR, 0, s)
    | Some conn \<Rightarrow>
        if kind \<noteq> MESH_CONN_KIND_SENDER \<and> kind \<noteq> MESH_CONN_KIND_RECEIVER
        then Some (- MESH_ERR_CONN_CONFIG_INVAL, conn, s) else
        (case ms_clients s mc of
           None \<Rightarrow> None
         | Some cl \<Rightarrow>
             if int (length (cl_conns cl)) \<ge> cl_max_conn_num cl then Some (- MESH_ERR_MAX_CONN, conn, s) else
             let (p, s) = call_of env (MNew ''ConnectionContext'') s in
             if e_ptr p = 0 then Some (- ENOMEM, conn, s) else
             let (q, s) = call_of env MPushBack s in
             if e_ret q \<noteq> 0 then None
             else Some (0, e_ptr p,
               s\<lparr>ms_conns := (ms_conns s)(e_ptr p \<mapsto> new_conn_ctx mc kind),
                 ms_clients := (ms_clients s)(mc \<mapsto> cl\<lparr>cl_conns := cl_conns cl @ [e_ptr p]\<rparr>)\<rparr>)))"

definition conn_establish :: "mesh_env \<Rightarrow> nat \<Rightarrow> mesh_state \<Rightarrow> (int \<times> mesh_state) option" where
  "conn_establish env c s = (case ms_conns s c of
      None \<Rightarrow> None
    | Some x \<Rightarrow>
        if cx_handle x \<noteq> 0 then Some (- MESH_ERR_BAD_CONN_PTR, s)
        else if cx_client x = 0 then Some (- MESH_ERR_BAD_CLIENT_PTR, s) else
        (case ms_clients s (cx_client x) of
           None \<Rightarrow> None
         | Some cl \<Rightarrow>
             let (r, s) = call_of env (GrpcCreateConn (cl_grpc_client cl) (cx_cfg x)) s in
             if e_ptr r = 0 then
               Some (- MESH_ERR_CONN_FAILED,
                 s\<lparr>ms_conns := (ms_conns s)(c \<mapsto> x\<lparr>cx_grpc_conn := 0, cx_handle := 0\<rparr>)\<rparr>)
             else if e_handle r = 0 then
               Some (- MESH_ERR_CONN_FAILED,
                 s\<lparr>ms_conns := (ms_conns s)(c \<mapsto> x\<lparr>cx_grpc_conn := e_ptr r, cx_handle := 0\<rparr>)\<rparr>)
             else
               let parts = k_buf_parts (cx_cfg x);
                   x = x\<lparr>cx_grpc_conn := e_ptr r, cx_handle := e_handle r,
                         cx_payload_size := ucast (bp_size (bp_payload parts)),
                         cx_metadata_size := ucast (bp_size (bp_metadata parts))\<rparr>;
                   s = s\<lparr>ms_conns := (ms_conns s)(c \<mapsto> x)\<rparr>
               in Some (if total_size parts \<noteq> e_frame_size r then - MESH_ERR_CONN_FAILED else 0, s)))"

definition create_connection ::
  "mesh_env \<Rightarrow> (string \<Rightarrow> json option) \<Rightarrow> int \<Rightarrow> nat \<Rightarrow> nat option \<Rightarrow> string option \<Rightarrow> mesh_state \<Rightarrow>
   (int \<times> nat \<times> mesh_state) option" where
  "create_connection env json_parse kind mc connp cfgp s =
     (let old = (case connp of None \<Rightarrow> 0 | Some c \<Rightarrow> c) in
      if mc = 0 then Some (- MESH_ERR_BAD_CLIENT_PTR, old, s) else
      case cfgp of
        None \<Rightarrow> Some (- MESH_ERR_BAD_CONFIG_PTR, old, s)
      | Some cfg \<Rightarrow>
         (case create_conn env mc connp kind s of
            None \<Rightarrow> None
          | Some (err, conn, s) \<Rightarrow>
              if err \<noteq> 0 then Some (err, conn, s) else
              (case ms_conns s conn of
                 None \<Rightarrow> None
               | Some x \<Rightarrow>
                   (case apply_json_config json_parse cfg (cx_cfg x) of
                      Inl e \<Rightarrow> Some (e, conn, s)
                    | Inr c \<Rightarrow>
                        map_option (\<lambda>(err, s). (err, conn, s))
                          (conn_establish env conn (s\<lparr>ms_conns := (ms_conns s)(conn \<mapsto> x\<lparr>cx_cfg := c\<rparr>)\<rparr>))))))"

definition mesh_create_tx_connection where
  "mesh_create_tx_connection env json_parse = create_connection env json_parse MESH_CONN_KIND_SENDER"

definition mesh_create_rx_connection where
  "mesh_create_rx_connection env json_parse = create_connection env json_parse MESH_CONN_KIND_RECEIVER"

text \<open>The thread that drains a receiver while the connection is being deleted: it makes at most \<open>n\<close> rounds,
  and the result says whether it goes on. The environment decides how many rounds it makes before
  the deletion and how many after it, until it sees the stop request.\<close>

primrec drain :: "nat \<Rightarrow> mesh_env \<Rightarrow> nat \<Rightarrow> mesh_state \<Rightarrow> (bool \<times> mesh_state) option" where
  "drain 0 env c s = Some (True, s)"
| "drain (Suc n) env c s =
     (let (p, s) = call_of env (MNew ''BufferContext'') s in
      if e_ptr p = 0 then Some (False, s) else
      case buffer_dequeue env 500 (new_buffer_ctx c) s of
        None \<Rightarrow> None
      | Some (err, b, s) \<Rightarrow>
          if err \<noteq> 0 then Some (False, s) else
          (case buffer_enqueue env b s of
             None \<Rightarrow> None
           | Some (err, s) \<Rightarrow> if err \<noteq> 0 then Some (False, s) else drain n env c s))"

definition drain_some :: "bool \<Rightarrow> mesh_env \<Rightarrow> nat \<Rightarrow> mesh_state \<Rightarrow> (bool \<times> mesh_state) option" where
  "drain_some running env c s =
     (if \<not> running then Some (False, s)
      else let (n, s) = call_of env DrainRounds s in drain (nat (e_ret n)) env c s)"

definition conn_shutdown :: "mesh_env \<Rightarrow> nat \<Rightarrow> mesh_state \<Rightarrow> (int \<times> mesh_state) option" where
  "conn_shutdown env c s = (case ms_conns s c of
      None \<Rightarrow> None
    | Some x \<Rightarrow>
        if cx_client x = 0 then Some (- MESH_ERR_BAD_CLIENT_PTR, s)
        else if cx_grpc_conn x = 0 then Some (0, s) else
        let gone = (\<lambda>s. s\<lparr>ms_conns := (ms_conns s)(c \<mapsto> x\<lparr>cx_grpc_conn := 0, cx_handle := 0\<rparr>)\<rparr>)
        in if k_kind (cx_cfg x) = MESH_CONN_KIND_SENDER then
             let (_, s) = call_of env (MUsleep 50000) s;
                 (_, s) = call_of env (GrpcDestroyConn (cx_grpc_conn x)) s
             in Some (0, gone s)
           else
             (case drain_some True env c s of
                None \<Rightarrow> None
              | Some (running, s) \<Rightarrow>
                  let (_, s) = call_of env (GrpcDestroyConn (cx_grpc_conn x)) s
                  in map_option (\<lambda>(_, s). (0, gone s)) (drain_some running env c s)))"

definition mesh_shutdown_connection :: "mesh_env \<Rightarrow> nat \<Rightarrow> mesh_state \<Rightarrow> (int \<times> mesh_state) option" where
  "mesh_shutdown_connection env c s =
     (if c = 0 then Some (- MESH_ERR_BAD_CONN_PTR, s) else conn_shutdown env c s)"

text \<open>The destructor removes the connection from its client's list.\<close>

definition delete_conn_ctx :: "nat \<Rightarrow> mesh_state \<Rightarrow> mesh_state option" where
  "delete_conn_ctx c s = (case ms_conns s c of
      None \<Rightarrow> None
    | Some x \<Rightarrow>
        (case ms_clients s (cx_client x) of
           None \<Rightarrow> None
         | Some cl \<Rightarrow>
             Some (s\<lparr>ms_clients := (ms_clients s)(cx_client x \<mapsto> cl\<lparr>cl_conns := filter (\<lambda>a. a \<noteq> c) (cl_conns cl)\<rparr>),
                     ms_conns := (ms_conns s)(c := None)\<rparr>)))"

definition mesh_delete_connection :: "mesh_env \<Rightarrow> nat option \<Rightarrow> mesh_state \<Rightarrow> (int \<times> nat \<times> mesh_state) option" where
  "mesh_delete_connection env cp s = (case cp of
      None \<Rightarrow> Some (- MESH_ERR_BAD_CONN_PTR, 0, s)
    | Some c \<Rightarrow>
        if c = 0 then Some (- MESH_ERR_BAD_CONN_PTR, c, s) else
        (case conn_shutdown env c s of
           None \<Rightarrow> None
         | Some (err, s) \<Rightarrow>
             if err \<noteq> 0 then Some (err, c, s)
             else if map_option cx_client (ms_conns s c) = Some 0 then Some (- MESH_ERR_BAD_CLIENT_PTR, c, s)
             else map_option (\<lambda>s. (0, 0, s)) (delete_conn_ctx c s)))"

section \<open>Buffers of a connection\<close>

abbreviation (input) MESH_TIMEOUT_DEFAULT :: int where "MESH_TIMEOUT_DEFAULT \<equiv> -2"
abbreviation (input) MESH_TIMEOUT_INFINITE :: int where "MESH_TIMEOUT_INFINITE \<equiv> -1"

text \<open>\<open>ConnectionContext::get_buffer_timeout\<close> of the connection \<open>x\<close> at the address \<open>c\<close>.\<close>

definition get_buffer_timeout ::
  "mesh_env \<Rightarrow> nat \<Rightarrow> ConnectionContext \<Rightarrow> nat option \<Rightarrow> int \<Rightarrow> mesh_state \<Rightarrow> (int \<times> nat \<times> mesh_state) option" where
  "get_buffer_timeout env c x bufp timeout_ms s = (case bufp of
      None \<Rightarrow> Some (- MESH_ERR_BAD_BUF_PTR, 0, s)
    | Some old \<Rightarrow>
        let (p, s) = call_of env (MNew ''BufferContext'') s in
        if e_ptr p = 0 then Some (- ENOMEM, old, s) else
        (case (if timeout_ms = MESH_TIMEOUT_DEFAULT \<and> cx_client x \<noteq> 0
               then map_option cl_default_timeout_us (ms_clients s (cx_client x)) else Some timeout_ms) of
           None \<Rightarrow> None
         | Some t \<Rightarrow>
             (case buffer_dequeue env t (new_buffer_ctx c) s of
                None \<Rightarrow> None
              | Some (err, b, s) \<Rightarrow>
                  if err \<noteq> 0 then Some (err, old, s)
                  else Some (0, e_ptr p, s\<lparr>ms_bufs := (ms_bufs s)(e_ptr p \<mapsto> b)\<rparr>))))"

definition mesh_get_buffer_timeout ::
  "mesh_env \<Rightarrow> nat \<Rightarrow> nat option \<Rightarrow> int \<Rightarrow> mesh_state \<Rightarrow> (int \<times> nat \<times> mesh_state) option" where
  "mesh_get_buffer_timeout env c bufp timeout_ms s =
     (if c = 0 then Some (- MESH_ERR_BAD_CONN_PTR, case bufp of None \<Rightarrow> 0 | Some b \<Rightarrow> b, s) else
      case ms_conns s c of
        None \<Rightarrow> None
      | Some x \<Rightarrow> get_buffer_timeout env c x bufp timeout_ms s)"

definition mesh_get_buffer :: "mesh_env \<Rightarrow> nat \<Rightarrow> nat option \<Rightarrow> mesh_state \<Rightarrow> (int \<times> nat \<times> mesh_state) option" where
  "mesh_get_buffer env c bufp s = mesh_get_buffer_timeout env c bufp MESH_TIMEOUT_DEFAULT s"

definition mesh_put_buffer_timeout ::
  "mesh_env \<Rightarrow> nat option \<Rightarrow> int \<Rightarrow> mesh_state \<Rightarrow> (int \<times> nat \<times> mesh_state) option" where
  "mesh_put_buffer_timeout env bufp timeout_ms s = (case bufp of
      None \<Rightarrow> Some (- MESH_ERR_BAD_BUF_PTR, 0, s)
    | Some buf \<Rightarrow>
        if buf = 0 then Some (- MESH_ERR_BAD_BUF_PTR, buf, s) else
        (case ms_bufs s buf of
           None \<Rightarrow> None
         | Some b \<Rightarrow>
             map_option (\<lambda>(err, s). (err, 0, s\<lparr>ms_bufs := (ms_bufs s)(buf := None)\<rparr>))
               (buffer_enqueue env b s)))"

definition mesh_put_buffer :: "mesh_env \<Rightarrow> nat option \<Rightarrow> mesh_state \<Rightarrow> (int \<times> nat \<times> mesh_state) option" where
  "mesh_put_buffer env bufp s = mesh_put_buffer_timeout env bufp MESH_TIMEOUT_DEFAULT s"

definition mesh_buffer_set_payload_len :: "nat \<Rightarrow> u64 \<Rightarrow> mesh_state \<Rightarrow> (int \<times> mesh_state) option" where
  "mesh_buffer_set_payload_len buf n s =
     (if buf = 0 then Some (- MESH_ERR_BAD_BUF_PTR, s) else
      case ms_bufs s buf of
        None \<Rightarrow> None
      | Some b \<Rightarrow>
          map_option (\<lambda>(err, b). (err, s\<lparr>ms_bufs := (ms_bufs s)(buf \<mapsto> b)\<rparr>)) (setPayloadLen n b s))"

definition mesh_buffer_set_metadata_len :: "nat \<Rightarrow> u64 \<Rightarrow> mesh_state \<Rightarrow> (int \<times> mesh_state) option" where
  "mesh_buffer_set_metadata_len buf n s =
     (if buf = 0 then Some (- MESH_ERR_BAD_BUF_PTR, s) else
      case ms_bufs s buf of
        None \<Rightarrow> None
      | Some b \<Rightarrow>
          map_option (\<lambda>(err, b). (err, s\<lparr>ms_bufs := (ms_bufs s)(buf \<mapsto> b)\<rparr>)) (setMetadataLen n b s))"

section \<open>Fields of the system data\<close>

lemma field_simps:
  "payload_field a (set_payload_field a n m) = n"
  "metadata_field a (set_metadata_field a n m) = n"
  "payload_field a (set_metadata_field a n m) = payload_field a m"
  "metadata_field a (set_payload_field a n m) = metadata_field a m"
  "payload_field a (set_seq_field a n m) = payload_field a m"
  "metadata_field a (set_seq_field a n m) = metadata_field a m"
  "payload_field a (clear_timestamp a m) = payload_field a m"
  "metadata_field a (clear_timestamp a m) = metadata_field a m"
  by (simp_all add: payload_field_def metadata_field_def set_payload_field_def set_metadata_field_def
      set_seq_field_def clear_timestamp_def mem_read_write_other)

lemma stamp_fields:
  "payload_field a (stamp_sysdata a b m) = ucast (bx_payload_len b)"
  "metadata_field a (stamp_sysdata a b m) = ucast (bx_metadata_len b)"
  by (simp_all add: stamp_sysdata_def field_simps)

lemma stamp_frame: "a + 20 \<le> p \<Longrightarrow> mem_read (stamp_sysdata a b m) p n = mem_read m p n"
  by (simp add: stamp_sysdata_def set_payload_field_def set_metadata_field_def set_seq_field_def
      clear_timestamp_def mem_read_write_other)

section \<open>A buffer crosses the mesh\<close>

text \<open>A buffer an application may send: it spans the partitions and its lengths fit in them.\<close>

definition tx_buffer_ok :: "BufferPartitions \<Rightarrow> BufferContext \<Rightarrow> bool" where
  "tx_buffer_ok P b \<longleftrightarrow> bx_len b = total_size P \<and>
     bx_payload_ptr b = bx_data b + unat (bp_offset (bp_payload P)) \<and>
     bx_metadata_ptr b = bx_data b + unat (bp_offset (bp_metadata P)) \<and>
     bx_payload_len b \<le> ucast (bp_size (bp_payload P)) \<and>
     bx_metadata_len b \<le> ucast (bp_size (bp_metadata P))"

lemma layout:
  assumes "fits c" and "P = k_buf_parts (configure_buf_partitions c)"
  shows "unat (bp_offset (bp_sysdata P)) = 0" "unat (bp_offset (bp_payload P)) = 24"
    "unat (bp_offset (bp_metadata P)) = 24 + unat (bp_size (bp_payload P))"
    "unat (total_size P) = 24 + unat (bp_size (bp_payload P)) + unat (bp_size (bp_metadata P))"
    "k_calculated_payload_size c \<le> bp_size (bp_payload P)"
  using partitions_laid_out [OF assms(1)] assms(2) partition_sizes [OF assms(1)]
  by (auto simp: word_le_nat_alt)

lemma ucast_le_u64:
  assumes "n \<le> ucast (k :: u32)"
  shows "ucast (ucast (n :: u64) :: u32) = n" "unat n \<le> unat k"
proof -
  have k: "unat k < 2 ^ LENGTH(32)" by (rule unsigned_less)
  show le: "unat n \<le> unat k" using assms by (simp add: word_le_nat_alt unat_ucast_u64)
  with k show "ucast (ucast n :: u32) = n"
    by (simp add: word_unat_eq_iff unsigned_ucast_eq unsigned_take_bit_eq take_bit_nat_eq_self)
qed

lemma dequeue_sender_ok:
  assumes "fits c" and "k_buf_parts (cx_cfg x) = k_buf_parts (configure_buf_partitions c)"
    and "k_calculated_payload_size (cx_cfg x) = k_calculated_payload_size c"
    and "ms_conns s (bx_conn b0) = Some x" and "k_kind (cx_cfg x) = MESH_CONN_KIND_SENDER"
    and "buffer_dequeue env t b0 s = Some (0, b, s')"
  shows "tx_buffer_ok (k_buf_parts (cx_cfg x)) b \<and> bx_conn b = bx_conn b0 \<and>
    bx_payload_len b = ucast (k_calculated_payload_size c) \<and> ms_conns s' = ms_conns s \<and>
    ms_bufs s' = ms_bufs s \<and> ms_clients s' = ms_clients s"
proof -
  have "bx_conn b0 \<noteq> 0" using assms(6) by (intro notI) (simp add: buffer_dequeue_def)
  then show ?thesis
    using assms layout(5) [OF assms(1) refl]
    by (auto simp: buffer_dequeue_def call_of_def ext_call_def Let_def tx_buffer_ok_def field_simps
        word_le_nat_alt unat_ucast_u64 split: if_splits)
qed

text \<open>
  C35. A buffer that a sender puts arrives unchanged: if a receiver with the same partitions is
  given the bytes the sender handed to the transport, it gets the payload and the metadata the
  sender wrote, with the lengths the sender set.
\<close>

theorem buffer_round_trip:
  assumes "unat (k_calculated_payload_size c) + unat (k_max_metadata_size c) + 40 < 2 ^ 32"
    and "P = k_buf_parts (configure_buf_partitions c)"
    and "ms_conns s (bx_conn b) = Some x" and "bx_conn b \<noteq> 0" and "k_buf_parts (cx_cfg x) = P"
    and "k_kind (cx_cfg x) = MESH_CONN_KIND_SENDER" and "tx_buffer_ok P b"
    and "buffer_enqueue env b s = Some (r, s')"
    and "ms_tr s' = ms_tr s @ [(EnqueueBuf h d sent, res)]"
    and "ms_conns t rx = Some y" and "rx \<noteq> 0" and "k_buf_parts (cx_cfg y) = P"
    and "k_kind (cx_cfg y) = MESH_CONN_KIND_RECEIVER"
    and "e_ptr (env' (ms_tr t) (DequeueBuf (cx_handle y) tmo)) \<noteq> 0"
    and "e_bytes (env' (ms_tr t) (DequeueBuf (cx_handle y) tmo)) = sent"
  shows "\<exists>b' t'. buffer_dequeue env' tmo (new_buffer_ctx rx) t = Some (0, b', t') \<and>
    bx_payload_len b' = bx_payload_len b \<and> bx_metadata_len b' = bx_metadata_len b \<and>
    mem_read (ms_mem t') (bx_payload_ptr b') (unat (bx_payload_len b)) =
      mem_read (ms_mem s) (bx_payload_ptr b) (unat (bx_payload_len b)) \<and>
    mem_read (ms_mem t') (bx_metadata_ptr b') (unat (bx_metadata_len b)) =
      mem_read (ms_mem s) (bx_metadata_ptr b) (unat (bx_metadata_len b))"
proof -
  note lay = layout [OF assms(1,2)]
  define m where "m = stamp_sysdata (bx_data b) b (ms_mem s)"
  define q where "q = env' (ms_tr t) (DequeueBuf (cx_handle y) tmo)"
  define n where "n = unat (total_size P)"
  have sent: "sent = mem_read m (bx_data b) n"
    using assms(3-9) lay(1) by (auto simp: buffer_enqueue_def call_of_def ext_call_def Let_def m_def
        sysdata_of_def tx_buffer_ok_def n_def)
  let ?m' = "mem_write (e_data q) sent (ms_mem t)"
  have fld: "payload_field (e_data q) ?m' = ucast (bx_payload_len b)"
    "metadata_field (e_data q) ?m' = ucast (bx_metadata_len b)"
    using stamp_fields [of "bx_data b" b "ms_mem s"] lay(4)
    by (simp_all add: payload_field_def metadata_field_def sent mem_read_copy n_def m_def)
  have pl: "ucast (ucast (bx_payload_len b) :: u32) = bx_payload_len b"
    "unat (bx_payload_len b) \<le> unat (bp_size (bp_payload P))"
    and ml: "ucast (ucast (bx_metadata_len b) :: u32) = bx_metadata_len b"
    "unat (bx_metadata_len b) \<le> unat (bp_size (bp_metadata P))"
    using assms(7) ucast_le_u64 unfolding tx_buffer_ok_def by blast+
  have c: "\<not> bp_size (bp_payload P) < ucast (bx_payload_len b)"
    "\<not> bp_size (bp_metadata P) < ucast (bx_metadata_len b)"
    using pl ml by (metis not_less unat_ucast_u64 word_le_nat_alt)+
  have len: "word_of_nat (length sent) = total_size P" by (simp add: sent n_def)
  have "buffer_dequeue env' tmo (new_buffer_ctx rx) t = Some (0, (new_buffer_ctx rx)\<lparr>
      bx_buf := e_ptr q, bx_data := e_data q, bx_len := total_size P,
      bx_payload_ptr := e_data q + unat (bp_offset (bp_payload P)),
      bx_payload_len := bx_payload_len b,
      bx_metadata_ptr := e_data q + unat (bp_offset (bp_metadata P)),
      bx_metadata_len := bx_metadata_len b\<rparr>,
      t\<lparr>ms_tr := ms_tr t @ [(DequeueBuf (cx_handle y) tmo, q)], ms_mem := ?m'\<rparr>)"
    using assms(10-15) lay(1) fld c len pl ml
    by (simp add: buffer_dequeue_def call_of_def ext_call_def Let_def new_buffer_ctx_def sysdata_of_def
        q_def [symmetric])
  moreover have "mem_read ?m' (e_data q + unat (bp_offset (bp_payload P))) (unat (bx_payload_len b)) =
      mem_read (ms_mem s) (bx_payload_ptr b) (unat (bx_payload_len b))"
    using assms(7) lay pl(2)
    by (simp add: sent mem_read_copy n_def m_def stamp_frame tx_buffer_ok_def)
  moreover have "mem_read ?m' (e_data q + unat (bp_offset (bp_metadata P))) (unat (bx_metadata_len b)) =
      mem_read (ms_mem s) (bx_metadata_ptr b) (unat (bx_metadata_len b))"
    using assms(7) lay ml(2)
    by (simp add: sent mem_read_copy n_def m_def stamp_frame tx_buffer_ok_def)
  ultimately show ?thesis by auto
qed

text \<open>A sender whose shared memory holds at each address the low byte of that address, and a
  receiver that is given what it sent.\<close>

definition mesh_res0 :: mesh_res where
  "mesh_res0 = \<lparr>e_ret = 0, e_ptr = 0, e_handle = 0, e_frame_size = 0, e_data = 0, e_bytes = [], e_str = None\<rparr>"

definition demo_conn :: "int \<Rightarrow> ConnectionContext" where
  "demo_conn kind = (new_conn_ctx 1 kind)\<lparr>cx_handle := 3, cx_grpc_conn := 2,
     cx_cfg := (configure_buf_partitions audio_cfg)\<lparr>k_kind := kind\<rparr>\<rparr>"

definition demo_state :: "int \<Rightarrow> mesh_state" where
  "demo_state kind = \<lparr>ms_clients = (\<lambda>_. None), ms_conns = [5 \<mapsto> demo_conn kind], ms_bufs = (\<lambda>_. None),
     ms_mem = word_of_nat, ms_tr = []\<rparr>"

definition demo_buf :: BufferContext where
  "demo_buf = \<lparr>bx_conn = 5, bx_payload_ptr = 1024, bx_payload_len = 3, bx_metadata_ptr = 1312,
     bx_metadata_len = 0, bx_buf = 9, bx_data = 1000, bx_len = 312\<rparr>"

definition demo_sent :: "u8 list" where
  "demo_sent = mem_read (stamp_sysdata 1000 demo_buf word_of_nat) 1000 312"

definition delivering :: mesh_env where
  "delivering tr c = mesh_res0\<lparr>e_ptr := 4, e_data := 5000, e_bytes := demo_sent\<rparr>"

lemma demo_parts:
  "bp_size (bp_payload (k_buf_parts (configure_buf_partitions audio_cfg))) = 288"
  "bp_offset (bp_payload (k_buf_parts (configure_buf_partitions audio_cfg))) = 24"
  "bp_offset (bp_metadata (k_buf_parts (configure_buf_partitions audio_cfg))) = 312"
  "bp_offset (bp_sysdata (k_buf_parts (configure_buf_partitions audio_cfg))) = 0"
  "total_size (k_buf_parts (configure_buf_partitions audio_cfg)) = 312"
  by (simp_all add: configure_buf_partitions_def Let_def audio_cfg_sel align8_def sizeof_BufferSysData_def
      total_size_def)

theorem buffer_round_trip_witness:
  "\<exists>b' t'. buffer_dequeue delivering 1000 (new_buffer_ctx 5) (demo_state 1) = Some (0, b', t') \<and>
     bx_payload_len b' = 3 \<and> mem_read (ms_mem t') (bx_payload_ptr b') 3 = [0, 1, 2]"
proof -
  let ?P = "k_buf_parts (configure_buf_partitions audio_cfg)"
  obtain s' where e: "buffer_enqueue (\<lambda>_ _. mesh_res0) demo_buf (demo_state 0) = Some (0, s')"
    "ms_tr s' = ms_tr (demo_state 0) @ [(EnqueueBuf 3 1000 demo_sent, mesh_res0)]"
    by (auto simp: buffer_enqueue_def demo_buf_def demo_state_def demo_conn_def call_of_def ext_call_def
        Let_def sysdata_of_def demo_parts demo_sent_def mesh_res0_def)
  have f: "unat (k_calculated_payload_size audio_cfg) + unat (k_max_metadata_size audio_cfg) + 40 < 2 ^ 32"
    by (simp add: audio_cfg_sel)
  have ok: "tx_buffer_ok ?P demo_buf" by (simp add: tx_buffer_ok_def demo_buf_def demo_parts)
  have "mem_read (ms_mem (demo_state 0)) (bx_payload_ptr demo_buf) (unat (bx_payload_len demo_buf)) = [0, 1, 2]"
    by (simp add: demo_state_def demo_buf_def mem_read_def upt_conv_Cons)
  with buffer_round_trip [OF f refl _ _ _ _ ok e, where x = "demo_conn 0" and y = "demo_conn 1" and
      t = "demo_state 1" and rx = 5 and env' = delivering and tmo = 1000]
  show ?thesis by (simp add: demo_state_def demo_buf_def demo_conn_def delivering_def) blast
qed

end
