(* ===== verification/Ffmpeg_Plugin.thy ===== *)
theory Ffmpeg_Plugin
  imports Mesh_Sdk
begin

text \<open>
  The FFmpeg plugin, ffmpeg-plugin/*.c: the client shared by all inputs and outputs of a process
  with its reference count and signal handlers (mcm_common.c), and the video and audio muxers and
  demuxers. The plugin is written over the model of the SDK in the theory \<open>Mesh_Sdk\<close>. What it uses
  of FFmpeg (names of formats, the text of a frame rate, allocation of streams and packets) is an
  argument or a call of the environment. Log messages are left out.
\<close>

section \<open>Text of a configuration\<close>

definition mcm_replace_back_quotes :: "string \<Rightarrow> string" where
  "mcm_replace_back_quotes s = map (\<lambda>c. if c = CHR ''`'' then CHR 34 else c) s"

text \<open>The conversions of \<open>snprintf\<close> that the plugin uses: \<open>%u\<close>, \<open>%d\<close>, \<open>%s\<close>, \<open>%0.2f\<close>. The text of a
  floating-point number is part of the argument.\<close>

datatype fmt_arg = ArgU u32 | ArgD int | ArgS string | ArgF string

fun fmt_text :: "fmt_arg \<Rightarrow> string" where
  "fmt_text (ArgU n) = dec (unat n)"
| "fmt_text (ArgD i) = sdec i"
| "fmt_text (ArgS s) = s"
| "fmt_text (ArgF s) = s"

fun c_format :: "string \<Rightarrow> fmt_arg list \<Rightarrow> string" where
  "c_format [] args = []"
| "c_format (c # f) args =
     (if c = CHR ''%'' then
        (case args of
           [] \<Rightarrow> []
         | a # as \<Rightarrow> fmt_text a @ c_format (drop (if take 1 f = ''0'' then 4 else 1) f) as)
      else c # c_format f args)"

definition c_snprintf :: "nat \<Rightarrow> string \<Rightarrow> fmt_arg list \<Rightarrow> string" where
  "c_snprintf n f args = take (n - 1) (c_format f args)"

definition client_json_config_format :: string where
  "client_json_config_format =
     ''{`apiVersion`: `v1`,`apiConnectionString`: `Server=; Port=`,'' @
     ''`apiDefaultTimeoutMicroseconds`: 100000,`maxMediaConnections`: 32}''"

definition mcm_json_config_multipoint_group_video_format :: string where
  "mcm_json_config_multipoint_group_video_format =
     ''{`bufferQueueCapacity`: %u,`connCreationDelayMilliseconds`: %u,'' @
     ''`connection`: {`multipointGroup`: {`urn`: `%s`}},'' @
     ''`options`: {`rdma`: {`provider`: `%s`,`num_endpoints`: %d}},'' @
     ''`payload`: {`video`: {`width`: %d,`height`: %d,`fps`: %0.2f,`pixelFormat`: `%s`}}}''"

definition mcm_json_config_st2110_video_format :: string where
  "mcm_json_config_st2110_video_format =
     ''{`bufferQueueCapacity`: %u,`connCreationDelayMilliseconds`: %u,'' @
     ''`connection`: {`st2110`: {`ipAddr`: `%s`,`port`: %d,`multicastSourceIpAddr`: `%s`,'' @
     ''`transport`: `%s`,`payloadType`: %d,`transportPixelFormat`: `%s`}},'' @
     ''`options`: {`rdma`: {`provider`: `%s`,`num_endpoints`: %d}},'' @
     ''`payload`: {`video`: {`width`: %d,`height`: %d,`fps`: %0.2f,`pixelFormat`: `%s`}}}''"

definition mcm_json_config_multipoint_group_audio_format :: string where
  "mcm_json_config_multipoint_group_audio_format =
     ''{`bufferQueueCapacity`: %u,`connCreationDelayMilliseconds`: %u,'' @
     ''`connection`: {`multipointGroup`: {`urn`: `%s`}},'' @
     ''`options`: {`rdma`: {`provider`: `%s`,`num_endpoints`: %d}},'' @
     ''`payload`: {`audio`: {`channels`: %d,`sampleRate`: %d,`format`: `%s`,`packetTime`: `%s`}}}''"

definition mcm_json_config_st2110_audio_format :: string where
  "mcm_json_config_st2110_audio_format =
     ''{`bufferQueueCapacity`: %u,`connCreationDelayMilliseconds`: %u,'' @
     ''`connection`: {`st2110`: {`ipAddr`: `%s`,`port`: %d,`multicastSourceIpAddr`: `%s`,'' @
     ''`transport`: `st2110-30`,`payloadType`: %d}},'' @
     ''`options`: {`rdma`: {`provider`: `%s`,`num_endpoints`: %d}},'' @
     ''`payload`: {`audio`: {`channels`: %d,`sampleRate`: %d,`format`: `%s`,`packetTime`: `%s`}}}''"

section \<open>The shared client\<close>

text \<open>Signal dispositions. \<open>SIG_DFL\<close> is the null pointer and \<open>SIG_IGN\<close> the address 1.\<close>

datatype sighandler = SIG_DFL | SIG_IGN | McmHandler | OtherHandler nat

datatype signal_no = SIGINT | SIGTERM

record mcm_globals =
  g_client :: nat
  g_refcnt :: int
  g_shutdown_requested :: bool
  g_prev_SIGINT_handler :: sighandler
  g_prev_SIGTERM_handler :: sighandler
  g_disp_SIGINT :: sighandler
  g_disp_SIGTERM :: sighandler
  g_sdk :: mesh_state

text \<open>\<open>mcm_handle_signal\<close> calls the handler that was installed before; \<open>fuel\<close> bounds the depth of
  the calls, since that handler may be this function. Other handlers return; a call to \<open>SIG_IGN\<close>
  jumps to the address 1.\<close>

fun mcm_handle_signal :: "nat \<Rightarrow> signal_no \<Rightarrow> mcm_globals \<Rightarrow> mcm_globals outcome" where
  "mcm_handle_signal 0 sig g = OutOfFuel"
| "mcm_handle_signal (Suc fuel) sig g =
     (let g = g\<lparr>g_shutdown_requested := True\<rparr>;
          prev = (case sig of SIGINT \<Rightarrow> g_prev_SIGINT_handler g | SIGTERM \<Rightarrow> g_prev_SIGTERM_handler g)
      in case prev of
           SIG_DFL \<Rightarrow> Returns g
         | SIG_IGN \<Rightarrow> Segfault
         | McmHandler \<Rightarrow> mcm_handle_signal fuel sig g
         | OtherHandler n \<Rightarrow> Returns g)"

text \<open>The flag is set by the signal handler at any time, so reading it asks the environment.\<close>

definition sdk_call_of :: "mesh_env \<Rightarrow> mesh_call \<Rightarrow> mcm_globals \<Rightarrow> mesh_res \<times> mcm_globals" where
  "sdk_call_of env c g = (let (r, s) = call_of env c (g_sdk g) in (r, g\<lparr>g_sdk := s\<rparr>))"

definition mcm_shutdown_requested :: "mesh_env \<Rightarrow> mcm_globals \<Rightarrow> bool \<times> mcm_globals" where
  "mcm_shutdown_requested env g = (let (r, g) = sdk_call_of env ShutdownFlag g in (e_ret r \<noteq> 0, g))"

definition install_handlers :: "mcm_globals \<Rightarrow> mcm_globals" where
  "install_handlers g =
     (let g = (if g_prev_SIGINT_handler g = SIG_DFL
               then g\<lparr>g_prev_SIGINT_handler := g_disp_SIGINT g, g_disp_SIGINT := McmHandler\<rparr> else g)
      in if g_prev_SIGTERM_handler g = SIG_DFL
         then g\<lparr>g_prev_SIGTERM_handler := g_disp_SIGTERM g, g_disp_SIGTERM := McmHandler\<rparr> else g)"

definition mcm_get_client ::
  "mesh_env \<Rightarrow> (string \<Rightarrow> json option) \<Rightarrow> nat \<Rightarrow> mcm_globals \<Rightarrow> int \<times> nat \<times> mcm_globals" where
  "mcm_get_client env json_parse mc g =
     (let (l, g) = sdk_call_of env MutexLock g in
      if e_ret l \<noteq> 0 then (e_ret l, mc, g) else
      let (err, g) =
        (if g_client g = 0 then
           (let json = mcm_replace_back_quotes (c_snprintf 250 client_json_config_format []);
                (err, c, s) = mesh_create_client env json_parse (Some 0) (Some json) (g_sdk g);
                g = g\<lparr>g_sdk := s\<rparr>
            in if err \<noteq> 0 then (err, g\<lparr>g_client := 0\<rparr>)
               else (err, (install_handlers (g\<lparr>g_client := c\<rparr>))\<lparr>g_refcnt := 1\<rparr>))
         else (0, g\<lparr>g_refcnt := g_refcnt g + 1\<rparr>));
          (_, g) = sdk_call_of env MutexUnlock g
      in (err, g_client g, g))"

definition mcm_put_client ::
  "mesh_env \<Rightarrow> nat \<Rightarrow> mcm_globals \<Rightarrow> (int \<times> nat \<times> mcm_globals) option" where
  "mcm_put_client env mc g =
     (let (l, g) = sdk_call_of env MutexLock g in
      if e_ret l \<noteq> 0 then Some (e_ret l, mc, g) else
      case (if g_client g = 0 then Some (- EINVAL, mc, g)
            else
              let g = g\<lparr>g_refcnt := g_refcnt g - 1\<rparr> in
              if g_refcnt g = 0 then
                map_option (\<lambda>(_, c, s). (0, 0, g\<lparr>g_client := c, g_sdk := s\<rparr>))
                  (mesh_delete_client env (Some (g_client g)) (g_sdk g))
              else Some (0, 0, g)) of
        None \<Rightarrow> None
      | Some (err, mc, g) \<Rightarrow> Some (err, mc, snd (sdk_call_of env MutexUnlock g)))"

section \<open>Contexts\<close>

text \<open>What the plugin uses of FFmpeg: the name of a pixel format, the text of a frame rate with two
  decimals, the name of a codec.\<close>

record av_lib =
  av_get_pix_fmt_name :: "int \<Rightarrow> string"
  av_fps_text :: "int \<times> int \<Rightarrow> string"
  avcodec_get_name :: "int \<Rightarrow> string"

definition EIO :: int where "EIO = 5"
definition AVERROR_EXIT :: int where "AVERROR_EXIT = - 1414092869"
definition AVERROR_EOF :: int where "AVERROR_EOF = - 541478725"

text \<open>The options and state that the four contexts share. Only the demuxers have \<open>mcast_sip_addr\<close>. The
  options \<open>socket_name\<close> and \<open>interface_id\<close>, which no function reads, are left out.\<close>

record mcm_ctx =
  buf_queue_cap :: u32
  conn_delay :: u32
  conn_type :: string
  urn :: string
  ip_addr :: string
  port :: int
  mcast_sip_addr :: string
  payload_type :: int
  rdma_provider :: string
  rdma_num_endpoints :: int
  mc :: nat
  conn :: nat

record McmVideoMuxerContext = mcm_ctx +
  vt_transport :: string
  vt_transport_pixel_format :: string
  vt_width :: int
  vt_height :: int
  vt_pixel_format :: int
  vt_frame_rate :: "int \<times> int"

record McmVideoDemuxerContext = mcm_ctx +
  vr_transport :: string
  vr_transport_pixel_format :: string
  vr_width :: int
  vr_height :: int
  vr_pixel_format :: int
  vr_frame_rate :: "int \<times> int"
  vr_first_frame :: bool

record McmAudioMuxerContext = mcm_ctx +
  at_channels :: int
  at_sample_rate :: int
  at_ptime :: string
  at_unsent_buf :: nat
  at_unsent_len :: nat

record McmAudioDemuxerContext = mcm_ctx +
  ar_channels :: int
  ar_sample_rate :: int
  ar_ptime :: string
  ar_first_frame :: bool

section \<open>Opening and closing\<close>

text \<open>The configuration of a connection, or \<open>None\<close> for a connection type the plugin does not know.
  A muxer has no multicast source address; it passes the empty string.\<close>

definition video_json ::
  "av_lib \<Rightarrow> 'a mcm_ctx_scheme \<Rightarrow> string \<Rightarrow> string \<Rightarrow> string \<Rightarrow> int \<Rightarrow> int \<Rightarrow> int \<times> int \<Rightarrow> int \<Rightarrow> string option" where
  "video_json av s sip transport tpf width height frame_rate pixel_format =
     (if conn_type s = ''multipoint-group'' then
        Some (c_snprintf 1024 mcm_json_config_multipoint_group_video_format
          [ArgU (buf_queue_cap s), ArgU (conn_delay s), ArgS (urn s), ArgS (rdma_provider s),
           ArgD (rdma_num_endpoints s), ArgD width, ArgD height, ArgF (av_fps_text av frame_rate),
           ArgS (av_get_pix_fmt_name av pixel_format)])
      else if conn_type s = ''st2110'' then
        Some (c_snprintf 1024 mcm_json_config_st2110_video_format
          [ArgU (buf_queue_cap s), ArgU (conn_delay s), ArgS (ip_addr s), ArgD (port s), ArgS sip,
           ArgS transport, ArgD (payload_type s), ArgS tpf, ArgS (rdma_provider s),
           ArgD (rdma_num_endpoints s), ArgD width, ArgD height, ArgF (av_fps_text av frame_rate),
           ArgS (av_get_pix_fmt_name av pixel_format)])
      else None)"

definition audio_json ::
  "av_lib \<Rightarrow> 'a mcm_ctx_scheme \<Rightarrow> string \<Rightarrow> int \<Rightarrow> int \<Rightarrow> int \<Rightarrow> string \<Rightarrow> string option" where
  "audio_json av s sip channels sample_rate codec_id ptime =
     (if conn_type s = ''multipoint-group'' then
        Some (c_snprintf 1024 mcm_json_config_multipoint_group_audio_format
          [ArgU (buf_queue_cap s), ArgU (conn_delay s), ArgS (urn s), ArgS (rdma_provider s),
           ArgD (rdma_num_endpoints s), ArgD channels, ArgD sample_rate,
           ArgS (avcodec_get_name av codec_id), ArgS ptime])
      else if conn_type s = ''st2110'' then
        Some (c_snprintf 1024 mcm_json_config_st2110_audio_format
          [ArgU (buf_queue_cap s), ArgU (conn_delay s), ArgS (ip_addr s), ArgD (port s), ArgS sip,
           ArgD (payload_type s), ArgS (rdma_provider s), ArgD (rdma_num_endpoints s), ArgD channels,
           ArgD sample_rate, ArgS (avcodec_get_name av codec_id), ArgS ptime])
      else None)"

text \<open>The first half of every header function: get the client, format the configuration, create the
  connection; on failure give the client back.\<close>

definition open_conn ::
  "mesh_env \<Rightarrow> (string \<Rightarrow> json option) \<Rightarrow> int \<Rightarrow> string option \<Rightarrow> 'a mcm_ctx_scheme \<Rightarrow> mcm_globals \<Rightarrow>
   (int \<times> 'a mcm_ctx_scheme \<times> mcm_globals) option" where
  "open_conn env json_parse kind json s g =
     (let (err, c, g) = mcm_get_client env json_parse (mc s) g;
          s = s\<lparr>mc := c\<rparr>
      in if err \<noteq> 0 then Some (- EINVAL, s, g) else
      case json of
        None \<Rightarrow> Some (- EINVAL, s, g)
      | Some text \<Rightarrow>
         (case create_connection env json_parse kind (mc s) (Some (conn s))
                 (Some (mcm_replace_back_quotes text)) (g_sdk g) of
            None \<Rightarrow> None
          | Some (err, c, sdk) \<Rightarrow>
              let s = s\<lparr>conn := c\<rparr>; g = g\<lparr>g_sdk := sdk\<rparr> in
              if err \<noteq> 0 then
                map_option (\<lambda>(_, m, g). (- EIO, s\<lparr>mc := m\<rparr>, g)) (mcm_put_client env (mc s) g)
              else Some (0, s, g)))"

definition delete_conn :: "mesh_env \<Rightarrow> 'a mcm_ctx_scheme \<Rightarrow> mcm_globals \<Rightarrow> ('a mcm_ctx_scheme \<times> mcm_globals) option" where
  "delete_conn env s g =
     map_option (\<lambda>(_, c, sdk). (s\<lparr>conn := c\<rparr>, g\<lparr>g_sdk := sdk\<rparr>)) (mesh_delete_connection env (Some (conn s)) (g_sdk g))"

definition put_client :: "mesh_env \<Rightarrow> 'a mcm_ctx_scheme \<Rightarrow> mcm_globals \<Rightarrow> ('a mcm_ctx_scheme \<times> mcm_globals) option" where
  "put_client env s g = map_option (\<lambda>(_, m, g). (s\<lparr>mc := m\<rparr>, g)) (mcm_put_client env (mc s) g)"

definition mcm_video_write_header where
  "mcm_video_write_header env json_parse av s g =
     open_conn env json_parse MESH_CONN_KIND_SENDER
       (video_json av s [] (vt_transport s) (vt_transport_pixel_format s) (vt_width s) (vt_height s)
         (vt_frame_rate s) (vt_pixel_format s)) s g"

definition mcm_video_read_header ::
  "mesh_env \<Rightarrow> (string \<Rightarrow> json option) \<Rightarrow> av_lib \<Rightarrow> McmVideoDemuxerContext \<Rightarrow> mcm_globals \<Rightarrow>
   (int \<times> McmVideoDemuxerContext \<times> mcm_globals) option" where
  "mcm_video_read_header env json_parse av s g =
     (case open_conn env json_parse MESH_CONN_KIND_RECEIVER
             (video_json av s (mcast_sip_addr s) (vr_transport s) (vr_transport_pixel_format s)
               (vr_width s) (vr_height s) (vr_frame_rate s) (vr_pixel_format s)) s g of
        None \<Rightarrow> None
      | Some (err, s, g) \<Rightarrow>
          if err \<noteq> 0 then Some (err, s, g) else
          let (st, g) = sdk_call_of env NewStream g in
          if e_ptr st = 0 then
            (case delete_conn env s g of
               None \<Rightarrow> None
             | Some (s, g) \<Rightarrow> map_option (\<lambda>(s, g). (- ENOMEM, s, g)) (put_client env s g))
          else Some (0, s\<lparr>vr_first_frame := True\<rparr>, g))"

text \<open>The audio demuxer gives the client back before it jumps to the labels that do so again.\<close>

definition mcm_audio_read_header ::
  "mesh_env \<Rightarrow> (string \<Rightarrow> json option) \<Rightarrow> av_lib \<Rightarrow> int \<Rightarrow> McmAudioDemuxerContext \<Rightarrow> mcm_globals \<Rightarrow>
   (int \<times> McmAudioDemuxerContext \<times> mcm_globals) option" where
  "mcm_audio_read_header env json_parse av codec_id s g =
     (case open_conn env json_parse MESH_CONN_KIND_RECEIVER
             (audio_json av s (mcast_sip_addr s) (ar_channels s) (ar_sample_rate s) codec_id (ar_ptime s)) s g of
        None \<Rightarrow> None
      | Some (err, s, g) \<Rightarrow>
          if err \<noteq> 0 then Some (err, s, g) else
          let (st, g) = sdk_call_of env NewStream g in
          if e_ptr st = 0 then
            (case put_client env s g of
               None \<Rightarrow> None
             | Some (s, g) \<Rightarrow>
                 (case delete_conn env s g of
                    None \<Rightarrow> None
                  | Some (s, g) \<Rightarrow> map_option (\<lambda>(s, g). (- ENOMEM, s, g)) (put_client env s g)))
          else Some (0, s\<lparr>ar_first_frame := True\<rparr>, g))"

abbreviation (input) AV_CODEC_ID_PCM_S16BE :: int where "AV_CODEC_ID_PCM_S16BE \<equiv> 65537"
abbreviation (input) AV_CODEC_ID_PCM_S24BE :: int where "AV_CODEC_ID_PCM_S24BE \<equiv> 65549"

definition mcm_audio_read_header_pcm16 where
  "mcm_audio_read_header_pcm16 env json_parse av = mcm_audio_read_header env json_parse av AV_CODEC_ID_PCM_S16BE"

definition mcm_audio_read_header_pcm24 where
  "mcm_audio_read_header_pcm24 env json_parse av = mcm_audio_read_header env json_parse av AV_CODEC_ID_PCM_S24BE"

text \<open>The parameters of the source stream of an audio muxer: channels, sample rate, codec.\<close>

definition mcm_audio_write_header ::
  "mesh_env \<Rightarrow> (string \<Rightarrow> json option) \<Rightarrow> av_lib \<Rightarrow> int \<times> int \<times> int \<Rightarrow> McmAudioMuxerContext \<Rightarrow> mcm_globals \<Rightarrow>
   (int \<times> McmAudioMuxerContext \<times> mcm_globals) option" where
  "mcm_audio_write_header env json_parse av codecpar s g =
     (case codecpar of (nb_channels, sample_rate, codec_id) \<Rightarrow>
        if nb_channels \<noteq> at_channels s then Some (- EINVAL, s, g)
        else if sample_rate \<noteq> at_sample_rate s then Some (- EINVAL, s, g)
        else open_conn env json_parse MESH_CONN_KIND_SENDER
          (audio_json av s [] (at_channels s) (at_sample_rate s) codec_id (at_ptime s)) s g)"

text \<open>\<open>mcm_video_write_trailer\<close>, and the function that closes a demuxer, the same for both kinds.\<close>

definition mcm_video_write_trailer ::
  "mesh_env \<Rightarrow> 'a mcm_ctx_scheme \<Rightarrow> mcm_globals \<Rightarrow> (int \<times> 'a mcm_ctx_scheme \<times> mcm_globals) option" where
  "mcm_video_write_trailer env s g = (case delete_conn env s g of
      None \<Rightarrow> None
    | Some (s, g) \<Rightarrow> map_option (\<lambda>(s, g). (0, s, g)) (put_client env s g))"

definition mcm_read_close ::
  "mesh_env \<Rightarrow> 'a mcm_ctx_scheme \<Rightarrow> mcm_globals \<Rightarrow> (int \<times> 'a mcm_ctx_scheme \<times> mcm_globals) option" where
  "mcm_read_close env s g =
     (case (if conn s \<noteq> 0 then delete_conn env s g else Some (s, g)) of
        None \<Rightarrow> None
      | Some (s, g) \<Rightarrow> map_option (\<lambda>(s, g). (0, s, g)) (put_client env s g))"

definition mcm_video_read_close ::
  "mesh_env \<Rightarrow> McmVideoDemuxerContext \<Rightarrow> mcm_globals \<Rightarrow> (int \<times> McmVideoDemuxerContext \<times> mcm_globals) option" where
  "mcm_video_read_close = mcm_read_close"

definition mcm_audio_read_close ::
  "mesh_env \<Rightarrow> McmAudioDemuxerContext \<Rightarrow> mcm_globals \<Rightarrow> (int \<times> McmAudioDemuxerContext \<times> mcm_globals) option" where
  "mcm_audio_read_close = mcm_read_close"

section \<open>Packets\<close>

definition get_buf :: "mesh_env \<Rightarrow> nat \<Rightarrow> int \<Rightarrow> nat \<Rightarrow> mcm_globals \<Rightarrow> (int \<times> nat \<times> mcm_globals) option" where
  "get_buf env c timeout buf g =
     map_option (\<lambda>(err, b, s). (err, b, g\<lparr>g_sdk := s\<rparr>)) (mesh_get_buffer_timeout env c (Some buf) timeout (g_sdk g))"

definition put_buf :: "mesh_env \<Rightarrow> nat \<Rightarrow> mcm_globals \<Rightarrow> (int \<times> nat \<times> mcm_globals) option" where
  "put_buf env buf g =
     map_option (\<lambda>(err, b, s). (err, b, g\<lparr>g_sdk := s\<rparr>)) (mesh_put_buffer env (Some buf) (g_sdk g))"

definition store :: "nat \<Rightarrow> u8 list \<Rightarrow> mcm_globals \<Rightarrow> mcm_globals" where
  "store a bs g = g\<lparr>g_sdk := (g_sdk g)\<lparr>ms_mem := mem_write a bs (ms_mem (g_sdk g))\<rparr>\<rparr>"

text \<open>\<open>mcm_video_write_packet\<close>. The local variable \<open>buf\<close> is not initialised: putting it back after a
  failed get is undefined.\<close>

definition mcm_video_write_packet ::
  "mesh_env \<Rightarrow> 'a mcm_ctx_scheme \<Rightarrow> u8 list \<Rightarrow> mcm_globals \<Rightarrow> (int \<times> mcm_globals) option" where
  "mcm_video_write_packet env s pkt g =
     (case get_buf env (conn s) MESH_TIMEOUT_DEFAULT 0 g of
        None \<Rightarrow> None
      | Some (err, buf, g) \<Rightarrow>
          let (stop, g) = mcm_shutdown_requested env g in
          if stop then
            (if err \<noteq> 0 then None
             else map_option (\<lambda>(_, _, g). (AVERROR_EXIT, g)) (put_buf env buf g))
          else if err \<noteq> 0 then Some (- EIO, g) else
          (case ms_bufs (g_sdk g) buf of
             None \<Rightarrow> None
           | Some b \<Rightarrow>
               let n = (if length pkt \<le> unat (bx_payload_len b) then length pkt else unat (bx_payload_len b));
                   g = store (bx_payload_ptr b) (take n pkt) g
               in case put_buf env buf g of
                    None \<Rightarrow> None
                  | Some (err, _, g) \<Rightarrow>
                      let (stop, g) = mcm_shutdown_requested env g in
                      Some (if stop then AVERROR_EXIT else if err \<noteq> 0 then - EIO else 0, g)))"

text \<open>\<open>read_packet\<close> of the video and audio demuxers: the code returned, the packet's data, and
  whether the first frame has been asked for.\<close>

definition mcm_read_packet ::
  "mesh_env \<Rightarrow> bool \<Rightarrow> 'a mcm_ctx_scheme \<Rightarrow> mcm_globals \<Rightarrow>
   (int \<times> u8 list \<times> 'a mcm_ctx_scheme \<times> mcm_globals) option" where
  "mcm_read_packet env first_frame s g =
     (let timeout = (if first_frame then MESH_TIMEOUT_INFINITE else 1000);
          close = (\<lambda>ret g. map_option (\<lambda>(s, g). (ret, [], s, g)) (delete_conn env s g))
      in case get_buf env (conn s) timeout 0 g of
           None \<Rightarrow> None
         | Some (err, buf, g) \<Rightarrow>
             if err = - MESH_ERR_CONN_CLOSED then close AVERROR_EOF g
             else if err \<noteq> 0 then
               (let (stop, g) = mcm_shutdown_requested env g
                in close (if stop then AVERROR_EXIT else - EIO) g)
             else
               let (stop, g) = mcm_shutdown_requested env g;
                   put_close = (\<lambda>ret g. case put_buf env buf g of None \<Rightarrow> None | Some (_, _, g) \<Rightarrow> close ret g)
               in if stop then put_close AVERROR_EXIT g else
                  (case ms_bufs (g_sdk g) buf of
                     None \<Rightarrow> None
                   | Some b \<Rightarrow>
                       let len = sint (ucast (bx_payload_len b) :: u32);
                           (np, g) = sdk_call_of env (AvNewPacket len) g
                       in if e_ret np < 0 then put_close (e_ret np) g else
                          let data = mem_read (ms_mem (g_sdk g)) (bx_payload_ptr b) (nat len)
                          in case put_buf env buf g of
                               None \<Rightarrow> None
                             | Some (err, _, g) \<Rightarrow>
                                 if err \<noteq> 0 then close (- EIO) g else Some (len, data, s, g)))"

definition mcm_video_read_packet ::
  "mesh_env \<Rightarrow> McmVideoDemuxerContext \<Rightarrow> mcm_globals \<Rightarrow>
   (int \<times> u8 list \<times> McmVideoDemuxerContext \<times> mcm_globals) option" where
  "mcm_video_read_packet env s g = mcm_read_packet env (vr_first_frame s) (s\<lparr>vr_first_frame := False\<rparr>) g"

definition mcm_audio_read_packet ::
  "mesh_env \<Rightarrow> McmAudioDemuxerContext \<Rightarrow> mcm_globals \<Rightarrow>
   (int \<times> u8 list \<times> McmAudioDemuxerContext \<times> mcm_globals) option" where
  "mcm_audio_read_packet env s g = mcm_read_packet env (ar_first_frame s) (s\<lparr>ar_first_frame := False\<rparr>) g"

text \<open>\<open>mcm_audio_write_packet\<close> collects the data of several packets in one buffer. The first half of
  a round of its loop gets a buffer if there is none; the second copies data into the buffer and puts
  it when it is full. \<open>data\<close> is what is left of the packet, and \<open>None\<close> in its place leaves the loop
  with the code returned.\<close>

definition audio_take_buf ::
  "mesh_env \<Rightarrow> McmAudioMuxerContext \<Rightarrow> mcm_globals \<Rightarrow> (int \<times> McmAudioMuxerContext \<times> mcm_globals) option" where
  "audio_take_buf env s g =
     (if at_unsent_buf s \<noteq> 0 then Some (0, s, g) else
      case get_buf env (conn s) MESH_TIMEOUT_DEFAULT (at_unsent_buf s) g of
        None \<Rightarrow> None
      | Some (err, buf, g) \<Rightarrow>
          let s = s\<lparr>at_unsent_buf := buf\<rparr>;
              (stop, g) = mcm_shutdown_requested env g
          in if stop then
               map_option (\<lambda>(_, buf, g). (AVERROR_EXIT, s\<lparr>at_unsent_buf := buf\<rparr>, g)) (put_buf env buf g)
             else Some (if err \<noteq> 0 then - EIO else 0, s, g))"

definition audio_fill ::
  "mesh_env \<Rightarrow> McmAudioMuxerContext \<Rightarrow> u8 list \<Rightarrow> mcm_globals \<Rightarrow>
   (int \<times> u8 list option \<times> McmAudioMuxerContext \<times> mcm_globals) option" where
  "audio_fill env s data g = (case ms_bufs (g_sdk g) (at_unsent_buf s) of
      None \<Rightarrow> None
    | Some b \<Rightarrow>
        let max_len = unat (bx_payload_len b);
            len = min max_len (length data + at_unsent_len s)
        in if len < max_len then
             Some (0, None, s\<lparr>at_unsent_len := at_unsent_len s + length data\<rparr>,
               store (bx_payload_ptr b + at_unsent_len s) data g)
           else
             let n = len - at_unsent_len s;
                 g = store (bx_payload_ptr b + at_unsent_len s) (take n data) g;
                 s = s\<lparr>at_unsent_len := 0\<rparr>
             in case put_buf env (at_unsent_buf s) g of
                  None \<Rightarrow> None
                | Some (err, buf, g) \<Rightarrow>
                    let s = s\<lparr>at_unsent_buf := buf\<rparr>;
                        (stop, g) = mcm_shutdown_requested env g
                    in if stop then Some (AVERROR_EXIT, None, s, g)
                       else if err \<noteq> 0 then Some (- EIO, None, s, g)
                       else Some (0, Some (drop n data), s, g))"

text \<open>\<open>Some None\<close> is running out of fuel.\<close>

fun audio_write_loop ::
  "nat \<Rightarrow> mesh_env \<Rightarrow> McmAudioMuxerContext \<Rightarrow> u8 list \<Rightarrow> mcm_globals \<Rightarrow>
   (int \<times> McmAudioMuxerContext \<times> mcm_globals) option option" where
  "audio_write_loop 0 env s data g = Some None"
| "audio_write_loop (Suc fuel) env s data g =
     (if data = [] then Some (Some (0, s, g)) else
      case audio_take_buf env s g of
        None \<Rightarrow> None
      | Some (err, s, g) \<Rightarrow>
          if err \<noteq> 0 then Some (Some (err, s, g)) else
          (case audio_fill env s data g of
             None \<Rightarrow> None
           | Some (err, None, s, g) \<Rightarrow> Some (Some (err, s, g))
           | Some (_, Some data, s, g) \<Rightarrow> audio_write_loop fuel env s data g))"

definition mcm_audio_write_packet where
  "mcm_audio_write_packet fuel env s pkt g = audio_write_loop fuel env s pkt g"

text \<open>The trailer clears the unused rest of the last buffer and sends it with its own length.\<close>

definition audio_flush ::
  "mesh_env \<Rightarrow> McmAudioMuxerContext \<Rightarrow> mcm_globals \<Rightarrow> (McmAudioMuxerContext \<times> mcm_globals) option" where
  "audio_flush env s g =
     (if at_unsent_buf s = 0 then Some (s, g) else
      case ms_bufs (g_sdk g) (at_unsent_buf s) of
        None \<Rightarrow> None
      | Some b \<Rightarrow>
          let g = store (bx_payload_ptr b + at_unsent_len s)
                    (replicate (unat (bx_payload_len b) - at_unsent_len s) 0) g
          in case mesh_buffer_set_payload_len (at_unsent_buf s) (word_of_nat (at_unsent_len s)) (g_sdk g) of
               None \<Rightarrow> None
             | Some (_, sdk) \<Rightarrow>
                 map_option (\<lambda>(_, buf, g). (s\<lparr>at_unsent_buf := buf\<rparr>, g))
                   (put_buf env (at_unsent_buf s) (g\<lparr>g_sdk := sdk\<rparr>)))"

definition mcm_audio_write_trailer ::
  "mesh_env \<Rightarrow> McmAudioMuxerContext \<Rightarrow> mcm_globals \<Rightarrow> (int \<times> McmAudioMuxerContext \<times> mcm_globals) option" where
  "mcm_audio_write_trailer env s g = (case audio_flush env s g of
      None \<Rightarrow> None
    | Some (s, g) \<Rightarrow>
        (case delete_conn env s g of
           None \<Rightarrow> None
         | Some (s, g) \<Rightarrow> map_option (\<lambda>(s, g). (0, s, g)) (put_client env s g)))"

section \<open>The audio stream\<close>

text \<open>What a receiver takes out of the buffers that were handed to the transport.\<close>

fun payload_of :: "mesh_call \<Rightarrow> u8 list" where
  "payload_of (EnqueueBuf h d bs) = take (unat (of_le32 (take 4 (drop 12 bs)))) (drop 24 bs)"
| "payload_of _ = []"

definition sent_payload :: "mcm_globals \<Rightarrow> u8 list" where
  "sent_payload g = concat (map (payload_of \<circ> fst) (ms_tr (g_sdk g)))"

abbreviation (input) parts_of :: "ConnectionConfig \<Rightarrow> BufferPartitions" where
  "parts_of c \<equiv> k_buf_parts (configure_buf_partitions c)"

text \<open>An established sender with the configuration \<open>c\<close>, and a buffer taken from it.\<close>

definition sender_live :: "ConnectionConfig \<Rightarrow> nat \<Rightarrow> mcm_globals \<Rightarrow> bool" where
  "sender_live c cn g \<longleftrightarrow> (g_client g \<noteq> 0 \<longrightarrow> ms_clients (g_sdk g) (g_client g) \<noteq> None) \<and> cn \<noteq> 0 \<and> fits c \<and> 0 < unat (k_calculated_payload_size c) \<and>
     (\<exists>x. ms_conns (g_sdk g) cn = Some x \<and> k_buf_parts (cx_cfg x) = parts_of c \<and>
        k_calculated_payload_size (cx_cfg x) = k_calculated_payload_size c \<and>
        k_kind (cx_cfg x) = MESH_CONN_KIND_SENDER \<and> ms_clients (g_sdk g) (cx_client x) \<noteq> None)"

definition buffer_held :: "ConnectionConfig \<Rightarrow> nat \<Rightarrow> nat \<Rightarrow> mesh_state \<Rightarrow> BufferContext \<Rightarrow> bool" where
  "buffer_held c cn buf s b \<longleftrightarrow> buf \<noteq> 0 \<and> ms_bufs s buf = Some b \<and> bx_conn b = cn \<and>
     tx_buffer_ok (parts_of c) b"

text \<open>The invariant of the muxer: a buffer that is being filled always has room left.\<close>

definition audio_ok :: "ConnectionConfig \<Rightarrow> McmAudioMuxerContext \<Rightarrow> mcm_globals \<Rightarrow> bool" where
  "audio_ok c s g \<longleftrightarrow> sender_live c (conn s) g \<and>
     (if at_unsent_buf s = 0 then at_unsent_len s = 0
      else at_unsent_len s < unat (k_calculated_payload_size c) \<and>
        (\<exists>b. buffer_held c (conn s) (at_unsent_buf s) (g_sdk g) b \<and>
           bx_payload_len b = ucast (k_calculated_payload_size c)))"

definition pending :: "McmAudioMuxerContext \<Rightarrow> mcm_globals \<Rightarrow> u8 list" where
  "pending s g = (if at_unsent_buf s = 0 then [] else
     mem_read (ms_mem (g_sdk g)) (bx_payload_ptr (the (ms_bufs (g_sdk g) (at_unsent_buf s)))) (at_unsent_len s))"

named_theorems stream_simps

lemma sent_call [stream_simps]:
  "sent_payload (snd (sdk_call_of env k g)) = sent_payload g @ payload_of k"
  by (simp add: sent_payload_def sdk_call_of_def call_of_def ext_call_def Let_def)

lemma sdk_call_keeps [stream_simps]:
  "sender_live c cn (snd (sdk_call_of env k g)) = sender_live c cn g"
  "buffer_held c cn buf (g_sdk (snd (sdk_call_of env k g))) b = buffer_held c cn buf (g_sdk g) b"
  "ms_mem (g_sdk (snd (sdk_call_of env k g))) = ms_mem (g_sdk g)"
  by (simp_all add: sdk_call_of_def call_of_def ext_call_def Let_def sender_live_def buffer_held_def)

lemma store_keeps [stream_simps]:
  "sender_live c cn (store a bs g) = sender_live c cn g"
  "buffer_held c cn buf (g_sdk (store a bs g)) b = buffer_held c cn buf (g_sdk g) b"
  "sent_payload (store a bs g) = sent_payload g"
  "ms_mem (g_sdk (store a bs g)) = mem_write a bs (ms_mem (g_sdk g))"
  by (simp_all add: store_def sender_live_def buffer_held_def sent_payload_def)

lemma mcm_shutdown_requested_eq:
  "mcm_shutdown_requested env g = (fst (mcm_shutdown_requested env g), snd (sdk_call_of env ShutdownFlag g))"
  by (simp add: mcm_shutdown_requested_def split_def Let_def)

text \<open>Getting and putting a buffer of a live sender.\<close>

lemma buffer_dequeue_total:
  "ms_conns s (bx_conn b) \<noteq> None \<Longrightarrow> \<exists>r. buffer_dequeue env t b s = Some r"
  by (auto simp: buffer_dequeue_def Let_def split_def)

lemma buffer_dequeue_frame:
  "buffer_dequeue env t b s = Some (err, b', s') \<Longrightarrow>
   ms_conns s' = ms_conns s \<and> ms_clients s' = ms_clients s \<and> ms_bufs s' = ms_bufs s \<and>
   (err = 0 \<longrightarrow> concat (map (payload_of \<circ> fst) (ms_tr s')) = concat (map (payload_of \<circ> fst) (ms_tr s)))"
  by (auto simp: buffer_dequeue_def call_of_def ext_call_def Let_def split: option.splits if_splits)

lemma get_buf_live:
  assumes "sender_live c cn g"
  shows "\<exists>err buf g'. get_buf env cn t 0 g = Some (err, buf, g') \<and> sender_live c cn g' \<and>
    (if err = 0 then (\<exists>b. buffer_held c cn buf (g_sdk g') b \<and> bx_payload_len b = ucast (k_calculated_payload_size c)) \<and>
       sent_payload g' = sent_payload g
     else buf = 0)"
proof -
  obtain x where x: "cn \<noteq> 0" "fits c" "ms_conns (g_sdk g) cn = Some x" "k_buf_parts (cx_cfg x) = parts_of c"
    "k_calculated_payload_size (cx_cfg x) = k_calculated_payload_size c"
    "k_kind (cx_cfg x) = MESH_CONN_KIND_SENDER"
    and cl: "ms_clients (g_sdk g) (cx_client x) \<noteq> None"
    using assms unfolding sender_live_def by blast
  define p where "p = fst (call_of env (MNew ''BufferContext'') (g_sdk g))"
  define s1 where "s1 = snd (call_of env (MNew ''BufferContext'') (g_sdk g))"
  have ca: "call_of env (MNew ''BufferContext'') (g_sdk g) = (p, s1)" by (simp add: p_def s1_def)
  have s1: "ms_conns s1 = ms_conns (g_sdk g)" "ms_clients s1 = ms_clients (g_sdk g)" "ms_bufs s1 = ms_bufs (g_sdk g)"
    "concat (map (payload_of \<circ> fst) (ms_tr s1)) = sent_payload g"
    by (simp_all add: s1_def call_of_def ext_call_def sent_payload_def)
  have "\<exists>tm. (if t = MESH_TIMEOUT_DEFAULT \<and> cx_client x \<noteq> 0
      then map_option cl_default_timeout_us (ms_clients s1 (cx_client x)) else Some t) = Some tm"
    using cl s1(2) by auto
  then obtain tm where tm: "(if t = MESH_TIMEOUT_DEFAULT \<and> cx_client x \<noteq> 0
      then map_option cl_default_timeout_us (ms_clients s1 (cx_client x)) else Some t) = Some tm" by blast
  have "ms_conns s1 (bx_conn (new_buffer_ctx cn)) \<noteq> None" using x(3) s1(1) by (simp add: new_buffer_ctx_def)
  from buffer_dequeue_total [OF this] obtain err b s2
    where d: "buffer_dequeue env tm (new_buffer_ctx cn) s1 = Some (err, b, s2)" by (metis prod_cases3)
  note fr = buffer_dequeue_frame [OF d]
  have held: "tx_buffer_ok (parts_of c) b \<and> bx_conn b = cn \<and> bx_payload_len b = ucast (k_calculated_payload_size c)"
    if "err = 0"
    using dequeue_sender_ok [OF x(2,4,5) _ x(6), of s1 "new_buffer_ctx cn" env tm b s2] d that x(3,4) s1(1)
    by (simp add: new_buffer_ctx_def)
  have e: "get_buf env cn t 0 g = Some (if e_ptr p = 0 then (- ENOMEM, 0, g\<lparr>g_sdk := s1\<rparr>)
     else if err \<noteq> 0 then (err, 0, g\<lparr>g_sdk := s2\<rparr>)
     else (0, e_ptr p, g\<lparr>g_sdk := s2\<lparr>ms_bufs := (ms_bufs s2)(e_ptr p \<mapsto> b)\<rparr>\<rparr>))"
    using x(1,3) tm d ca by (simp add: get_buf_def mesh_get_buffer_timeout_def get_buffer_timeout_def)
  show ?thesis using assms held fr s1 unfolding e
    by (auto simp: sender_live_def buffer_held_def sent_payload_def ENOMEM_def split: if_splits)
qed

lemma held_buffer_bytes:
  assumes "fits c" and "tx_buffer_ok (parts_of c) b"
  shows "payload_of (EnqueueBuf h (bx_data b)
           (mem_read (stamp_sysdata (sysdata_of (configure_buf_partitions c) (bx_data b)) b m) (bx_data b) (unat (bx_len b)))) =
         mem_read m (bx_payload_ptr b) (unat (bx_payload_len b))"
proof -
  note lay = layout [OF assms(1) refl]
  let ?d = "bx_data b" and ?T = "unat (total_size (parts_of c))" and ?n = "unat (bx_payload_len b)"
  let ?m = "stamp_sysdata ?d b m"
  have "bx_payload_len b \<le> ucast (bp_size (bp_payload (parts_of c)))"
    using assms(2) by (simp add: tx_buffer_ok_def)
  note n = ucast_le_u64 [OF this]
  have "unat (ucast (bx_payload_len b) :: u32) = ?n" using n(1) by (metis unat_ucast_u64)
  moreover have "take 4 (drop 12 (mem_read ?m ?d ?T)) = mem_read ?m (?d + 12) 4"
    using lay(4) by (intro nth_equalityI) (auto simp: ac_simps)
  ultimately have len: "unat (of_le32 (take 4 (drop 12 (mem_read ?m ?d ?T)))) = ?n"
    using stamp_fields(1) [of ?d b m] by (simp add: payload_field_def)
  have "take ?n (drop 24 (mem_read ?m ?d ?T)) = mem_read ?m (?d + 24) ?n"
    using lay(4) n(2) by (intro nth_equalityI) (auto simp: ac_simps)
  also have "\<dots> = mem_read m (?d + 24) ?n" by (rule stamp_frame) simp
  finally show ?thesis
    using assms(2) lay(1,2) len by (simp add: tx_buffer_ok_def sysdata_of_def)
qed

lemma held_nonzero: "buffer_held c cn buf s b \<Longrightarrow> buf \<noteq> 0"
  by (simp add: buffer_held_def)

lemma put_buf_held:
  assumes "sender_live c cn g" and "buffer_held c cn buf (g_sdk g) b"
  shows "\<exists>err g'. put_buf env buf g = Some (err, 0, g') \<and> sender_live c cn g' \<and>
    sent_payload g' = sent_payload g @
      mem_read (ms_mem (g_sdk g)) (bx_payload_ptr b) (unat (bx_payload_len b))"
proof -
  obtain x where x: "cn \<noteq> 0" "fits c" "ms_conns (g_sdk g) cn = Some x" "k_buf_parts (cx_cfg x) = parts_of c"
    "k_kind (cx_cfg x) = MESH_CONN_KIND_SENDER"
    using assms(1) unfolding sender_live_def by blast
  have b: "buf \<noteq> 0" "ms_bufs (g_sdk g) buf = Some b" "bx_conn b = cn" "tx_buffer_ok (parts_of c) b"
    using assms(2) by (simp_all add: buffer_held_def)
  have sd: "sysdata_of (cx_cfg x) d = sysdata_of (configure_buf_partitions c) d" for d
    using x(4) by (simp add: sysdata_of_def)
  show ?thesis
    using assms(1) x b held_buffer_bytes [OF x(2) b(4)]
    by (auto simp: put_buf_def mesh_put_buffer_def mesh_put_buffer_timeout_def buffer_enqueue_def
        call_of_def ext_call_def Let_def sent_payload_def sd sender_live_def)
qed

text \<open>One round of the loop, once there is a buffer to fill.\<close>

lemma audio_ok_held:
  "audio_ok c s g \<Longrightarrow> at_unsent_buf s \<noteq> 0 \<Longrightarrow>
   \<exists>b. buffer_held c (conn s) (at_unsent_buf s) (g_sdk g) b \<and> ms_bufs (g_sdk g) (at_unsent_buf s) = Some b \<and>
     unat (bx_payload_len b) = unat (k_calculated_payload_size c) \<and>
     pending s g = mem_read (ms_mem (g_sdk g)) (bx_payload_ptr b) (at_unsent_len s)"
  by (auto simp: audio_ok_def buffer_held_def pending_def unat_ucast_u64 split: if_splits)

lemma shutdown_requested_keeps:
  assumes "mcm_shutdown_requested env g = (stop, g')"
  shows "sent_payload g' = sent_payload g" "sender_live c cn g' = sender_live c cn g"
    "buffer_held c cn buf (g_sdk g') b = buffer_held c cn buf (g_sdk g) b" "ms_mem (g_sdk g') = ms_mem (g_sdk g)"
  using assms mcm_shutdown_requested_eq [of env g] stream_simps by auto

lemma audio_take_buf_ok:
  assumes "audio_ok c s g"
  shows "\<exists>r s' g'. audio_take_buf env s g = Some (r, s', g') \<and> audio_ok c s' g' \<and> conn s' = conn s \<and>
    (r = 0 \<longrightarrow> at_unsent_buf s' \<noteq> 0 \<and> sent_payload g' = sent_payload g \<and> pending s' g' = pending s g)"
proof (cases "at_unsent_buf s = 0")
  case True
  have live: "sender_live c (conn s) g" and len: "at_unsent_len s = 0"
    using assms True by (simp_all add: audio_ok_def)
  obtain err buf g1 where get: "get_buf env (conn s) MESH_TIMEOUT_DEFAULT 0 g = Some (err, buf, g1)"
    and g1: "sender_live c (conn s) g1"
      "if err = 0 then (\<exists>b. buffer_held c (conn s) buf (g_sdk g1) b \<and>
        bx_payload_len b = ucast (k_calculated_payload_size c)) \<and> sent_payload g1 = sent_payload g else buf = 0"
    using get_buf_live [OF live] by blast
  obtain stop g2 where fl: "mcm_shutdown_requested env g1 = (stop, g2)" by force
  note fk = shutdown_requested_keeps [OF fl]
  have pos: "0 < unat (k_calculated_payload_size c)" using live by (simp add: sender_live_def)
  show ?thesis
  proof (cases stop)
    case stop: True
    show ?thesis
    proof (cases "err = 0")
      case True
      with g1 fk obtain b where "buffer_held c (conn s) buf (g_sdk g2) b" by auto
      from put_buf_held [OF _ this, of env] g1(1) fk obtain e g3
        where put: "put_buf env buf g2 = Some (e, 0, g3)" and g3: "sender_live c (conn s) g3" by auto
      have "audio_take_buf env s g = Some (AVERROR_EXIT, s\<lparr>at_unsent_buf := 0\<rparr>, g3)"
        using \<open>at_unsent_buf s = 0\<close> get fl stop put by (simp add: audio_take_buf_def)
      then show ?thesis using g3 len by (simp add: audio_ok_def AVERROR_EXIT_def)
    next
      case False
      with g1 have "buf = 0" by simp
      then show ?thesis using \<open>at_unsent_buf s = 0\<close> get fl stop len g1(1) fk
        by (simp add: audio_take_buf_def audio_ok_def AVERROR_EXIT_def put_buf_def mesh_put_buffer_def
            mesh_put_buffer_timeout_def)
    qed
  next
    case False
    then show ?thesis using True get fl len g1 fk pos
      by (auto simp: audio_take_buf_def audio_ok_def pending_def mem_read_def EIO_def
          dest: held_nonzero split: if_splits)
  qed
next
  case False
  then show ?thesis using assms by (simp add: audio_take_buf_def)
qed

lemma audio_fill_ok:
  assumes "audio_ok c s g" and "at_unsent_buf s \<noteq> 0" and "data \<noteq> []"
  shows "\<exists>r rest s' g'. audio_fill env s data g = Some (r, rest, s', g') \<and> audio_ok c s' g' \<and> conn s' = conn s \<and>
    (r = 0 \<longrightarrow> sent_payload g' @ pending s' g' @ (case rest of None \<Rightarrow> [] | Some d \<Rightarrow> d) =
       sent_payload g @ pending s g @ data) \<and>
    (case rest of None \<Rightarrow> True | Some d \<Rightarrow> r = 0 \<and> length d < length data)"
proof -
  let ?P = "unat (k_calculated_payload_size c)" and ?u = "at_unsent_len s"
  obtain b where b: "buffer_held c (conn s) (at_unsent_buf s) (g_sdk g) b"
    "ms_bufs (g_sdk g) (at_unsent_buf s) = Some b" "unat (bx_payload_len b) = ?P"
    "pending s g = mem_read (ms_mem (g_sdk g)) (bx_payload_ptr b) ?u"
    using audio_ok_held [OF assms(1,2)] by blast
  have live: "sender_live c (conn s) g" and u: "?u < ?P"
    using assms(1,2) by (simp_all add: audio_ok_def)
  show ?thesis
  proof (cases "length data + ?u < ?P")
    case True
    let ?g = "store (bx_payload_ptr b + ?u) data g" and ?s = "s\<lparr>at_unsent_len := ?u + length data\<rparr>"
    have "audio_fill env s data g = Some (0, None, ?s, ?g)"
      using True b by (simp add: audio_fill_def)
    moreover have "audio_ok c ?s ?g"
      using assms True live by (auto simp: audio_ok_def stream_simps)
    moreover have "pending ?s ?g = pending s g @ data"
      using assms(2) b by (simp add: pending_def store_def mem_read_fill)
    ultimately show ?thesis by (auto simp: stream_simps)
  next
    case False
    let ?n = "?P - ?u"
    let ?g = "store (bx_payload_ptr b + ?u) (take ?n data) g"
    have full: "mem_read (ms_mem (g_sdk ?g)) (bx_payload_ptr b) ?P = pending s g @ take ?n data"
      using mem_read_fill [of "bx_payload_ptr b" ?u "take ?n data"] b(4) u False by (simp add: stream_simps)
    obtain err g1 where put: "put_buf env (at_unsent_buf s) ?g = Some (err, 0, g1)"
      and g1: "sender_live c (conn s) g1" "sent_payload g1 = sent_payload g @ pending s g @ take ?n data"
      using put_buf_held [of c "conn s" ?g "at_unsent_buf s" b env] live b(1,3) full by (auto simp: stream_simps)
    obtain stop g2 where fl: "mcm_shutdown_requested env g1 = (stop, g2)" by force
    note fk = shutdown_requested_keeps [OF fl]
    have m: "min ?P (length data + ?u) = ?P" using False by simp
    have "audio_fill env s data g =
      Some (if stop then (AVERROR_EXIT, None, s\<lparr>at_unsent_len := 0, at_unsent_buf := 0\<rparr>, g2)
        else if err \<noteq> 0 then (- EIO, None, s\<lparr>at_unsent_len := 0, at_unsent_buf := 0\<rparr>, g2)
        else (0, Some (drop ?n data), s\<lparr>at_unsent_len := 0, at_unsent_buf := 0\<rparr>, g2))"
      using b put fl m by (simp add: audio_fill_def Let_def)
    moreover have "length data + ?u - ?P < length data" using u assms(3) by (cases data) auto
    ultimately show ?thesis using g1 fk
      by (auto simp: audio_ok_def pending_def AVERROR_EXIT_def EIO_def)
  qed
qed

lemma audio_write_loop_ok:
  assumes "audio_ok c s g" and "length data < fuel"
  shows "\<exists>r s' g'. audio_write_loop fuel env s data g = Some (Some (r, s', g')) \<and> audio_ok c s' g' \<and>
    conn s' = conn s \<and> (r = 0 \<longrightarrow> sent_payload g' @ pending s' g' = sent_payload g @ pending s g @ data)"
  using assms
proof (induction fuel arbitrary: s data g)
  case (Suc fuel)
  show ?case
  proof (cases "data = []")
    case False
    obtain r1 s1 g1 where t: "audio_take_buf env s g = Some (r1, s1, g1)" "audio_ok c s1 g1" "conn s1 = conn s"
      "r1 = 0 \<longrightarrow> at_unsent_buf s1 \<noteq> 0 \<and> sent_payload g1 = sent_payload g \<and> pending s1 g1 = pending s g"
      using audio_take_buf_ok [OF Suc.prems(1)] by blast
    show ?thesis
    proof (cases "r1 = 0")
      case True
      with t(4) have n: "at_unsent_buf s1 \<noteq> 0" by simp
      obtain r2 rest s2 g2 where f: "audio_fill env s1 data g1 = Some (r2, rest, s2, g2)" "audio_ok c s2 g2"
        "conn s2 = conn s1"
        "r2 = 0 \<longrightarrow> sent_payload g2 @ pending s2 g2 @ (case rest of None \<Rightarrow> [] | Some d \<Rightarrow> d) =
           sent_payload g1 @ pending s1 g1 @ data"
        "case rest of None \<Rightarrow> True | Some d \<Rightarrow> r2 = 0 \<and> length d < length data"
        using audio_fill_ok [OF t(2) n False] by blast
      show ?thesis
      proof (cases rest)
        case None
        then show ?thesis using False True t f by simp
      next
        case (Some d)
        with f(5) Suc.prems(2) have "length d < fuel" by simp
        from Suc.IH [OF f(2) this] Some False True t f show ?thesis by auto
      qed
    qed (use False t in simp)
  qed (use Suc.prems in simp)
qed simp

lemma delete_conn_sender:
  assumes "sender_live c (conn s) g"
  shows "\<exists>s' g'. delete_conn env s g = Some (s', g') \<and> sent_payload g' = sent_payload g \<and>
    (g_client g' \<noteq> 0 \<longrightarrow> ms_clients (g_sdk g') (g_client g') \<noteq> None)"
proof -
  obtain x cl where x: "conn s \<noteq> 0" "ms_conns (g_sdk g) (conn s) = Some x"
    "k_kind (cx_cfg x) = MESH_CONN_KIND_SENDER" "ms_clients (g_sdk g) (cx_client x) = Some cl"
    "g_client g \<noteq> 0 \<longrightarrow> ms_clients (g_sdk g) (g_client g) \<noteq> None"
    using assms unfolding sender_live_def by blast
  then show ?thesis
    by (auto simp: delete_conn_def mesh_delete_connection_def conn_shutdown_def delete_conn_ctx_def
        call_of_def ext_call_def Let_def sent_payload_def)
qed

lemma put_client_live:
  assumes "g_client g \<noteq> 0 \<longrightarrow> ms_clients (g_sdk g) (g_client g) \<noteq> None"
  shows "\<exists>s' g'. put_client env s g = Some (s', g') \<and> sent_payload g' = sent_payload g"
  using assms
  by (auto simp: put_client_def mcm_put_client_def mesh_delete_client_def client_shutdown_def sdk_call_of_def
      call_of_def ext_call_def Let_def sent_payload_def)

lemma audio_flush_ok:
  assumes "audio_ok c s g"
  shows "\<exists>s1 g1. audio_flush env s g = Some (s1, g1) \<and> conn s1 = conn s \<and> sender_live c (conn s) g1 \<and>
    sent_payload g1 = sent_payload g @ pending s g"
proof -
  have live: "sender_live c (conn s) g" using assms by (simp add: audio_ok_def)
  show ?thesis
  proof (cases "at_unsent_buf s = 0")
    case False
    let ?u = "at_unsent_len s" and ?P = "unat (k_calculated_payload_size c)" and ?a = "at_unsent_buf s"
    obtain b where b: "buffer_held c (conn s) ?a (g_sdk g) b" "ms_bufs (g_sdk g) ?a = Some b"
      "unat (bx_payload_len b) = ?P" "pending s g = mem_read (ms_mem (g_sdk g)) (bx_payload_ptr b) ?u"
      using audio_ok_held [OF assms False] by blast
    have u: "?u < ?P" using assms False by (simp add: audio_ok_def)
    have "fits c" using live by (simp add: sender_live_def)
    have u64: "unat (word_of_nat ?u :: u64) = ?u"
      using u \<open>fits c\<close>
      by (simp add: unsigned_of_nat take_bit_nat_eq_self)
    define b' where "b' = b\<lparr>bx_payload_len := word_of_nat ?u\<rparr>"
    let ?g = "store (bx_payload_ptr b + ?u) (replicate (unat (bx_payload_len b) - ?u) 0) g"
    let ?g' = "?g\<lparr>g_sdk := (g_sdk ?g)\<lparr>ms_bufs := (ms_bufs (g_sdk ?g))(?a \<mapsto> b')\<rparr>\<rparr>"
    have le: "word_of_nat ?u \<le> (ucast (bp_size (bp_payload (parts_of c))) :: u64)"
      using b(1,3) u u64 by (simp add: buffer_held_def tx_buffer_ok_def word_le_nat_alt unat_ucast_u64)
    obtain x where "ms_conns (g_sdk g) (conn s) = Some x" "k_buf_parts (cx_cfg x) = parts_of c" "conn s \<noteq> 0"
      using live unfolding sender_live_def by blast
    then have set: "mesh_buffer_set_payload_len ?a (word_of_nat ?u) (g_sdk ?g) = Some (0, g_sdk ?g')"
      using False b(1,2) le
      by (simp add: mesh_buffer_set_payload_len_def setPayloadLen_def store_def buffer_held_def b'_def not_less)
    have "sender_live c (conn s) ?g'" using live by (simp add: sender_live_def store_def)
    moreover have "buffer_held c (conn s) ?a (g_sdk ?g') b'"
      using b(1) le by (simp add: buffer_held_def tx_buffer_ok_def b'_def)
    ultimately obtain err g1 where put: "put_buf env ?a ?g' = Some (err, 0, g1)" "sender_live c (conn s) g1"
      "sent_payload g1 = sent_payload ?g' @ mem_read (ms_mem (g_sdk ?g')) (bx_payload_ptr b') (unat (bx_payload_len b'))"
      using put_buf_held [of c "conn s" ?g' ?a b' env] by blast
    have "sent_payload g1 = sent_payload g @ pending s g"
      using put(3) u64 b(4) by (simp add: b'_def store_def sent_payload_def mem_read_write_other)
    moreover have "g\<lparr>g_sdk := g_sdk ?g'\<rparr> = ?g'" by (simp add: store_def)
    ultimately show ?thesis using False b(2) set put by (simp add: audio_flush_def Let_def)
  qed (use live in \<open>simp add: audio_flush_def pending_def\<close>)
qed

lemma audio_trailer_ok:
  assumes "audio_ok c s g"
  shows "\<exists>s' g'. mcm_audio_write_trailer env s g = Some (0, s', g') \<and>
    sent_payload g' = sent_payload g @ pending s g"
proof -
  obtain s1 g1 where f: "audio_flush env s g = Some (s1, g1)" "conn s1 = conn s" "sender_live c (conn s) g1"
    "sent_payload g1 = sent_payload g @ pending s g"
    using audio_flush_ok [OF assms] by blast
  obtain s2 g2 where d: "delete_conn env s1 g1 = Some (s2, g2)" "sent_payload g2 = sent_payload g1"
    "g_client g2 \<noteq> 0 \<longrightarrow> ms_clients (g_sdk g2) (g_client g2) \<noteq> None"
    using delete_conn_sender [of c s1 g1 env] f by metis
  from put_client_live [OF d(3), of env s2] d f show ?thesis
    by (auto simp: mcm_audio_write_trailer_def)
qed

text \<open>FFmpeg hands over packets one after the other until one fails.\<close>

fun write_packets ::
  "nat \<Rightarrow> mesh_env \<Rightarrow> McmAudioMuxerContext \<Rightarrow> u8 list list \<Rightarrow> mcm_globals \<Rightarrow>
   (int \<times> McmAudioMuxerContext \<times> mcm_globals) option option" where
  "write_packets fuel env s [] g = Some (Some (0, s, g))"
| "write_packets fuel env s (pkt # pkts) g = (case mcm_audio_write_packet fuel env s pkt g of
      Some (Some (r, s, g)) \<Rightarrow> if r \<noteq> 0 then Some (Some (r, s, g)) else write_packets fuel env s pkts g
    | x \<Rightarrow> x)"

lemma write_packets_ok:
  assumes "audio_ok c s g" and "\<forall>pkt\<in>set pkts. length pkt < fuel"
  shows "\<exists>r s' g'. write_packets fuel env s pkts g = Some (Some (r, s', g')) \<and> audio_ok c s' g' \<and>
    (r = 0 \<longrightarrow> sent_payload g' @ pending s' g' = sent_payload g @ pending s g @ concat pkts)"
  using assms
proof (induction pkts arbitrary: s g)
  case (Cons pkt pkts)
  then obtain r s1 g1 where w: "mcm_audio_write_packet fuel env s pkt g = Some (Some (r, s1, g1))"
    "audio_ok c s1 g1" "r = 0 \<longrightarrow> sent_payload g1 @ pending s1 g1 = sent_payload g @ pending s g @ pkt"
    using audio_write_loop_ok [of c s g pkt fuel env] by (auto simp: mcm_audio_write_packet_def)
  with Cons.IH [OF w(2)] Cons.prems show ?case by (cases "r = 0") auto
qed simp

text \<open>
  C36. The audio muxer loses, repeats and reorders nothing. Whatever the sizes of the packets, each
  call of \<open>mcm_audio_write_packet\<close> returns after at most one round per byte; and if all of them
  succeed, the payloads of the buffers handed to the transport by the time the trailer has been
  written are together exactly the data of the packets, after what was already pending.
\<close>

theorem audio_stream_complete:
  assumes "audio_ok c s g" and "\<forall>pkt\<in>set pkts. length pkt < fuel"
  shows "\<exists>r s1 g1. write_packets fuel env s pkts g = Some (Some (r, s1, g1)) \<and>
    (r = 0 \<longrightarrow> (\<exists>s2 g2. mcm_audio_write_trailer env s1 g1 = Some (0, s2, g2) \<and>
      sent_payload g2 = sent_payload g @ pending s g @ concat pkts))"
  using write_packets_ok [OF assms] audio_trailer_ok by fastforce

definition demo_client :: ClientContext where
  "demo_client = new_client\<lparr>cl_conns := [5], cl_default_timeout_us := 1000000, cl_max_conn_num := 32\<rparr>"

definition demo_globals :: mcm_globals where
  "demo_globals = \<lparr>g_client = 1, g_refcnt = 1, g_shutdown_requested = False, g_prev_SIGINT_handler = SIG_DFL,
     g_prev_SIGTERM_handler = SIG_DFL, g_disp_SIGINT = McmHandler, g_disp_SIGTERM = McmHandler,
     g_sdk = (demo_state 0)\<lparr>ms_clients := [1 \<mapsto> demo_client]\<rparr>\<rparr>"

definition demo_muxer :: McmAudioMuxerContext where
  "demo_muxer = \<lparr>buf_queue_cap = 16, conn_delay = 0, conn_type = ''multipoint-group'', urn = ''a'',
     ip_addr = [], port = 9001, mcast_sip_addr = [], payload_type = 111, rdma_provider = ''tcp'',
     rdma_num_endpoints = 1, mc = 1, conn = 5, at_channels = 2, at_sample_rate = 48000, at_ptime = ''1ms'',
     at_unsent_buf = 0, at_unsent_len = 0\<rparr>"

lemma demo_audio_ok: "audio_ok audio_cfg demo_muxer demo_globals"
  by (simp add: audio_ok_def sender_live_def demo_muxer_def demo_globals_def demo_state_def demo_conn_def
      audio_cfg_sel new_conn_ctx_def)

lemma demo_len: "length demo_sent = 312"
  by (simp add: demo_sent_def)

theorem audio_stream_complete_witness:
  "\<exists>r s1 g1. write_packets (Suc (Suc (Suc (Suc 0)))) delivering demo_muxer [[1, 2], [3, 4, 5]] demo_globals = Some (Some (r, s1, g1)) \<and>
     r = 0 \<and> (\<exists>s2 g2. mcm_audio_write_trailer delivering s1 g1 = Some (0, s2, g2) \<and> sent_payload g2 = [1, 2, 3, 4, 5])"
proof -
  have "\<forall>pkt\<in>set [[1, 2], [3, 4, 5 :: u8]]. length pkt < Suc (Suc (Suc (Suc 0)))" by simp
  note t = audio_stream_complete [OF demo_audio_ok this, of delivering]
  have "map_option (map_option fst) (write_packets (Suc (Suc (Suc (Suc 0)))) delivering demo_muxer [[1, 2], [3, 4, 5]] demo_globals) =
      Some (Some 0)"
    by (simp add: mcm_audio_write_packet_def audio_take_buf_def audio_fill_def get_buf_def
        mesh_get_buffer_timeout_def get_buffer_timeout_def buffer_dequeue_def new_buffer_ctx_def call_of_def ext_call_def Let_def
        mcm_shutdown_requested_def sdk_call_of_def demo_muxer_def demo_globals_def demo_state_def demo_conn_def
        demo_client_def delivering_def mesh_res0_def demo_parts new_client_def new_conn_ctx_def
        demo_len field_simps audio_cfg_sel store_def)
  with t show ?thesis by (auto simp: demo_globals_def demo_muxer_def sent_payload_def pending_def demo_state_def)
qed

section \<open>References to the client\<close>

definition lock_works :: "mesh_env \<Rightarrow> bool" where
  "lock_works env \<longleftrightarrow> (\<forall>tr. e_ret (env tr MutexLock) = 0)"

lemma get_client_refs:
  assumes "lock_works env" and "g_client g \<noteq> 0"
  shows "\<exists>g'. mcm_get_client env jp m g = (0, g_client g, g') \<and> g_refcnt g' = g_refcnt g + 1 \<and> g_client g' = g_client g"
  using assms by (simp add: lock_works_def mcm_get_client_def sdk_call_of_def call_of_def ext_call_def Let_def)

lemma put_client_refs:
  assumes "lock_works env" and "g_client g \<noteq> 0" and "mcm_put_client env m g = Some (r, m', g')"
  shows "r = 0 \<and> m' = 0 \<and> g_refcnt g' = g_refcnt g - 1 \<and> (g_refcnt g \<noteq> 1 \<longrightarrow> g_client g' = g_client g)"
  using assms
  by (auto simp: lock_works_def mcm_put_client_def sdk_call_of_def call_of_def ext_call_def Let_def split: if_splits option.splits)

lemma put_ctx_refs:
  assumes "lock_works env" and "g_client g \<noteq> 0" and "put_client env s g = Some (s', g')"
  shows "g_refcnt g' = g_refcnt g - 1 \<and> (g_refcnt g \<noteq> 1 \<longrightarrow> g_client g' = g_client g)"
proof -
  from assms(3) obtain r m' where "mcm_put_client env (mc s) g = Some (r, m', g')"
    by (auto simp: put_client_def)
  from put_client_refs [OF assms(1,2) this] show ?thesis by simp
qed

lemma open_conn_refs:
  assumes lk: "lock_works env" and "g_client g \<noteq> 0" "0 < g_refcnt g"
    and "open_conn env jp kind json s g = Some (r, s', g')"
  shows "g_client g' = g_client g \<and>
    (case json of None \<Rightarrow> r = - EINVAL \<and> g_refcnt g' = g_refcnt g + 1
     | Some _ \<Rightarrow> r = 0 \<and> g_refcnt g' = g_refcnt g + 1 \<or> r = - EIO \<and> g_refcnt g' = g_refcnt g)"
proof -
  obtain g1 where g1: "mcm_get_client env jp (mc s) g = (0, g_client g, g1)" "g_refcnt g1 = g_refcnt g + 1"
    "g_client g1 = g_client g"
    using get_client_refs [OF lk assms(2)] by blast
  have put: "g_client g' = g_client g \<and> g_refcnt g' = g_refcnt g"
    if "mcm_put_client env m (g1\<lparr>g_sdk := sdk\<rparr>) = Some (x, m', g')" for m sdk x m'
    using put_client_refs [OF lk _ that] g1 assms(2,3) by simp
  show ?thesis using assms(4) g1
    by (cases json) (auto simp: open_conn_def Let_def dest: put split: if_splits option.splits)
qed

lemma delete_conn_refs:
  "delete_conn env s g = Some (s', g') \<Longrightarrow> g_client g' = g_client g \<and> g_refcnt g' = g_refcnt g"
  by (auto simp: delete_conn_def)

text \<open>
  C37. What \<open>mcm_audio_read_header\<close> does to the number of references to the shared client, which
  other streams of the process hold too. Success takes one and a connection that cannot be created
  takes none. A connection type the plugin does not know leaves a reference behind although the
  function fails, and a stream that cannot be allocated gives back one more than was taken, so that
  the last user of the client may find it deleted.
\<close>

theorem audio_read_header_references:
  assumes "lock_works env" and "g_client g \<noteq> 0" and "0 < g_refcnt g"
    and "mcm_audio_read_header env jp av codec s g = Some (r, s', g')"
  shows "r = 0 \<and> g_refcnt g' = g_refcnt g + 1 \<or> r = - EIO \<and> g_refcnt g' = g_refcnt g \<or>
    r = - EINVAL \<and> conn_type s \<notin> {''multipoint-group'', ''st2110''} \<and> g_refcnt g' = g_refcnt g + 1 \<or>
    r = - ENOMEM \<and> g_refcnt g' = g_refcnt g - 1"
proof -
  define json where "json = audio_json av s (mcast_sip_addr s) (ar_channels s) (ar_sample_rate s) codec (ar_ptime s)"
  have js: "json = None \<longleftrightarrow> conn_type s \<notin> {''multipoint-group'', ''st2110''}"
    by (auto simp: json_def audio_json_def)
  obtain r1 s1 g1 where o: "open_conn env jp MESH_CONN_KIND_RECEIVER json s g = Some (r1, s1, g1)"
    using assms(4) by (auto simp: mcm_audio_read_header_def json_def [symmetric] split: option.splits)
  note refs = open_conn_refs [OF assms(1-3) o]
  show ?thesis
  proof (cases "r1 = 0")
    case False
    with assms(4) o refs js show ?thesis
      by (auto simp: mcm_audio_read_header_def json_def [symmetric] split: option.splits)
  next
    case True
    with refs have g1: "g_client g1 = g_client g" "g_refcnt g1 = g_refcnt g + 1"
      by (auto simp: EIO_def split: option.splits)
    define g2 where "g2 = snd (sdk_call_of env NewStream g1)"
    have g2: "g_client g2 = g_client g" "g_refcnt g2 = g_refcnt g + 1"
      using g1 by (simp_all add: g2_def sdk_call_of_def split_def Let_def)
    have twice: "g_refcnt g' = g_refcnt g - 1"
      if "put_client env s1 g2 = Some (s3, g3)" "delete_conn env s3 g3 = Some (s4, g4)" "put_client env s4 g4 = Some (s', g')"
      for s3 g3 s4 g4
      using put_ctx_refs [OF assms(1) _ that(1)] put_ctx_refs [OF assms(1) _ that(3)] delete_conn_refs [OF that(2)]
        g2 assms(2,3) by simp
    show ?thesis using assms(4) o True g2
      by (auto simp: mcm_audio_read_header_def json_def [symmetric] split_def Let_def g2_def [symmetric]
          dest: twice split: option.splits if_splits)
  qed
qed

definition demo_demuxer :: McmAudioDemuxerContext where
  "demo_demuxer = \<lparr>buf_queue_cap = 16, conn_delay = 0, conn_type = ''rdma'', urn = ''a'',
     ip_addr = [], port = 9001, mcast_sip_addr = [], payload_type = 111, rdma_provider = ''tcp'',
     rdma_num_endpoints = 1, mc = 0, conn = 0, ar_channels = 2, ar_sample_rate = 48000, ar_ptime = ''1ms'',
     ar_first_frame = True\<rparr>"

definition demo_av :: av_lib where
  "demo_av = \<lparr>av_get_pix_fmt_name = (\<lambda>_. ''v210''), av_fps_text = (\<lambda>_. ''25.00''),
     avcodec_get_name = (\<lambda>_. ''pcm_s16be'')\<rparr>"

theorem audio_read_header_references_witness:
  "\<exists>s' g'. mcm_audio_read_header delivering (\<lambda>_. None) demo_av 65537 demo_demuxer demo_globals =
     Some (- EINVAL, s', g') \<and> g_refcnt g' = 2"
proof -
  have e: "lock_works delivering" "g_client demo_globals \<noteq> 0" "0 < g_refcnt demo_globals"
    by (simp_all add: lock_works_def delivering_def mesh_res0_def demo_globals_def)
  have "\<exists>s' g'. mcm_audio_read_header delivering (\<lambda>_. None) demo_av 65537 demo_demuxer demo_globals =
     Some (- EINVAL, s', g')"
    by (simp add: mcm_audio_read_header_def audio_json_def demo_demuxer_def open_conn_def mcm_get_client_def
        sdk_call_of_def call_of_def ext_call_def Let_def delivering_def mesh_res0_def demo_globals_def errno_defs)
  then obtain s' g' where r: "mcm_audio_read_header delivering (\<lambda>_. None) demo_av 65537 demo_demuxer demo_globals =
     Some (- EINVAL, s', g')" by blast
  from audio_read_header_references [OF e r] r show ?thesis
    by (auto simp: errno_defs EIO_def demo_globals_def)
qed

section \<open>Signals\<close>

lemma mcm_handle_own: "g_prev_SIGINT_handler g = McmHandler \<Longrightarrow> mcm_handle_signal fuel SIGINT g = OutOfFuel"
  by (induction fuel arbitrary: g) simp_all

lemma get_client_handlers:
  assumes "mcm_get_client env jp m g = (0, m', g')" and "lock_works env" and "g_client g = 0"
  shows "g_prev_SIGINT_handler g' = (if g_prev_SIGINT_handler g = SIG_DFL then g_disp_SIGINT g else g_prev_SIGINT_handler g) \<and>
    g_disp_SIGINT g' = (if g_prev_SIGINT_handler g = SIG_DFL then McmHandler else g_disp_SIGINT g)"
  using assms
  by (auto simp: mcm_get_client_def install_handlers_def sdk_call_of_def Let_def split_def lock_works_def
      split: if_splits)

lemma put_client_handlers:
  assumes "mcm_put_client env m g = Some (r, m', g')"
  shows "g_prev_SIGINT_handler g' = g_prev_SIGINT_handler g \<and> g_disp_SIGINT g' = g_disp_SIGINT g"
  using assms
  by (auto simp: mcm_put_client_def sdk_call_of_def Let_def split_def split: if_splits option.splits)

text \<open>
  C38. A process uses the plugin, releases the client completely and uses the plugin again. What SIGINT
  does then depends on its disposition before the first client. If that was the default action, the
  process cannot be interrupted: after the first client a signal is noted and the handler returns,
  but after the second one the handler calls itself for ever, because it has been recorded as the
  handler that was installed before it. In no other case does it recurse; a handler the
  application had installed itself is called and the signal noted, also with the second client.
\<close>

theorem second_client_signal_recursion:
  assumes "lock_works env" and "g_client g = 0" and "g_prev_SIGINT_handler g = SIG_DFL" and "g_disp_SIGINT g \<noteq> McmHandler"
    and "mcm_get_client env jp m g = (0, m1, g1)"
    and "mcm_put_client env m1 g1 = Some (0, m2, g2)" and "g_client g2 = 0"
    and "mcm_get_client env jp m2 g2 = (0, m3, g3)"
  shows "((\<forall>fuel. mcm_handle_signal fuel SIGINT g3 = OutOfFuel) \<longleftrightarrow> g_disp_SIGINT g = SIG_DFL) \<and>
    (g_disp_SIGINT g = SIG_DFL \<longrightarrow> mcm_handle_signal (Suc fuel) SIGINT g1 = Returns (g1\<lparr>g_shutdown_requested := True\<rparr>)) \<and>
    (g_disp_SIGINT g = OtherHandler n \<longrightarrow> mcm_handle_signal (Suc fuel) SIGINT g3 = Returns (g3\<lparr>g_shutdown_requested := True\<rparr>))"
proof -
  have 1: "g_prev_SIGINT_handler g1 = g_disp_SIGINT g" "g_disp_SIGINT g1 = McmHandler"
    using get_client_handlers [OF assms(5,1,2)] assms(3) by simp_all
  then have 3: "g_prev_SIGINT_handler g3 = (if g_disp_SIGINT g = SIG_DFL then McmHandler else g_disp_SIGINT g)"
    using put_client_handlers [OF assms(6)] get_client_handlers [OF assms(8,1,7)] by simp
  have "mcm_handle_signal (Suc 0) SIGINT g3 \<noteq> OutOfFuel" if "g_disp_SIGINT g \<noteq> SIG_DFL"
    using that 3 assms(4) by (cases "g_disp_SIGINT g") auto
  then have "(\<forall>fuel. mcm_handle_signal fuel SIGINT g3 = OutOfFuel) \<longleftrightarrow> g_disp_SIGINT g = SIG_DFL"
    using 3 mcm_handle_own by metis
  then show ?thesis using 1 3 by simp
qed

definition fresh_globals :: mcm_globals where
  "fresh_globals = demo_globals\<lparr>g_client := 0, g_refcnt := 0, g_disp_SIGINT := SIG_DFL, g_disp_SIGTERM := SIG_DFL\<rparr>"

lemma fresh_client:
  assumes "g_client g = 0"
  shows "\<exists>g'. mcm_get_client delivering (\<lambda>_. Some (JObj [])) m g = (0, 4, g') \<and> g_client g' = 4 \<and> g_refcnt g' = 1 \<and>
    (\<exists>cl. ms_clients (g_sdk g') 4 = Some cl \<and> cl_conns cl = [])"
  using assms
  by (simp add: mcm_get_client_def sdk_call_of_def call_of_def ext_call_def Let_def delivering_def mesh_res0_def
      mesh_create_client_def client_init_def client_parse_from_json_def value_str_def value_int_def kv_parse.simps
      getline_def param_or_env_def new_client_def install_handlers_def)

lemma last_put:
  assumes "g_client g = 4" and "g_refcnt g = 1" and "ms_clients (g_sdk g) 4 = Some cl" and "cl_conns cl = []"
  shows "\<exists>g'. mcm_put_client delivering m g = Some (0, 0, g') \<and> g_client g' = 0"
  using assms
  by (simp add: mcm_put_client_def mesh_delete_client_def client_shutdown_def sdk_call_of_def call_of_def
      ext_call_def Let_def delivering_def mesh_res0_def)

theorem second_client_signal_recursion_witness:
  "\<exists>m1 g1 m2 g2 m3 g3. mcm_get_client delivering (\<lambda>_. Some (JObj [])) 0 fresh_globals = (0, m1, g1) \<and>
     mcm_put_client delivering m1 g1 = Some (0, m2, g2) \<and>
     mcm_get_client delivering (\<lambda>_. Some (JObj [])) m2 g2 = (0, m3, g3) \<and>
     mcm_handle_signal 1000 SIGINT g3 = OutOfFuel"
proof -
  have l: "lock_works delivering" by (simp add: lock_works_def delivering_def mesh_res0_def)
  have f: "g_client fresh_globals = 0" "g_prev_SIGINT_handler fresh_globals = SIG_DFL"
    "g_disp_SIGINT fresh_globals \<noteq> McmHandler" "g_disp_SIGINT fresh_globals = SIG_DFL"
    by (simp_all add: fresh_globals_def demo_globals_def)
  obtain g1 cl where 1: "mcm_get_client delivering (\<lambda>_. Some (JObj [])) 0 fresh_globals = (0, 4, g1)"
    "g_client g1 = 4" "g_refcnt g1 = 1" "ms_clients (g_sdk g1) 4 = Some cl" "cl_conns cl = []"
    using fresh_client [OF f(1)] by blast
  obtain g2 where 2: "mcm_put_client delivering 4 g1 = Some (0, 0, g2)" "g_client g2 = 0"
    using last_put [OF 1(2-5)] by blast
  obtain g3 where 3: "mcm_get_client delivering (\<lambda>_. Some (JObj [])) 0 g2 = (0, 4, g3)"
    using fresh_client [OF 2(2)] by blast
  show ?thesis
    using second_client_signal_recursion [OF l f(1-3) 1(1) 2 3] f(4) 1(1) 2(1) 3 by blast
qed

end
