(* ===== verification/Rdma_Conn.thy ===== *)
theory Rdma_Conn
  imports Sdk_Base Fabric_Dev Connection Memory
begin

text \<open>
  The media proxy's RDMA connections, media-proxy/src/mesh/conn_rdma.cc: the pool of registered
  buffers, configuration, establishing over the models of the device (theory \<open>Fabric_Dev\<close>) and the
  endpoints (theory \<open>Fabric_Ep\<close>), shutdown and destruction. libfabric, the allocator and threads are
  calls of the environment; the mutex around the pool is left out. The port numbers inside the
  socket addresses of a duplicated \<open>fi_info\<close>, which the model of \<open>fi_info\<close> does not hold, are not
  changed here. Log messages are left out.
\<close>

section \<open>State\<close>

text \<open>The base object is the field \<open>rd_conn\<close>. \<open>rd_next_idx\<close> is \<open>next_rx_idx\<close> or \<open>next_tx_idx\<close>. The
  bytes of the buffers are in \<open>rd_mem\<close>.\<close>

record rdma =
  rd_conn :: conn_obj
  rd_init :: bool
  rd_trx_sz :: u64
  rd_provider :: string
  rd_num_eps :: nat
  rd_ep_ctxs :: "ep_ctx_t option list"
  rd_ep_cfg :: ep_cfg_t
  rd_dev :: "libfabric_ctx option"
  rd_queue_size :: int
  rd_block :: nat
  rd_queue :: "nat list"
  rd_buf_available :: bool
  rd_next_idx :: u32
  rd_mem :: "nat \<Rightarrow> u8"

definition TRAILER :: u64 where "TRAILER = 8"
definition PAGE_SIZE :: u64 where "PAGE_SIZE = 4096"
definition MAX_BUFFER_SIZE :: u64 where "MAX_BUFFER_SIZE = 1073741824"

definition rd_set_state :: "state \<Rightarrow> 'a rdma_scheme \<Rightarrow> 'a rdma_scheme" where
  "rd_set_state s rd = rd\<lparr>rd_conn := set_state s (rd_conn rd)\<rparr>"

section \<open>The pool of buffers\<close>

definition add_to_queue :: "nat \<Rightarrow> 'a rdma_scheme \<Rightarrow> result \<times> 'a rdma_scheme" where
  "add_to_queue element rd =
     (if element = 0 then
        let (r, c) = set_result error_bad_argument (rd_conn rd) in (r, rd\<lparr>rd_conn := c\<rparr>)
      else (success, rd\<lparr>rd_queue := rd_queue rd @ [element], rd_buf_available := True\<rparr>))"

text \<open>The element is unchanged if there is none.\<close>

definition consume_from_queue ::
  "bool \<Rightarrow> nat \<Rightarrow> 'a rdma_scheme \<Rightarrow> result \<times> nat \<times> 'a rdma_scheme" where
  "consume_from_queue cancelled element rd =
     (if cancelled then (error_context_cancelled, 0, rd) else
      case rd_queue rd of
        [] \<Rightarrow> (error_no_buffer, element, rd)
      | b # bs \<Rightarrow> (success, b, rd\<lparr>rd_queue := bs\<rparr>))"

definition aligned_trx_sz :: "u64 \<Rightarrow> u64" where
  "aligned_trx_sz n = ((n + PAGE_SIZE - 1) div PAGE_SIZE) * PAGE_SIZE"

definition init_queue_with_elements ::
  "fab_env \<Rightarrow> u64 \<Rightarrow> u64 \<Rightarrow> 'a rdma_scheme \<Rightarrow> fab_trace \<Rightarrow> result \<times> 'a rdma_scheme \<times> fab_trace" where
  "init_queue_with_elements env capacity n rd tr =
     (if n = 0 \<or> n > MAX_BUFFER_SIZE then (error_bad_argument, rd, tr)
      else if rd_queue rd \<noteq> [] then (error_already_initialized, rd, tr) else
      let size_b = capacity * aligned_trx_sz n;
          (p, tr) = ext_call env (AlignedAlloc (unat PAGE_SIZE) (unat size_b)) tr
      in if out p = 0 then (error_out_of_memory, rd, tr)
         else (success,
           rd\<lparr>rd_mem := mem_write (out p) (replicate (unat size_b) 0) (rd_mem rd),
              rd_queue := map (\<lambda>i. out p + i * unat (aligned_trx_sz n)) [0..<unat capacity],
              rd_block := out p\<rparr>, tr))"

definition cleanup_queue :: "fab_env \<Rightarrow> 'a rdma_scheme \<Rightarrow> fab_trace \<Rightarrow> 'a rdma_scheme \<times> fab_trace" where
  "cleanup_queue env rd tr =
     (rd\<lparr>rd_block := 0, rd_queue := []\<rparr>,
      if rd_block rd \<noteq> 0 then snd (ext_call env (Free (rd_block rd)) tr) else tr)"

section \<open>Configuration\<close>

record mcm_rdma_args =
  transfer_size :: u64
  queue_size :: int
  provider :: "string option"
  num_endpoints :: u16

definition rdma_configure ::
  "mcm_rdma_args \<Rightarrow> rdma_addr \<Rightarrow> rdma_addr \<Rightarrow> libfabric_ctx option \<Rightarrow> 'a rdma_scheme \<Rightarrow> result \<times> 'a rdma_scheme" where
  "rdma_configure args local remote dev_handle rd =
     (success, rd_set_state configured
       (rd\<lparr>rd_trx_sz := transfer_size args,
           rd_provider := (case provider args of Some (c # cs) \<Rightarrow> c # cs | _ \<Rightarrow> ''verbs''),
           rd_num_eps := (if num_endpoints args \<ge> 1 \<and> num_endpoints args \<le> 8
                          then unat (num_endpoints args) else 1),
           rd_ep_cfg := \<lparr>cfg_rdma_ctx = None, remote_addr = remote, local_addr = local,
              dir = (if o_kind (rd_conn rd) = Kreceiver then RX else TX), shared_rx_cq = 0\<rparr>,
           rd_dev := dev_handle, rd_queue_size := queue_size args\<rparr>))"

section \<open>Establishing\<close>

definition blank_ctx :: "nat \<Rightarrow> fi_info \<Rightarrow> libfabric_ctx" where
  "blank_ctx p i = \<lparr>ctx_self = p, fabric = 0, domain = 0, info_ptr = 0, info = i,
     ctx_kind = FI_KIND_UNDEFINED, local_ip = [], remote_ip = [], local_port = [], remote_port = [],
     is_initialized = False, ep_attr_type = 0, addr_format = 0, provider_name = None\<rparr>"

text \<open>The device, if the connection has none yet: the result code of the failure, or the state.\<close>

definition open_rdma_device ::
  "fi_consts \<Rightarrow> fab_env \<Rightarrow> 'a rdma_scheme \<Rightarrow> fab_trace \<Rightarrow> result \<times> 'a rdma_scheme \<times> fab_trace" where
  "open_rdma_device K env rd tr = (case rd_dev rd of
      Some d \<Rightarrow> (success, rd, tr)
    | None \<Rightarrow>
        let (p, tr) = ext_call env Calloc tr in
        if out p = 0 then (error_out_of_memory, rd, tr) else
        let cfg = rd_ep_cfg rd;
            (n, tr) = ext_call env (Strdup (rd_provider rd)) tr;
            d = (blank_ctx (out p) (out_info p))\<lparr>
              ctx_kind := (if o_kind (rd_conn rd) = Kreceiver then FI_KIND_RECEIVER else FI_KIND_TRANSMITTER),
              local_ip := addr_ip (local_addr cfg), local_port := addr_port (local_addr cfg),
              remote_ip := addr_ip (remote_addr cfg), remote_port := addr_port (remote_addr cfg),
              provider_name := (if out n = 0 then None else Some (rd_provider rd))\<rparr>;
            ((r, dp), tr) = rdma_init K env (Some (Some d)) tr;
            dev = (case dp of Some x \<Rightarrow> x | None \<Rightarrow> None)
        in if r \<noteq> 0 then
             (error_initialization_failed, rd_set_state closed_st (rd\<lparr>rd_dev := None\<rparr>),
              case dev of Some d \<Rightarrow> snd (ext_call env (Free (ctx_self d)) tr) | None \<Rightarrow> tr)
           else (success, rd\<lparr>rd_dev := dev\<rparr>, tr))"

text \<open>\<open>bump_port_str\<close>, and the contexts of the further endpoints: copies of the device's with their
  own \<open>fi_info\<close>. \<open>cleanup_clones\<close> frees copies; a failure frees those made before.\<close>

definition bump_port_str :: "string \<Rightarrow> nat \<Rightarrow> string" where
  "bump_port_str src delta = take 5 (dec (unat (word_of_int (atoi src) :: u16) + delta))"

fun cleanup_clones :: "fab_env \<Rightarrow> libfabric_ctx list \<Rightarrow> fab_trace \<Rightarrow> fab_trace" where
  "cleanup_clones env [] tr = tr"
| "cleanup_clones env (d # ds) tr =
     cleanup_clones env ds (snd (ext_call env (Free (ctx_self d)) (snd (ext_call env (FiFreeinfo (info_ptr d)) tr))))"

fun clone_devs ::
  "nat \<Rightarrow> fab_env \<Rightarrow> libfabric_ctx \<Rightarrow> libfabric_ctx list \<Rightarrow> fab_trace \<Rightarrow> (result + libfabric_ctx list) \<times> fab_trace" where
  "clone_devs 0 env d ds tr = (Inr ds, tr)"
| "clone_devs (Suc n) env d ds tr =
     (let (i, tr) = ext_call env (FiDupinfo (info_ptr d)) tr in
      if out i = 0 then (Inl error_initialization_failed, cleanup_clones env ds tr) else
      let (p, tr) = ext_call env Calloc tr in
      if out p = 0 then
        (Inl error_out_of_memory, cleanup_clones env ds (snd (ext_call env (FiFreeinfo (out i)) tr)))
      else clone_devs n env d
        (ds @ [d\<lparr>ctx_self := out p, info_ptr := out i, info := out_info i, is_initialized := True\<rparr>]) tr)"

definition ep_cfgs :: "ep_cfg_t \<Rightarrow> libfabric_ctx list \<Rightarrow> ep_cfg_t list" where
  "ep_cfgs cfg devs = map (\<lambda>(i, d).
     (if i = 0 then cfg else cfg\<lparr>
        local_addr := (local_addr cfg)\<lparr>addr_port := bump_port_str (addr_port (local_addr cfg)) i\<rparr>,
        remote_addr := (remote_addr cfg)\<lparr>addr_port := bump_port_str (addr_port (remote_addr cfg)) i\<rparr>\<rparr>)
     \<lparr>cfg_rdma_ctx := Some d\<rparr>) (enumerate 0 devs)"

fun destroy_all :: "fab_env \<Rightarrow> ep_ctx_t option list \<Rightarrow> fab_trace \<Rightarrow> ep_ctx_t option list \<times> fab_trace" where
  "destroy_all env [] tr = ([], tr)"
| "destroy_all env (None # es) tr = (let (es, tr) = destroy_all env es tr in (None # es, tr))"
| "destroy_all env (Some e # es) tr =
     (let ((_, p), tr) = ep_destroy env (Some (Some e)) tr;
          (es, tr) = destroy_all env es tr
      in ((case p of Some x \<Rightarrow> x | None \<Rightarrow> None) # es, tr))"

text \<open>The endpoints are initialised in order; all but the first share the completion queue of the
  first one. The result is whether all succeeded, how many did, and the vector. When the
  endpoint \<open>n\<close> fails, only the copies up to it are freed.\<close>

fun init_eps ::
  "fi_consts \<Rightarrow> fab_env \<Rightarrow> nat \<Rightarrow> ep_cfg_t list \<Rightarrow> ep_ctx_t option list \<Rightarrow> fab_trace \<Rightarrow>
   bool \<times> nat \<times> ep_ctx_t option list \<times> fab_trace" where
  "init_eps K env i [] eps tr = (True, i, eps, tr)"
| "init_eps K env i (cfg # cfgs) eps tr =
     (let shared = (if i = 0 then 0 else (case eps ! 0 of Some e \<Rightarrow> cq (cq_ctx e) | None \<Rightarrow> 0));
          ((r, p, _), tr) = ep_init K env (Some (eps ! i)) (Some (cfg\<lparr>shared_rx_cq := shared\<rparr>)) tr;
          eps = eps[i := (case p of Some x \<Rightarrow> x | None \<Rightarrow> None)]
      in if r \<noteq> 0 then (False, i, eps, tr) else init_eps K env (Suc i) cfgs eps tr)"

fun reg_eps ::
  "fi_consts \<Rightarrow> fab_env \<Rightarrow> nat \<Rightarrow> nat \<Rightarrow> ep_ctx_t option list \<Rightarrow> fab_trace \<Rightarrow> bool \<times> ep_ctx_t option list \<times> fab_trace" where
  "reg_eps K env block sz [] tr = (True, [], tr)"
| "reg_eps K env block sz (None # es) tr = (False, None # es, tr)"
| "reg_eps K env block sz (Some e # es) tr =
     (let ((r, e), tr) = ep_reg_mr K env e block sz tr in
      if r \<noteq> 0 then (False, Some e # es, tr)
      else let (ok, es, tr) = reg_eps K env block sz es tr in (ok, Some e # es, tr))"

text \<open>\<open>start_threads\<close>: one thread for a transmitter, two for a receiver.\<close>

definition start_threads :: "fab_env \<Rightarrow> 'a rdma_scheme \<Rightarrow> fab_trace \<Rightarrow> result \<times> fab_trace" where
  "start_threads env rd tr =
     (let (a, tr) = ext_call env StartThread tr in
      if ret a \<noteq> 0 then (error_thread_creation_failed, tr)
      else if o_kind (rd_conn rd) \<noteq> Kreceiver then (success, tr)
      else let (b, tr) = ext_call env StartThread tr
           in (if ret b \<noteq> 0 then error_thread_creation_failed else success, tr))"

text \<open>The way out after the endpoints have been created: they are destroyed, the copies are freed,
  the connection is closed.\<close>

definition abandon_eps ::
  "fab_env \<Rightarrow> libfabric_ctx list \<Rightarrow> 'a rdma_scheme \<Rightarrow> fab_trace \<Rightarrow> 'a rdma_scheme \<times> fab_trace" where
  "abandon_eps env clones rd tr =
     (let (eps, tr) = destroy_all env (rd_ep_ctxs rd) tr
      in (rd_set_state closed_st (rd\<lparr>rd_ep_ctxs := eps\<rparr>), cleanup_clones env clones tr))"

definition establish_eps ::
  "fi_consts \<Rightarrow> fab_env \<Rightarrow> libfabric_ctx \<Rightarrow> libfabric_ctx list \<Rightarrow> 'a rdma_scheme \<Rightarrow> fab_trace \<Rightarrow>
   result \<times> 'a rdma_scheme \<times> fab_trace" where
  "establish_eps K env d clones rd tr =
     (let (ok, n, eps, tr) = init_eps K env 0 (ep_cfgs (rd_ep_cfg rd) (d # clones)) (rd_ep_ctxs rd) tr;
          rd = rd\<lparr>rd_ep_ctxs := eps\<rparr>
      in if \<not> ok then (error_initialization_failed, abandon_eps env (take n clones) rd tr) else
      let capacity = word_of_int (rd_queue_size rd);
          (res, rd, tr) = init_queue_with_elements env capacity (rd_trx_sz rd + TRAILER) rd tr
      in if res \<noteq> success then (res, abandon_eps env clones rd tr) else
      let size_b = capacity * aligned_trx_sz (rd_trx_sz rd + TRAILER);
          (ok, eps, tr) = reg_eps K env (rd_block rd) (unat size_b) (rd_ep_ctxs rd) tr;
          rd = rd\<lparr>rd_ep_ctxs := eps\<rparr>
      in if \<not> ok then (error_memory_registration_failed, abandon_eps env clones rd tr) else
      let rd = rd\<lparr>rd_init := True\<rparr>;
          (res, tr) = start_threads env rd tr
      in if res \<noteq> success then (res, abandon_eps env clones rd tr)
         else (success, rd_set_state active rd, tr))"

definition rdma_on_establish ::
  "fi_consts \<Rightarrow> fab_env \<Rightarrow> 'a rdma_scheme \<Rightarrow> fab_trace \<Rightarrow> result \<times> 'a rdma_scheme \<times> fab_trace" where
  "rdma_on_establish K env rd tr =
     (if rd_init rd then (error_already_initialized, rd_set_state active rd, tr) else
      let (res, rd, tr) = open_rdma_device K env (rd\<lparr>rd_buf_available := False\<rparr>) tr in
      if res \<noteq> success then (res, rd, tr) else
      case rd_dev rd of
        None \<Rightarrow> (error_initialization_failed, rd, tr)
      | Some d \<Rightarrow>
          let n = rd_num_eps rd;
              rd = rd\<lparr>rd_ep_ctxs := take n (rd_ep_ctxs rd @ replicate n None)\<rparr>;
              (cl, tr) = clone_devs (n - 1) env d [] tr
          in (case cl of
                Inl e \<Rightarrow> (e, rd_set_state closed_st rd, tr)
              | Inr clones \<Rightarrow> establish_eps K env d clones rd tr))"

section \<open>Shutting down\<close>

text \<open>\<open>cleanup_resources\<close> destroys the endpoints from the last to the first. It would return early if
  \<open>ep_destroy\<close> failed, but \<open>ep_destroy\<close> of an endpoint always returns 0.\<close>

lemma ep_destroy_returns_0: "fst (fst (ep_destroy env (Some (Some e)) tr)) = 0"
  by (simp add: ep_destroy_def Let_def)

definition cleanup_resources ::
  "fab_env \<Rightarrow> 'a rdma_scheme \<Rightarrow> fab_trace \<Rightarrow> result \<times> 'a rdma_scheme \<times> fab_trace" where
  "cleanup_resources env rd tr =
     (let (eps, tr) = destroy_all env (rev (rd_ep_ctxs rd)) tr;
          (rd, tr) = cleanup_queue env (rd\<lparr>rd_ep_ctxs := rev eps\<rparr>) tr
      in (success, rd\<lparr>rd_init := False\<rparr>, tr))"

definition rdma_on_shutdown ::
  "fab_env \<Rightarrow> 'a rdma_scheme \<Rightarrow> fab_trace \<Rightarrow> result \<times> 'a rdma_scheme \<times> fab_trace" where
  "rdma_on_shutdown env rd tr =
     (let rd = rd\<lparr>rd_buf_available := True\<rparr>;
          (a, tr) = ext_call env JoinThread tr
      in if ret a \<noteq> 0 then (error_general_failure, rd, tr) else
      let (b, tr) = ext_call env JoinThread tr in
      if ret b \<noteq> 0 then (error_general_failure, rd, tr) else
      let (rd, tr) = (if rd_init rd then snd (cleanup_resources env rd tr) else (rd, tr))
      in (success, rd_set_state closed_st rd, tr))"

text \<open>The destructor; \<open>users\<close> is the number of RDMA connections of the process.\<close>

definition deinit_rdma_if_needed ::
  "fab_env \<Rightarrow> int \<Rightarrow> libfabric_ctx option \<Rightarrow> fab_trace \<Rightarrow> fab_trace" where
  "deinit_rdma_if_needed env users dev tr =
     (if users = 0 \<and> dev \<noteq> None then snd (rdma_deinit env (Some dev) tr) else tr)"

definition rdma_destroy :: "fab_env \<Rightarrow> int \<Rightarrow> 'a rdma_scheme \<Rightarrow> fab_trace \<Rightarrow> int \<times> fab_trace" where
  "rdma_destroy env users rd tr =
     (let (_, rd, tr) = rdma_on_shutdown env rd tr
      in (users - 1, deinit_rdma_if_needed env (users - 1) (rd_dev rd) tr))"

definition rdma_configure_endpoint ::
  "fi_consts \<Rightarrow> fab_env \<Rightarrow> 'a rdma_scheme \<Rightarrow> fab_trace \<Rightarrow> result \<times> 'a rdma_scheme \<times> fab_trace" where
  "rdma_configure_endpoint K env rd tr =
     (if list_ex (\<lambda>e. e = None) (rd_ep_ctxs rd) then (error_wrong_state, rd, tr)
      else if rd_block rd = 0 then (error_out_of_memory, rd, tr) else
      let size_b = of_nat (length (rd_queue rd)) * aligned_trx_sz (rd_trx_sz rd + TRAILER);
          (ok, eps, tr) = reg_eps K env (rd_block rd) (unat size_b) (rd_ep_ctxs rd) tr
      in (if ok then success else error_memory_registration_failed, rd\<lparr>rd_ep_ctxs := eps\<rparr>, tr))"

section \<open>The contract of a connection class\<close>

text \<open>The virtual methods of a connection that has not been initialised yet; a method of an
  initialised one is outside the contract, because it answers with an error and makes the
  connection active.\<close>

definition rdma_establish_op :: "fi_consts \<Rightarrow> fab_env \<Rightarrow> rdma \<Rightarrow> fab_trace \<Rightarrow> conn_op" where
  "rdma_establish_op K env rd tr c =
     (let (r, rd, tr) = rdma_on_establish K env (rd\<lparr>rd_init := False, rd_conn := c\<rparr>) tr in (r, rd_conn rd))"

definition rdma_shutdown_op :: "fab_env \<Rightarrow> rdma \<Rightarrow> fab_trace \<Rightarrow> conn_op" where
  "rdma_shutdown_op env rd tr c =
     (let (r, rd, tr) = rdma_on_shutdown env (rd\<lparr>rd_conn := c\<rparr>) tr in (r, rd_conn rd))"

lemma rd_set_state_sel [simp]:
  "rd_conn (rd_set_state s rd) = set_state s (rd_conn rd)" "rd_queue (rd_set_state s rd) = rd_queue rd"
  "rd_init (rd_set_state s rd) = rd_init rd" "rd_ep_ctxs (rd_set_state s rd) = rd_ep_ctxs rd"
  "rd_dev (rd_set_state s rd) = rd_dev rd" "rd_num_eps (rd_set_state s rd) = rd_num_eps rd"
  "rd_block (rd_set_state s rd) = rd_block rd"
  by (simp_all add: rd_set_state_def)

lemma abandon_eps_sel:
  assumes "abandon_eps env clones rd tr = (rd', tr')"
  shows "rd_conn rd' = set_state closed_st (rd_conn rd)" "rd_queue rd' = rd_queue rd" "rd_init rd' = rd_init rd"
  using assms by (auto simp: abandon_eps_def Let_def split: prod.splits)

lemma init_queue_sel:
  assumes "init_queue_with_elements env capacity n rd tr = (r, rd', tr')"
  shows "rd_conn rd' = rd_conn rd" "rd_init rd' = rd_init rd" "rd_ep_ctxs rd' = rd_ep_ctxs rd"
    "opened tr' = opened tr" "closed tr' = closed tr" "r = success \<Longrightarrow> rd_queue rd = []"
    "r = success \<Longrightarrow> length (rd_queue rd') = unat capacity" "r \<noteq> success \<Longrightarrow> rd_queue rd' = rd_queue rd"
  using assms by (auto simp: init_queue_with_elements_def ext_call_def Let_def split: if_splits)

lemma establish_eps_state:
  assumes "establish_eps K env d clones rd tr = (r, rd', tr')"
  shows "rd_conn rd' = set_state (if r = success then active else closed_st) (rd_conn rd)"
  using assms
  by (auto simp: establish_eps_def Let_def dest!: abandon_eps_sel(1) init_queue_sel(1) split: prod.splits if_splits)

lemma open_rdma_device_state:
  assumes "open_rdma_device K env rd tr = (r, rd', tr')"
  shows "rd_conn rd' = rd_conn rd \<or> r \<noteq> success \<and> rd_conn rd' = set_state closed_st (rd_conn rd)"
  using assms by (auto simp: open_rdma_device_def Let_def split: option.splits prod.splits if_splits)

lemma cleanup_clones_ledger [simp]:
  "opened (cleanup_clones env ds tr) = opened tr" "closed (cleanup_clones env ds tr) = closed tr"
  by (induction env ds tr rule: cleanup_clones.induct) simp_all

lemma clone_devs_ledger:
  "clone_devs n env d ds tr = (cl, tr') \<Longrightarrow> opened tr' = opened tr \<and> closed tr' = closed tr \<and> cl \<noteq> Inl success"
  by (induction n env d ds tr rule: clone_devs.induct) (auto simp: ext_call_def Let_def split: if_splits)

lemma on_establish_state:
  assumes "rdma_on_establish K env rd tr = (r, rd', tr')" and "\<not> rd_init rd"
  shows "if r = success then rd_conn rd' = set_state active (rd_conn rd)
    else rd_conn rd' = rd_conn rd \<or> rd_conn rd' = set_state closed_st (rd_conn rd)"
proof -
  obtain r1 rd1 tr1 where o: "open_rdma_device K env (rd\<lparr>rd_buf_available := False\<rparr>) tr = (r1, rd1, tr1)"
    by (metis prod_cases3)
  note o1 = open_rdma_device_state [OF o]
  show ?thesis using assms o o1
    by (auto simp: rdma_on_establish_def Let_def dest!: establish_eps_state clone_devs_ledger
        split: option.splits prod.splits if_splits sum.splits)
qed

lemma on_shutdown_state:
  assumes "rdma_on_shutdown env rd tr = (r, rd', tr')"
  shows "if r = success then rd_conn rd' = set_state closed_st (rd_conn rd) else rd_conn rd' = rd_conn rd"
  using assms
  by (auto simp: rdma_on_shutdown_def cleanup_resources_def cleanup_queue_def ext_call_def Let_def
      split: prod.splits if_splits)

interpretation rdma_be: conn_backend "rdma_establish_op K env rd tr" "rdma_shutdown_op env rd tr"
  for K env rd tr
proof unfold_locales
  fix c r c'
  assume "o_state c = establishing" "rdma_establish_op K env rd tr c = (r, c')"
  then show "(if r = success then o_state c' \<in> {active, suspended} else o_state c' \<in> {establishing, closed_st}) \<and>
      o_kind c' = o_kind c"
    by (auto simp: rdma_establish_op_def Let_def dest!: on_establish_state split: prod.splits if_splits)
next
  fix c r c'
  assume "o_state c = closing" "rdma_shutdown_op env rd tr c = (r, c')"
  then show "(if r = success then o_state c' = closed_st else o_state c' \<in> {closing, closed_st}) \<and>
      o_kind c' = o_kind c"
    by (auto simp: rdma_shutdown_op_def Let_def dest!: on_shutdown_state split: prod.splits if_splits)
qed

section \<open>Handles of a failed attempt\<close>

definition owned_all :: "ep_ctx_t option list \<Rightarrow> nat multiset" where
  "owned_all eps = \<Sum>\<^sub># (mset (map (\<lambda>e. case e of None \<Rightarrow> {#} | Some c \<Rightarrow> owned c) eps))"

lemma owned_all_simps [simp]:
  "owned_all [] = {#}" "owned_all (None # es) = owned_all es" "owned_all (Some c # es) = owned c + owned_all es"
  "owned_all (es @ es') = owned_all es + owned_all es'" "owned_all (replicate n None) = {#}"
  by (simp_all add: owned_all_def)

lemma destroy_all_ledger:
  "destroy_all env eps tr = (eps', tr') \<Longrightarrow>
   eps' = replicate (length eps) None \<and> opened tr' = opened tr \<and> closed tr' = closed tr + owned_all eps"
proof (induction env eps tr arbitrary: eps' tr' rule: destroy_all.induct)
  case (3 env e es tr)
  obtain d p t where d: "ep_destroy env (Some (Some e)) tr = ((d, p), t)" by (metis prod.collapse)
  obtain es1 t1 where e: "destroy_all env es t = (es1, t1)" by force
  show ?case using 3 d e ep_destroy_ledger [OF d] by (simp add: ac_simps)
qed (auto split: prod.splits)

text \<open>The state of the vector while the endpoints are brought up: the first ones are in order and the
  rest is empty.\<close>

definition eps_ready :: "nat \<Rightarrow> ep_ctx_t option list \<Rightarrow> bool" where
  "eps_ready i eps \<longleftrightarrow> (\<exists>cs. eps = map Some cs @ replicate (length eps - i) None \<and> length cs = i \<and>
     list_all (\<lambda>c. data_mr c = 0) cs \<and> (i > 0 \<longrightarrow> \<not> external (cq_ctx (hd cs)) \<and> cq (cq_ctx (hd cs)) \<noteq> 0))"

text \<open>The completion queue of the first endpoint, which the others share.\<close>

definition first_cq :: "ep_ctx_t option list \<Rightarrow> nat" where
  "first_cq eps = (case eps ! 0 of Some e \<Rightarrow> cq (cq_ctx e) | None \<Rightarrow> 0)"

lemma eps_ready_step:
  assumes "eps_ready i eps" and "i < length eps" and "data_mr c = 0"
    and "i = 0 \<longrightarrow> \<not> external (cq_ctx c) \<and> cq (cq_ctx c) \<noteq> 0"
  shows "eps_ready (Suc i) (eps[i := Some c])" "owned_all (eps[i := Some c]) = owned_all eps + owned c"
    "eps ! i = None"
proof -
  obtain cs where cs: "eps = map Some cs @ replicate (length eps - i) None" "length cs = i"
    "list_all (\<lambda>c. data_mr c = 0) cs" "i > 0 \<longrightarrow> \<not> external (cq_ctx (hd cs)) \<and> cq (cq_ctx (hd cs)) \<noteq> 0"
    using assms(1) unfolding eps_ready_def by blast
  obtain k where k: "length eps - i = Suc k" using assms(2) by (metis Suc_diff_Suc)
  have e: "eps = map Some cs @ None # replicate k None" using cs(1) k by simp
  then have u: "eps[i := Some c] = map Some (cs @ [c]) @ replicate k None"
    using cs(2) by (simp add: list_update_append)
  show "eps ! i = None" using e cs(2) by (metis length_map nth_append_length)
  show "owned_all (eps[i := Some c]) = owned_all eps + owned c"
    unfolding u by (subst e) (simp add: ac_simps)
  have "length (eps[i := Some c]) - Suc i = k" using k by simp
  then show "eps_ready (Suc i) (eps[i := Some c])"
    unfolding eps_ready_def using u cs(2-4) assms(3,4)
    by (intro exI [of _ "cs @ [c]"]) (cases cs, auto)
qed

lemma eps_ready_head:
  assumes "eps_ready i eps" and "0 < i"
  shows "first_cq eps \<noteq> 0" "first_cq eps \<in># owned_all eps"
proof -
  obtain cs where cs: "eps = map Some cs @ replicate (length eps - i) None" "length cs = i"
    "\<not> external (cq_ctx (hd cs))" "cq (cq_ctx (hd cs)) \<noteq> 0"
    using assms unfolding eps_ready_def by blast
  obtain c cs' where c: "cs = c # cs'" using cs(2) assms(2) by (cases cs) auto
  have eps: "eps = Some c # (map Some cs' @ replicate (length eps - i) None)" using cs(1) c by simp
  have f: "first_cq eps = cq (cq_ctx c)" by (subst eps) (simp add: first_cq_def)
  have "cq (cq_ctx c) \<in># owned c" using c cs(3,4) by (simp add: owned_def handle_def)
  then have "cq (cq_ctx c) \<in># owned_all eps" by (subst eps) simp
  then show "first_cq eps \<noteq> 0" "first_cq eps \<in># owned_all eps" using f c cs(4) by simp_all
qed

lemma eps_ready_none:
  assumes "eps_ready i eps" and "i < length eps"
  shows "eps ! i = None"
proof -
  obtain cs where cs: "eps = map Some cs @ replicate (length eps - i) None" "length cs = i"
    using assms(1) unfolding eps_ready_def by blast
  have "eps ! i = (map Some cs @ replicate (length eps - i) None) ! i"
    by (rule arg_cong [where f = "\<lambda>e. e ! i", OF cs(1)])
  with cs(2) assms(2) show ?thesis by (simp add: nth_append)
qed

lemma init_eps_ledger:
  assumes "valid_handles env" and "eps_ready i eps" and "length eps = i + length cfgs"
    and "init_eps K env i cfgs eps tr = (ok, n, eps', tr')"
  shows "\<exists>X. opened tr' + owned_all eps = opened tr + owned_all eps' + X \<and>
    closed tr' = closed tr + X + (if X = {#} \<or> n = 0 then {#} else {#first_cq eps'#}) \<and>
    eps_ready n eps' \<and> (if ok then X = {#} \<and> n = length eps' else n < length eps) \<and> length eps' = length eps"
  using assms(2-4)
proof (induction cfgs arbitrary: i eps tr)
  case Nil
  then show ?case by auto
next
  case (Cons cfg cfgs)
  define s where "s = (if i = 0 then 0 else first_cq eps)"
  have i: "i < length eps" using Cons.prems(2) by simp
  have s: "handle s = (if i = 0 then {#} else {#first_cq eps#})"
    using eps_ready_head(1) [OF Cons.prems(1)] by (cases "i = 0") (simp_all add: s_def handle_def)
  note s_fold = s_def [unfolded first_cq_def, symmetric]
  obtain r p cfg' t where e: "ep_init K env (Some (eps ! i)) (Some (cfg\<lparr>shared_rx_cq := s\<rparr>)) tr = ((r, p, cfg'), t)"
    by (metis prod.collapse)
  note c = ep_init_cases [OF assms(1) e]
  show ?case
  proof (cases "r = 0")
    case False
    have none: "eps ! i = None" by (rule eps_ready_none [OF Cons.prems(1) i])
    obtain X where X: "opened t = opened tr + X"
      "closed t = closed tr + X + (if X = {#} then {#} else handle s)" and p: "p = Some None"
      using c False none by (auto simp: given_back_def)
    have "(ok, n, eps', tr') = (False, i, eps, t)"
      using Cons.prems(3) e False p none by (simp add: s_fold Let_def) (metis list_update_id)
    then show ?thesis using X s i Cons.prems(1) by (intro exI [of _ X]) (auto simp: ac_simps)
  next
    case True
    then obtain c where o: "p = Some (Some c)" "in_order s tr c t" using c by auto
    have "cq (cq_ctx c) \<noteq> 0" using ep_init_cq [OF assms(1)] e True o(1) by metis
    then have "data_mr c = 0" "i = 0 \<longrightarrow> \<not> external (cq_ctx c) \<and> cq (cq_ctx c) \<noteq> 0"
      using o(2) by (auto simp: in_order_def s_def)
    note st = eps_ready_step [OF Cons.prems(1) i this]
    have run: "init_eps K env (Suc i) cfgs (eps[i := Some c]) t = (ok, n, eps', tr')"
      using Cons.prems(3) e True o(1) by (simp add: s_fold Let_def)
    have len: "length (eps[i := Some c]) = Suc i + length cfgs" using Cons.prems(2) by simp
    let ?D = "\<lambda>X. if X = {#} \<or> n = 0 then {#} else {#first_cq eps'#}"
    from Cons.IH [OF st(1) len run] obtain X where
      "opened tr' + owned_all (eps[i := Some c]) = opened t + owned_all eps' + X" "closed tr' = closed t + X + ?D X"
      and rest: "eps_ready n eps'" "if ok then X = {#} \<and> n = length eps' else n < length eps" "length eps' = length eps"
      unfolding length_list_update by blast
    then have "opened tr' + owned_all eps = opened tr + owned_all eps' + X" "closed tr' = closed tr + X + ?D X"
      using o(2) st(2) by (simp_all add: in_order_def ac_simps)
    with rest show ?thesis by blast
  qed
qed

lemma reg_eps_ledger:
  assumes "valid_handles env" and "list_all (\<lambda>e. case e of None \<Rightarrow> True | Some c \<Rightarrow> data_mr c = 0) eps"
    and "reg_eps K env block sz eps tr = (ok, eps', tr')"
  shows "opened tr' + owned_all eps = opened tr + owned_all eps' \<and> closed tr' = closed tr"
  using assms(2,3)
proof (induction eps arbitrary: tr ok eps' tr')
  case (Cons x es)
  show ?case
  proof (cases x)
    case (Some e)
    obtain r e' t where g: "ep_reg_mr K env e block sz tr = ((r, e'), t)" by (metis prod.collapse)
    have "data_mr e = 0" using Cons.prems(1) Some by simp
    note o = ep_reg_mr_owned [OF assms(1) this g]
    show ?thesis
    proof (cases "r = 0")
      case True
      obtain ok1 es1 t1 where r: "reg_eps K env block sz es t = (ok1, es1, t1)" by (metis prod_cases3)
      have "list_all (\<lambda>e. case e of None \<Rightarrow> True | Some c \<Rightarrow> data_mr c = 0) es" using Cons.prems(1) by simp
      from Cons.IH [OF this r] have ih: "opened t1 + owned_all es = opened t + owned_all es1" "closed t1 = closed t"
        by simp_all
      have "opened t1 + (owned e + owned_all es) = (opened t + owned e) + owned_all es1"
        using ih(1) by (simp add: ac_simps)
      also have "\<dots> = opened tr + (owned e' + owned_all es1)" using o(1) by (simp add: ac_simps)
      finally show ?thesis using Cons.prems(2) Some g True r o(2) ih(2) by auto
    next
      case False
      have "opened t + (owned e + owned_all es) = opened tr + (owned e' + owned_all es)"
        using o(1) by (simp add: add.assoc [symmetric])
      then show ?thesis using Cons.prems(2) Some g o(2) False by auto
    qed
  qed (use Cons.prems in simp)
qed simp

lemma abandon_eps_ledger:
  assumes "abandon_eps env clones rd tr = (rd', tr')"
  shows "opened tr' = opened tr" "closed tr' = closed tr + owned_all (rd_ep_ctxs rd)"
    "rd_ep_ctxs rd' = replicate (length (rd_ep_ctxs rd)) None"
  using assms destroy_all_ledger [of env "rd_ep_ctxs rd" tr]
  by (auto simp: abandon_eps_def Let_def split: prod.splits)

lemma start_threads_ledger:
  "start_threads env rd tr = (r, tr') \<Longrightarrow> opened tr' = opened tr \<and> closed tr' = closed tr"
  by (auto simp: start_threads_def ext_call_def Let_def split: if_splits)

lemma eps_ready_mr:
  assumes "eps_ready i eps"
  shows "list_all (\<lambda>e. case e of None \<Rightarrow> True | Some c \<Rightarrow> data_mr c = 0) eps"
proof -
  obtain cs where cs: "eps = map Some cs @ replicate (length eps - i) None" "list_all (\<lambda>c. data_mr c = 0) cs"
    using assms unfolding eps_ready_def by blast
  show ?thesis by (subst cs(1)) (use cs(2) in \<open>auto simp: list_all_iff\<close>)
qed

lemma reg_eps_length: "reg_eps K env block sz eps tr = (ok, eps', tr') \<Longrightarrow> length eps' = length eps"
  by (induction K env block sz eps tr arbitrary: eps' ok tr' rule: reg_eps.induct)
     (auto simp: Let_def split: prod.splits if_splits)

text \<open>The handle that is closed twice when the endpoints cannot be brought up: the shared completion queue,
  if \<open>ep_init\<close> of one of the further endpoints fails after it has opened a handle.\<close>

definition closed_twice :: "fab_trace \<Rightarrow> bool \<times> nat \<times> ep_ctx_t option list \<times> fab_trace \<Rightarrow> nat multiset" where
  "closed_twice tr run = (case run of (ok, n, eps, tr') \<Rightarrow>
     if \<not> ok \<and> 0 < n \<and> opened tr' \<noteq> opened tr + owned_all eps then {#first_cq eps#} else {#})"

lemma establish_eps_ledger:
  assumes "valid_handles env" and "rd_ep_ctxs rd = replicate (Suc (length clones)) None"
    and "establish_eps K env d clones rd tr = (r, rd', tr')" and "r \<noteq> success"
  shows "\<exists>X D. opened tr' = opened tr + X \<and> closed tr' = closed tr + X + D \<and> D \<subseteq># X \<and>
    (clones = [] \<longrightarrow> D = {#}) \<and> rd_ep_ctxs rd' = rd_ep_ctxs rd \<and>
    D = closed_twice tr (init_eps K env 0 (ep_cfgs (rd_ep_cfg rd) (d # clones)) (rd_ep_ctxs rd) tr)"
proof -
  let ?cfgs = "ep_cfgs (rd_ep_cfg rd) (d # clones)"
  obtain ok n eps t where i: "init_eps K env 0 ?cfgs (rd_ep_ctxs rd) tr = (ok, n, eps, t)" by (metis prod_cases4)
  have rdy: "eps_ready 0 (rd_ep_ctxs rd)" using assms(2) by (simp add: eps_ready_def)
  have len: "length (rd_ep_ctxs rd) = 0 + length ?cfgs" using assms(2) by (simp add: ep_cfgs_def)
  define D where "D = closed_twice tr (ok, n, eps, t)"
  obtain X where l: "opened t = opened tr + owned_all eps + X" "closed t = closed tr + X + (if X = {#} \<or> n = 0 then {#} else {#first_cq eps#})"
    "eps_ready n eps" "if ok then X = {#} else n < Suc (length clones)" "length eps = Suc (length clones)"
    using init_eps_ledger [OF assms(1) rdy len i] assms(2) by (auto split: if_splits)
  have D: "(if X = {#} \<or> n = 0 then {#} else {#first_cq eps#}) = D" "D \<subseteq># owned_all eps" "n = 0 \<longrightarrow> D = {#}" "ok \<longrightarrow> D = {#}"
    using l eps_ready_head(2) [OF l(3)] by (auto simp: D_def closed_twice_def split: if_splits)
  show ?thesis
  proof (cases ok)
    case False
    then have a: "abandon_eps env (take n clones) (rd\<lparr>rd_ep_ctxs := eps\<rparr>) t = (rd', tr')"
      using assms(3) i by (auto simp: establish_eps_def)
    note al = abandon_eps_ledger [OF a]
    have "opened tr' = opened tr + (owned_all eps + X)" "closed tr' = closed tr + (owned_all eps + X) + D"
      using al l(1) l(2) [unfolded D(1)] by (simp_all add: ac_simps)
    moreover have "D \<subseteq># owned_all eps + X" using D(2) by (simp add: subset_mset.add_increasing2)
    ultimately show ?thesis using al(3) l(4,5) D(3) False assms(2) i
      by (intro exI [of _ "owned_all eps + X"] exI [of _ D]) (auto simp: D_def)
  next
    case True
    then have t: "opened t = opened tr + owned_all eps" "closed t = closed tr" "closed_twice tr (ok, n, eps, t) = {#}"
      using l D(4) by (simp_all add: D_def)
    have mr: "list_all (\<lambda>e. case e of None \<Rightarrow> True | Some c \<Rightarrow> data_mr c = 0) eps" by (rule eps_ready_mr [OF l(3)])
    have fin: ?thesis if "abandon_eps env clones rd2 t2 = (rd', tr')" "length (rd_ep_ctxs rd2) = Suc (length clones)"
      "opened t2 = opened tr + owned_all (rd_ep_ctxs rd2)" "closed t2 = closed tr" for rd2 t2
      using abandon_eps_ledger [OF that(1)] that(2-4) assms(2) t(3) i
      by (intro exI [of _ "owned_all (rd_ep_ctxs rd2)"] exI [of _ "{#}"]) simp
    define rd1 where "rd1 = rd\<lparr>rd_ep_ctxs := eps\<rparr>"
    obtain res rd2 t2 where q: "init_queue_with_elements env (word_of_int (rd_queue_size rd)) (rd_trx_sz rd + TRAILER)
        rd1 t = (res, rd2, t2)" by (metis prod_cases3)
    have q': "rd_ep_ctxs rd2 = eps" "opened t2 = opened t" "closed t2 = closed t"
      using init_queue_sel(3-5) [OF q] by (simp_all add: rd1_def)
    obtain ok3 eps3 t3 where g: "reg_eps K env (rd_block rd2)
        (unat (word_of_int (rd_queue_size rd) * aligned_trx_sz (rd_trx_sz rd2 + TRAILER))) eps t2 = (ok3, eps3, t3)"
      by (metis prod_cases3)
    have g': "opened t3 = opened tr + owned_all eps3" "closed t3 = closed tr" "length eps3 = Suc (length clones)"
      using reg_eps_ledger [OF assms(1) mr g] reg_eps_length [OF g] q' t l(5) by simp_all
    obtain res4 t4 where s: "start_threads env (rd2\<lparr>rd_ep_ctxs := eps3, rd_init := True\<rparr>) t3 = (res4, t4)" by force
    have s': "opened t4 = opened t3" "closed t4 = closed t3" using start_threads_ledger [OF s] by simp_all
    consider (queue) "abandon_eps env clones rd2 t2 = (rd', tr')"
      | (reg) "abandon_eps env clones (rd2\<lparr>rd_ep_ctxs := eps3\<rparr>) t3 = (rd', tr')"
      | (threads) "abandon_eps env clones (rd2\<lparr>rd_ep_ctxs := eps3, rd_init := True\<rparr>) t4 = (rd', tr')"
      using assms(3,4) i True q q'(1) g s
      by (auto simp: establish_eps_def rd1_def [symmetric] Let_def split: if_splits)
    then show ?thesis
    proof cases
      case queue
      show ?thesis by (rule fin [OF queue]) (use q' t l(5) in simp_all)
    next
      case reg
      show ?thesis by (rule fin [OF reg]) (use g' in simp_all)
    next
      case threads
      show ?thesis by (rule fin [OF threads]) (use g' s' in simp_all)
    qed
  qed
qed

lemma clone_devs_length: "clone_devs n env d ds tr = (Inr clones, tr') \<Longrightarrow> length clones = length ds + n"
  by (induction n env d ds tr rule: clone_devs.induct) (auto simp: ext_call_def Let_def split: if_splits)

text \<open>
  C19. Handles of an attempt to establish that fails after the device has been opened. Every handle
  opened on the way is closed and no endpoint is left. Each handle is closed exactly once, with one
  exception: if \<open>ep_init\<close> of an endpoint other than the first fails after it has opened a handle, the
  completion queue of the first endpoint, which the others share, is closed twice.
\<close>

theorem rdma_establish_failure_closes:
  assumes "valid_handles env" and "rd_dev rd = Some d" and "\<not> rd_init rd" and "0 < rd_num_eps rd"
    and "list_all (\<lambda>e. e = None) (rd_ep_ctxs rd)"
    and "rdma_on_establish K env rd tr = (r, rd', tr')" and "r \<noteq> success"
  shows "\<exists>X D. opened tr' = opened tr + X \<and> closed tr' = closed tr + X + D \<and> D \<subseteq># X \<and>
    (rd_num_eps rd = 1 \<longrightarrow> D = {#}) \<and> list_all (\<lambda>e. e = None) (rd_ep_ctxs rd') \<and>
    D = (case clone_devs (rd_num_eps rd - 1) env d [] tr of
        (Inl _, _) \<Rightarrow> {#}
      | (Inr clones, t) \<Rightarrow> closed_twice t
          (init_eps K env 0 (ep_cfgs (rd_ep_cfg rd) (d # clones)) (replicate (rd_num_eps rd) None) t))"
proof -
  let ?n = "rd_num_eps rd"
  define rd1 where "rd1 = rd\<lparr>rd_buf_available := False, rd_ep_ctxs := take ?n (rd_ep_ctxs rd @ replicate ?n None)\<rparr>"
  have eps: "rd_ep_ctxs rd1 = replicate ?n None"
    using assms(5) by (intro nth_equalityI) (auto simp: rd1_def list_all_length nth_append)
  obtain cl t where c: "clone_devs (?n - 1) env d [] tr = (cl, t)" by force
  note cl = clone_devs_ledger [OF c]
  have run: "(case cl of Inl e \<Rightarrow> (e, rd_set_state closed_st rd1, t)
      | Inr clones \<Rightarrow> establish_eps K env d clones rd1 t) = (r, rd', tr')"
    using assms(2,3,6) c
    by (cases cl) (simp_all add: rdma_on_establish_def open_rdma_device_def rd1_def Let_def)
  show ?thesis
  proof (cases cl)
    case (Inl e)
    then show ?thesis using run cl eps c
      by (intro exI [of _ "{#}"]) (auto simp: list_all_iff)
  next
    case (Inr clones)
    have len: "length clones = ?n - 1" using clone_devs_length [OF c [unfolded Inr]] by simp
    have e: "rd_ep_ctxs rd1 = replicate (Suc (length clones)) None" using eps len assms(4) by simp
    have r: "establish_eps K env d clones rd1 t = (r, rd', tr')" using run Inr by simp
    have f: "rd_ep_cfg rd1 = rd_ep_cfg rd" "replicate ?n None = rd_ep_ctxs rd1" using eps by (simp_all add: rd1_def)
    from establish_eps_ledger [OF assms(1) e r assms(7)] cl len e show ?thesis
      unfolding c Inr f(2) by (auto simp: list_all_iff f(1))
  qed
qed

text \<open>Two endpoints, of which the second one cannot be enabled.\<close>

fun is_enable :: "fab_call \<Rightarrow> bool" where
  "is_enable (FiEnable _) = True"
| "is_enable _ = False"

definition second_enable_fails :: fab_env where
  "second_enable_fails tr c = (case c of
      FiEnable _ \<Rightarrow> res0\<lparr>ret := (if list_ex (is_enable \<circ> fst) tr then -5 else 0)\<rparr>
    | _ \<Rightarrow> fresh_env tr c)"

definition demo_rdma :: rdma where
  "demo_rdma = \<lparr>rd_conn = set_state establishing (new_connection (COther 0) Ktransmitter), rd_init = False,
     rd_trx_sz = 64, rd_provider = ''tcp'', rd_num_eps = 2, rd_ep_ctxs = [], rd_ep_cfg = tx_cfg,
     rd_dev = Some rdma_ctx0, rd_queue_size = 4, rd_block = 0, rd_queue = [], rd_buf_available = False,
     rd_next_idx = 0, rd_mem = (\<lambda>_. 0)\<rparr>"

lemma second_enable_fails_valid: "valid_handles second_enable_fails"
  using fresh_env_valid
  by (auto simp: valid_handles_def second_enable_fails_def split: fab_call.splits)

lemma demo_double_close:
  "fst (rdma_on_establish libfabric_2_0 second_enable_fails demo_rdma []) = error_initialization_failed \<and>
   size (closed (snd (snd (rdma_on_establish libfabric_2_0 second_enable_fails demo_rdma [])))) =
   Suc (size (opened (snd (snd (rdma_on_establish libfabric_2_0 second_enable_fails demo_rdma [])))))"
  by (simp add: rdma_on_establish_def open_rdma_device_def establish_eps_def abandon_eps_def ep_cfgs_def
      ep_destroy_def demo_rdma_def numeral_2_eq_2 ep_run_simps second_enable_fails_def)

theorem rdma_establish_failure_closes_witness:
  "\<exists>rd' tr' X h. rdma_on_establish libfabric_2_0 second_enable_fails demo_rdma [] =
     (error_initialization_failed, rd', tr') \<and> opened tr' = X \<and> h \<in># X \<and> closed tr' = X + {#h#}"
proof -
  let ?run = "rdma_on_establish libfabric_2_0 second_enable_fails demo_rdma []"
  obtain rd' tr' where r: "?run = (error_initialization_failed, rd', tr')"
    using demo_double_close by (metis prod.collapse)
  have d: "rd_dev demo_rdma = Some rdma_ctx0" "\<not> rd_init demo_rdma" "0 < rd_num_eps demo_rdma"
    "list_all (\<lambda>e. e = None) (rd_ep_ctxs demo_rdma)" by (simp_all add: demo_rdma_def)
  from rdma_establish_failure_closes [OF second_enable_fails_valid d r] obtain X D
    where x: "opened tr' = X" "closed tr' = X + D" "D \<subseteq># X" by auto
  have "size D = Suc 0" using demo_double_close r x by simp
  then obtain h where "D = {#h#}" by (metis size_1_singleton_mset One_nat_def)
  with x r show ?thesis by auto
qed

section \<open>A registration that fails\<close>

text \<open>The pool is filled before the memory is registered, and it is only emptied if the connection
  was initialised.\<close>

definition pool_left_over :: "'a rdma_scheme \<Rightarrow> bool" where
  "pool_left_over rd \<longleftrightarrow> rd_queue rd \<noteq> [] \<and> \<not> rd_init rd"

lemma abandon_eps_pool: "abandon_eps env cl rd tr = (rd', tr') \<Longrightarrow> pool_left_over rd' = pool_left_over rd"
  by (auto simp: pool_left_over_def dest: abandon_eps_sel)

lemma establish_eps_left_over:
  assumes "establish_eps K env d clones rd tr = (r, rd', tr')" and "pool_left_over rd"
  shows "r \<noteq> success \<and> pool_left_over rd'"
proof -
  obtain ok n eps t where i: "init_eps K env 0 (ep_cfgs (rd_ep_cfg rd) (d # clones)) (rd_ep_ctxs rd) tr = (ok, n, eps, t)"
    by (metis prod_cases4)
  have q: "init_queue_with_elements env capacity n (rd\<lparr>rd_ep_ctxs := eps\<rparr>) t =
      (if n = 0 \<or> n > MAX_BUFFER_SIZE then error_bad_argument else error_already_initialized, rd\<lparr>rd_ep_ctxs := eps\<rparr>, t)"
    for capacity n
    using assms(2) by (simp add: init_queue_with_elements_def pool_left_over_def)
  have p: "pool_left_over (rd\<lparr>rd_ep_ctxs := eps\<rparr>)" using assms(2) by (simp add: pool_left_over_def)
  show ?thesis using assms(1) i p
    by (auto simp: establish_eps_def q Let_def dest: abandon_eps_pool split: if_splits)
qed

lemma open_rdma_device_pool:
  assumes "open_rdma_device K env rd tr = (r, rd', tr')"
  shows "rd_queue rd' = rd_queue rd" "rd_init rd' = rd_init rd" "rd_queue_size rd' = rd_queue_size rd"
  using assms by (auto simp: open_rdma_device_def rd_set_state_def Let_def split: option.splits prod.splits if_splits)

lemma rdma_on_establish_left_over:
  assumes "rdma_on_establish K env rd tr = (r, rd', tr')" and "pool_left_over rd"
  shows "r \<noteq> success \<and> pool_left_over rd'"
proof -
  obtain r1 rd1 tr1 where o: "open_rdma_device K env (rd\<lparr>rd_buf_available := False\<rparr>) tr = (r1, rd1, tr1)"
    by (metis prod_cases3)
  have "pool_left_over rd1" using open_rdma_device_pool [OF o] assms(2) by (simp add: pool_left_over_def)
  then have p: "pool_left_over (rd1\<lparr>rd_ep_ctxs := e\<rparr>)" "pool_left_over (rd_set_state s (rd1\<lparr>rd_ep_ctxs := e\<rparr>))"
    "pool_left_over rd1" for e s by (simp_all add: pool_left_over_def)
  have "\<not> rd_init rd" using assms(2) by (simp add: pool_left_over_def)
  then show ?thesis using assms(1) o p
    by (auto simp: rdma_on_establish_def Let_def dest: establish_eps_left_over clone_devs_ledger
        split: option.splits prod.splits if_splits sum.splits)
qed

lemma rdma_on_shutdown_left_over:
  "rdma_on_shutdown env rd tr = (r, rd', tr') \<Longrightarrow> pool_left_over rd \<Longrightarrow> pool_left_over rd'"
  by (auto simp: rdma_on_shutdown_def pool_left_over_def ext_call_def Let_def split: if_splits)

lemma init_queue_results:
  "init_queue_with_elements env capacity n rd tr = (r, rd', tr') \<Longrightarrow> r \<noteq> error_memory_registration_failed"
  by (auto simp: init_queue_with_elements_def Let_def split: prod.splits if_splits)

lemma start_threads_results:
  "start_threads env rd tr = (r, tr') \<Longrightarrow> r \<noteq> error_memory_registration_failed"
  by (auto simp: start_threads_def Let_def split: prod.splits if_splits)

lemma clone_devs_results:
  "clone_devs n env d ds tr = (cl, tr') \<Longrightarrow> cl \<noteq> Inl error_memory_registration_failed"
  by (induction n env d ds tr rule: clone_devs.induct) (auto simp: ext_call_def Let_def split: if_splits)

lemma establish_eps_registration:
  assumes "establish_eps K env d clones rd tr = (error_memory_registration_failed, rd', tr')" and "\<not> rd_init rd"
    and "(word_of_int (rd_queue_size rd) :: u64) \<noteq> 0"
  shows "pool_left_over rd'"
proof -
  obtain ok n eps t where i: "init_eps K env 0 (ep_cfgs (rd_ep_cfg rd) (d # clones)) (rd_ep_ctxs rd) tr = (ok, n, eps, t)"
    by (metis prod_cases4)
  obtain res rd2 t2 where q: "init_queue_with_elements env (word_of_int (rd_queue_size rd)) (rd_trx_sz rd + TRAILER)
      (rd\<lparr>rd_ep_ctxs := eps\<rparr>) t = (res, rd2, t2)" by (metis prod_cases3)
  have "rd_queue rd2 \<noteq> []" if "res = success"
    using init_queue_sel(7) [OF q that] assms(3) by (auto simp: word_unat_eq_iff)
  then have p: "pool_left_over (rd2\<lparr>rd_ep_ctxs := e\<rparr>)" if "res = success" for e
    using that init_queue_sel(2) [OF q] assms(2) by (simp add: pool_left_over_def)
  show ?thesis using assms(1) i q init_queue_results [OF q] p
    by (auto simp: establish_eps_def Let_def dest: abandon_eps_pool start_threads_results
        split: if_splits prod.splits)
qed

lemma registration_failure_left_over:
  assumes "rdma_on_establish K env rd tr = (error_memory_registration_failed, rd', tr')"
    and "(word_of_int (rd_queue_size rd) :: u64) \<noteq> 0"
  shows "pool_left_over rd'"
proof -
  obtain r1 rd1 tr1 where o: "open_rdma_device K env (rd\<lparr>rd_buf_available := False\<rparr>) tr = (r1, rd1, tr1)"
    by (metis prod_cases3)
  have n: "\<not> rd_init rd" using assms(1) by (auto simp: rdma_on_establish_def split: if_splits)
  have "r1 \<noteq> error_memory_registration_failed"
    using o by (auto simp: open_rdma_device_def Let_def split: option.splits prod.splits if_splits)
  then show ?thesis using assms n o open_rdma_device_pool [OF o]
    by (auto simp: rdma_on_establish_def Let_def dest: establish_eps_registration clone_devs_results
        split: option.splits prod.splits if_splits sum.splits)
qed

text \<open>Later calls on the connection: attempts to establish it, with the result of each, and
  shutdowns. The base object and the environment may be different each time.\<close>

datatype rdma_retry = Attempt fi_consts fab_env conn_obj | Stop fab_env conn_obj

fun retries :: "rdma_retry list \<Rightarrow> 'a rdma_scheme \<Rightarrow> fab_trace \<Rightarrow> result list" where
  "retries [] rd tr = []"
| "retries (Attempt K env c # cs) rd tr =
     (let (r, rd, tr) = rdma_on_establish K env (rd\<lparr>rd_conn := c\<rparr>) tr in r # retries cs rd tr)"
| "retries (Stop env c # cs) rd tr =
     (let (_, rd, tr) = rdma_on_shutdown env (rd\<lparr>rd_conn := c\<rparr>) tr in retries cs rd tr)"

lemma left_over_conn [simp]: "pool_left_over (rd\<lparr>rd_conn := c\<rparr>) = pool_left_over rd"
  by (simp add: pool_left_over_def)

lemma left_over_retries: "pool_left_over rd \<Longrightarrow> success \<notin> set (retries cs rd tr)"
proof (induction cs rd tr rule: retries.induct)
  case (2 K env c cs rd tr)
  obtain r rd1 tr1 where e: "rdma_on_establish K env (rd\<lparr>rd_conn := c\<rparr>) tr = (r, rd1, tr1)" by (metis prod_cases3)
  with "2.IH" [OF e [symmetric] refl] rdma_on_establish_left_over [OF e] "2.prems" show ?case by auto
next
  case (3 env c cs rd tr)
  obtain r rd1 tr1 where e: "rdma_on_shutdown env (rd\<lparr>rd_conn := c\<rparr>) tr = (r, rd1, tr1)" by (metis prod_cases3)
  with "3.IH" [OF e [symmetric] refl] rdma_on_shutdown_left_over [OF e] "3.prems" show ?case by simp
qed simp

text \<open>
  C29. A failed memory registration is final. The buffers stay in the pool, shutting the connection
  down does not remove them, and no later attempt to establish the connection succeeds, whatever the
  environment then does.
\<close>

theorem rdma_registration_failure_final:
  assumes "rdma_on_establish K env rd tr = (error_memory_registration_failed, rd', tr')"
    and "(word_of_int (rd_queue_size rd) :: u64) \<noteq> 0"
  shows "success \<notin> set (retries cs rd' tr')"
  by (rule left_over_retries [OF registration_failure_left_over [OF assms]])

definition no_registration :: fab_env where
  "no_registration tr c = (case c of
      FiMrRegattr _ _ _ \<Rightarrow> res0\<lparr>ret := -12\<rparr>
    | _ \<Rightarrow> fresh_env tr c)"

lemma demo_registration:
  "fst (rdma_on_establish libfabric_2_0 no_registration (demo_rdma\<lparr>rd_num_eps := 1\<rparr>) []) =
     error_memory_registration_failed"
  by (simp add: rdma_on_establish_def open_rdma_device_def establish_eps_def abandon_eps_def ep_cfgs_def
      demo_rdma_def ep_run_simps no_registration_def init_queue_with_elements_def ep_reg_mr_def rdma_reg_mr_def
      TRAILER_def MAX_BUFFER_SIZE_def aligned_trx_sz_def PAGE_SIZE_def rdma_fill_mr_attr_def)

theorem rdma_registration_failure_final_witness:
  "\<exists>rd' tr'. rdma_on_establish libfabric_2_0 no_registration (demo_rdma\<lparr>rd_num_eps := 1\<rparr>) [] =
       (error_memory_registration_failed, rd', tr') \<and>
     success \<notin> set (retries [Stop fresh_env (rd_conn rd'), Attempt libfabric_2_0 fresh_env (rd_conn rd')] rd' tr')"
proof -
  obtain rd' tr' where r: "rdma_on_establish libfabric_2_0 no_registration (demo_rdma\<lparr>rd_num_eps := 1\<rparr>) [] =
      (error_memory_registration_failed, rd', tr')"
    using demo_registration by (metis prod.collapse)
  have "(word_of_int (rd_queue_size (demo_rdma\<lparr>rd_num_eps := 1\<rparr>)) :: u64) \<noteq> 0" by (simp add: demo_rdma_def)
  from rdma_registration_failure_final [OF r this] r show ?thesis by blast
qed

end
