(* ===== verification/Rdma_Frames.thy ===== *)
theory Rdma_Frames
  imports Rdma_Conn
begin

text \<open>
  Frames over RDMA: \<open>RdmaTx::on_receive\<close> with its completion thread (conn_rdma_tx.cc) and the two
  threads of \<open>RdmaRx\<close> (conn_rdma_rx.cc), which post buffers and put the frames received back into the
  order of their sequence numbers. A frame is the payload padded to the transfer size, followed by
  the number. What \<open>fi_cq_read\<close> returns is an argument of the completion handlers, and so is the
  connection's \<open>transmit\<close> (theory \<open>Connection\<close>), which the receiver calls for each frame. The pauses
  of the threads and log messages are left out.
\<close>

section \<open>Construction\<close>

record rdma_rx = rdma +
  rx_ring :: "nat list"
  rx_head :: u64

definition REORDER_WINDOW :: nat where "REORDER_WINDOW = 256"

definition UINT64_MAX :: u64 where "UINT64_MAX = - 1"

definition blank_ep_cfg :: ep_cfg_t where
  "blank_ep_cfg = \<lparr>cfg_rdma_ctx = None, remote_addr = \<lparr>addr_ip = [], addr_port = []\<rparr>,
     local_addr = \<lparr>addr_ip = [], addr_port = []\<rparr>, dir = RX, shared_rx_cq = 0\<rparr>"

definition new_rdma :: "kind \<Rightarrow> rdma" where
  "new_rdma k = \<lparr>rd_conn = new_connection (COther 0) k, rd_init = False, rd_trx_sz = 0,
     rd_provider = ''verbs'', rd_num_eps = 1, rd_ep_ctxs = [], rd_ep_cfg = blank_ep_cfg, rd_dev = None,
     rd_queue_size = 0, rd_block = 0, rd_queue = [], rd_buf_available = False, rd_next_idx = 0,
     rd_mem = (\<lambda>_. 0)\<rparr>"

definition new_rdma_tx :: rdma where
  "new_rdma_tx = new_rdma Ktransmitter"

definition new_rdma_rx :: rdma_rx where
  "new_rdma_rx = rdma.extend (new_rdma Kreceiver) (rdma_rx.fields (replicate REORDER_WINDOW 0) UINT64_MAX)"

section \<open>Sending\<close>

text \<open>Waiting for a buffer: at most one second in steps of 100 microseconds. While the function
  sleeps, the completion thread may put a buffer back, which is the output of the sleep.\<close>

function tx_acquire ::
  "fab_env \<Rightarrow> nat \<Rightarrow> 'a rdma_scheme \<Rightarrow> fab_trace \<Rightarrow> (result + nat) \<times> 'a rdma_scheme \<times> fab_trace" where
  "tx_acquire env elapsed rd tr =
     (if elapsed \<ge> 1000000 then (Inr 0, rd, tr) else
      let (c, tr) = ext_call env CtxCancelled tr in
      if ret c \<noteq> 0 then (Inr 0, rd, tr) else
      let (d, tr) = ext_call env CtxCancelled tr;
          (r, b, rd) = consume_from_queue (ret d \<noteq> 0) 0 rd
      in if r = success \<and> b \<noteq> 0 then (Inr b, rd, tr)
         else if r \<noteq> success \<and> r \<noteq> error_no_buffer then (Inl r, rd, tr)
         else
           let (s, tr) = ext_call env (Usleep 100) tr;
               rd = (if out s = 0 then rd else snd (add_to_queue (out s) rd))
           in tx_acquire env (elapsed + 100) rd tr)"
  by pat_completeness auto
termination
  by (relation "measure (\<lambda>(env, elapsed, rd, tr). 1000000 - elapsed)") auto

declare tx_acquire.simps [simp del]

text \<open>The contents of a frame.\<close>

definition frame_bytes :: "nat \<Rightarrow> u8 list \<Rightarrow> u64 \<Rightarrow> u8 list" where
  "frame_bytes n payload seq = payload @ replicate (n - length payload) 0 @ le64 seq"

text \<open>\<open>RdmaTx::on_receive\<close>. \<open>data\<close> are the bytes at \<open>ptr\<close>, and \<open>seq\<close> is the counter \<open>global_seq\<close>, which
  all transmitters of the process share. The result is the code, the number of bytes sent, the
  counter and the state. An established connection has at least one endpoint; without one the code
  divides by zero.\<close>

definition rdma_tx_on_receive ::
  "fi_consts \<Rightarrow> fab_env \<Rightarrow> u8 list \<Rightarrow> u64 \<Rightarrow> 'a rdma_scheme \<Rightarrow> fab_trace \<Rightarrow>
   result \<times> u32 \<times> u64 \<times> 'a rdma_scheme \<times> fab_trace" where
  "rdma_tx_on_receive K env data seq rd tr = (case tx_acquire env 0 rd tr of
      (Inl r, rd, tr) \<Rightarrow> (r, 0, seq, rd, tr)
    | (Inr b, rd, tr) \<Rightarrow>
        if b = 0 then (error_timeout, 0, seq, rd, tr) else
        let n = unat (rd_trx_sz rd);
            to_send = min (ucast (rd_trx_sz rd) :: u32) (of_nat (length data));
            rd = rd\<lparr>rd_mem := mem_write b (frame_bytes n (take (unat to_send) data) seq) (rd_mem rd)\<rparr>;
            idx = unat (rd_next_idx rd mod of_nat (length (rd_ep_ctxs rd)));
            rd = rd\<lparr>rd_next_idx := rd_next_idx rd + 1\<rparr>
        in case rd_ep_ctxs rd ! idx of
             None \<Rightarrow> (error_general_failure, 0, seq + 1, snd (add_to_queue b rd), tr)
           | Some e \<Rightarrow>
               let (rc, tr) = ep_send_buf K env (Some e) b (unat (ucast (rd_trx_sz rd + TRAILER) :: u32)) tr;
                   rd = rd\<lparr>rd_buf_available := True\<rparr>
               in if rc \<noteq> 0 then (error_general_failure, 0, seq + 1, snd (add_to_queue b rd), tr)
                  else (success, to_send, seq + 1, rd, tr))"

section \<open>Completions\<close>

text \<open>What one poll of a completion queue gives: the return value of \<open>fi_cq_read\<close> with the operation
  contexts of the entries, and if it is \<open>-FI_EAVAIL\<close> what \<open>fi_cq_readerr\<close> then returns.\<close>

record cq_poll =
  cp_ret :: int
  cp_entries :: "nat list"
  cp_err_ret :: int
  cp_err :: int
  cp_err_ctx :: nat

definition FI_ENOTCONN :: int where "FI_ENOTCONN = 107"

definition recycle :: "nat list \<Rightarrow> 'a rdma_scheme \<Rightarrow> 'a rdma_scheme" where
  "recycle bs rd = fold (\<lambda>b rd. if b = 0 then rd else snd (add_to_queue b rd)) bs rd"

text \<open>One poll of the transmitter's completion thread, and whether the thread goes back to waiting.\<close>

definition tx_poll :: "fi_consts \<Rightarrow> cq_poll \<Rightarrow> 'a rdma_scheme \<Rightarrow> bool \<times> 'a rdma_scheme" where
  "tx_poll K p rd =
     (if cp_ret p > 0 then (True, recycle (cp_entries p) rd)
      else if cp_ret p = - c_eavail K then
        (True, if cp_err_ret p \<ge> 0 then recycle [cp_err_ctx p] rd else rd)
      else (cp_ret p \<noteq> - EAGAIN, rd))"

text \<open>Each queue is polled once: the endpoints that share the queue of the one before are skipped.\<close>

fun unique_cqs :: "nat \<Rightarrow> ep_ctx_t option list \<Rightarrow> nat list" where
  "unique_cqs prev [] = []"
| "unique_cqs prev (None # es) = unique_cqs prev es"
| "unique_cqs prev (Some e # es) =
     (let c = cq (cq_ctx e) in if c = prev then unique_cqs prev es else c # unique_cqs c es)"

fun tx_round :: "fi_consts \<Rightarrow> cq_poll list \<Rightarrow> 'a rdma_scheme \<Rightarrow> bool \<times> 'a rdma_scheme" where
  "tx_round K [] rd = (False, rd)"
| "tx_round K (p # ps) rd = (let (stop, rd) = tx_poll K p rd in if stop then (True, rd) else tx_round K ps rd)"

definition stop_all :: "'a rdma_scheme \<Rightarrow> 'a rdma_scheme" where
  "stop_all rd = rd\<lparr>rd_ep_ctxs := map (map_option (\<lambda>e. e\<lparr>stop_flag := True\<rparr>)) (rd_ep_ctxs rd)\<rparr>"

definition wait_buf_available :: "'a rdma_scheme \<Rightarrow> 'a rdma_scheme" where
  "wait_buf_available rd = rd\<lparr>rd_buf_available := False\<rparr>"

text \<open>The transmitter's completion thread, given the rounds of polls it makes until it is cancelled.
  \<open>elapsed\<close> counts the microseconds since the thread last waited for a send: it waits at the start, after a round that
  found something, and after a second without completions.\<close>

fun tx_cq_thread :: "fi_consts \<Rightarrow> nat \<Rightarrow> cq_poll list list \<Rightarrow> 'a rdma_scheme \<Rightarrow> 'a rdma_scheme" where
  "tx_cq_thread K elapsed [] rd = stop_all rd"
| "tx_cq_thread K elapsed (ps # rounds) rd =
     (let rd = (if elapsed = 0 then wait_buf_available rd else rd);
          (stop, rd) = tx_round K ps rd
      in tx_cq_thread K (if stop \<or> elapsed + 100 \<ge> 1000000 then 0 else elapsed + 100) rounds rd)"

section \<open>Receiving\<close>

text \<open>The thread that posts buffers, until the pool is empty. \<open>None\<close> is running out of fuel: a buffer
  that cannot be posted goes back to the pool and is tried again.\<close>

fun rx_post ::
  "nat \<Rightarrow> fab_env \<Rightarrow> 'a rdma_scheme \<Rightarrow> fab_trace \<Rightarrow> ('a rdma_scheme \<times> fab_trace) option" where
  "rx_post 0 env rd tr = None"
| "rx_post (Suc fuel) env rd tr =
     (let (c, tr) = ext_call env CtxCancelled tr in
      if ret c \<noteq> 0 then Some (rd, tr) else
      let (d, tr) = ext_call env CtxCancelled tr;
          (r, b, rd) = consume_from_queue (ret d \<noteq> 0) 0 rd
      in if r \<noteq> success \<or> b = 0 then Some (rd, tr) else
      let idx = unat (rd_next_idx rd mod of_nat (length (rd_ep_ctxs rd)));
          rd = rd\<lparr>rd_next_idx := rd_next_idx rd + 1\<rparr>
      in case rd_ep_ctxs rd ! idx of
           None \<Rightarrow> Some (snd (add_to_queue b rd), tr)
         | Some e \<Rightarrow>
             (case ep_recv_buf fuel env e b (unat (rd_trx_sz rd + TRAILER)) b tr of
                None \<Rightarrow> None
              | Some (err, tr) \<Rightarrow>
                  rx_post fuel env (if err \<noteq> 0 then snd (add_to_queue b rd) else rd) tr))"

text \<open>While buffers are accepted, one round per buffer of the pool and one more are enough.\<close>

lemma rx_post_returns:
  assumes "\<And>tr. out (env tr ReadStop) = 0" and "\<And>tr e b sz d x. ret (env tr (FiRecv e b sz d x)) = 0"
    and "list_all (\<lambda>b. b \<noteq> 0) (rd_queue rd)" and "list_all (\<lambda>e. e \<noteq> None) (rd_ep_ctxs rd)" and "rd_ep_ctxs rd \<noteq> []"
    and "length (rd_ep_ctxs rd) < 2 ^ 32"
  shows "\<exists>rd' tr'. rx_post (Suc (Suc (length (rd_queue rd)))) env rd tr = Some (rd', tr')"
  using assms(3-6)
proof (induction "rd_queue rd" arbitrary: rd tr)
  case Nil
  from Nil(1) [symmetric] show ?case by (simp add: ext_call_def consume_from_queue_def Let_def)
next
  case (Cons b bs)
  let ?rd = "rd\<lparr>rd_queue := bs, rd_next_idx := rd_next_idx rd + 1\<rparr>"
  let ?idx = "unat (rd_next_idx rd mod of_nat (length (rd_ep_ctxs rd)))"
  have q: "rd_queue rd = b # bs" using Cons.hyps(2) by simp
  have idx: "?idx < length (rd_ep_ctxs rd)"
    using Cons.prems(3,4) by (simp add: unat_mod_distrib unsigned_of_nat take_bit_nat_eq_self)
  then obtain e where e: "rd_ep_ctxs rd ! ?idx = Some e" using Cons.prems(2) by (auto simp: list_all_length)
  have ih: "\<exists>rd' tr'. rx_post (Suc (Suc (length bs))) env ?rd tr = Some (rd', tr')" for tr
    using Cons.hyps(1) [of ?rd tr] Cons.prems q by simp
  let ?t = "tr @ [(CtxCancelled, env tr CtxCancelled)]"
  obtain tr2 where "ep_recv_buf (Suc (Suc (length bs))) env e b (unat (rd_trx_sz rd + TRAILER)) b
      (?t @ [(CtxCancelled, env ?t CtxCancelled)]) = Some (0, tr2)"
    using assms(1,2) by (simp add: ext_call_def EAGAIN_def)
  then show ?case using ih [of tr2] q e Cons.prems(1)
    by (subst rx_post.simps) (simp add: ext_call_def consume_from_queue_def Let_def del: rx_post.simps ep_recv_buf.simps)
qed

definition frame_seq :: "'a rdma_scheme \<Rightarrow> nat \<Rightarrow> u64" where
  "frame_seq rd b = of_le64 (mem_read (rd_mem rd) (b + unat (rd_trx_sz rd)) 8)"

definition ring_index :: "u64 \<Rightarrow> nat" where
  "ring_index seq = unat (seq AND of_nat (REORDER_WINDOW - 1))"

text \<open>Delivery of the frames that are in order; the array has \<open>REORDER_WINDOW\<close> elements, so the index
  is always in range.\<close>

function flush_ring :: "'w transmit_fn \<Rightarrow> rdma_rx \<Rightarrow> 'w \<Rightarrow> (rdma_rx \<times> 'w) option" where
  "flush_ring transm rd w =
     (let head_idx = ring_index (rx_head rd) in
      if head_idx \<ge> length (rx_ring rd) \<or> rx_ring rd ! head_idx = 0 then Some (rd, w) else
      let ready = rx_ring rd ! head_idx;
          rd = rd\<lparr>rx_ring := (rx_ring rd)[head_idx := 0]\<rparr>
      in case transm ready (ucast (rd_trx_sz rd)) w of
           None \<Rightarrow> None
         | Some (_, w) \<Rightarrow>
             let rd = snd (add_to_queue ready rd)
             in flush_ring transm (rd\<lparr>rx_head := rx_head rd + 1\<rparr>) w)"
  by pat_completeness auto

lemma filter_update_less:
  "i < length xs \<Longrightarrow> 0 < xs ! i \<Longrightarrow> length (filter ((<) 0) (xs[i := 0])) < length (filter ((<) (0::nat)) xs)"
proof (induction xs arbitrary: i)
  case (Cons x xs)
  then show ?case by (cases i) auto
qed simp

lemma add_to_queue_ring [simp]: "rx_ring (snd (add_to_queue b rd)) = rx_ring rd"
  by (simp add: add_to_queue_def Let_def split_def)

termination flush_ring
  by (relation "measure (\<lambda>(t, rd, w). length (filter ((<) 0) (rx_ring rd)))")
     (auto simp: filter_update_less not_le)

declare flush_ring.simps [simp del]

definition rx_completion :: "'w transmit_fn \<Rightarrow> nat \<Rightarrow> rdma_rx \<Rightarrow> 'w \<Rightarrow> (rdma_rx \<times> 'w) option" where
  "rx_completion transm b rd w =
     (if b = 0 then Some (rd, w) else
      let seq = frame_seq rd b;
          rd = (if rx_head rd = UINT64_MAX then rd\<lparr>rx_head := seq\<rparr> else rd)
      in flush_ring transm (rd\<lparr>rx_ring := (rx_ring rd)[ring_index seq := b]\<rparr>) w)"

fun rx_batch :: "'w transmit_fn \<Rightarrow> nat list \<Rightarrow> rdma_rx \<Rightarrow> 'w \<Rightarrow> (rdma_rx \<times> 'w) option" where
  "rx_batch transm [] rd w = Some (rd, w)"
| "rx_batch transm (b # bs) rd w = (case rx_completion transm b rd w of
      None \<Rightarrow> None | Some (rd, w) \<Rightarrow> rx_batch transm bs rd w)"

text \<open>One poll: whether the thread must stop, and the state.\<close>

definition rx_poll ::
  "fi_consts \<Rightarrow> 'w transmit_fn \<Rightarrow> cq_poll \<Rightarrow> rdma_rx \<Rightarrow> 'w \<Rightarrow> (bool \<times> rdma_rx \<times> 'w) option" where
  "rx_poll K transm p rd w =
     (if cp_ret p > 0 then map_option (\<lambda>(rd, w). (False, rd, w)) (rx_batch transm (cp_entries p) rd w)
      else if cp_ret p = - c_eavail K then
        (if cp_err_ret p < 0 then Some (False, rd, w) else
         let rd = recycle [cp_err_ctx p] rd in
         if cp_err p = - ECANCELED then map_option (\<lambda>(rd, w). (False, rd, w)) (flush_ring transm rd w)
         else Some (False, rd, w))
      else Some (cp_ret p \<noteq> - EAGAIN \<and> cp_ret p \<noteq> - FI_ENOTCONN, rd, w))"

text \<open>The completion thread, given the polls it makes until it is cancelled.\<close>

fun rx_cq_thread ::
  "fi_consts \<Rightarrow> 'w transmit_fn \<Rightarrow> cq_poll list \<Rightarrow> rdma_rx \<Rightarrow> 'w \<Rightarrow> (rdma_rx \<times> 'w) option" where
  "rx_cq_thread K transm [] rd w = Some (stop_all rd, w)"
| "rx_cq_thread K transm (p # ps) rd w = (case rx_poll K transm p rd w of
      None \<Rightarrow> None
    | Some (stop, rd, w) \<Rightarrow> if stop then Some (stop_all rd, w) else rx_cq_thread K transm ps rd w)"

section \<open>Frames in order\<close>

text \<open>The ring as a window of sequence numbers: the slot of each number in the window that starts at
  \<open>h\<close> holds the buffer of that number if it has arrived and is empty otherwise. \<open>S\<close> are the numbers
  that have arrived and \<open>f\<close> gives their buffers.\<close>

definition rx_window :: "rdma_rx \<Rightarrow> nat \<Rightarrow> nat set \<Rightarrow> (nat \<Rightarrow> nat) \<Rightarrow> bool" where
  "rx_window rd h S f \<longleftrightarrow> length (rx_ring rd) = 256 \<and> rx_head rd = of_nat h \<and>
     (\<forall>q. h \<le> q \<and> q < h + 256 \<longrightarrow> rx_ring rd ! (q mod 256) = (if q \<in> S then f q else 0))"

fun transmit_all :: "'w transmit_fn \<Rightarrow> nat list \<Rightarrow> u32 \<Rightarrow> 'w \<Rightarrow> 'w option" where
  "transmit_all transm [] sz w = Some w"
| "transmit_all transm (b # bs) sz w = (case transm b sz w of
      None \<Rightarrow> None | Some (_, w) \<Rightarrow> transmit_all transm bs sz w)"

lemma transmit_all_append:
  "transmit_all transm (as @ bs) sz w = Option.bind (transmit_all transm as sz w) (transmit_all transm bs sz)"
  by (induction as arbitrary: w) (auto split: option.splits)

lemma ring_index_of_nat: "h < 2 ^ 64 \<Longrightarrow> ring_index (of_nat h) = h mod 256"
proof -
  assume h: "h < 2 ^ 64"
  have m: "(255 :: u64) = mask 8" by (simp add: mask_eq_exp_minus_1)
  have "ring_index (of_nat h) = unat (take_bit 8 (of_nat h :: u64))"
    by (simp add: ring_index_def REORDER_WINDOW_def m flip: take_bit_eq_mask)
  also have "\<dots> = take_bit 8 (unat (of_nat h :: u64))" by (rule unsigned_take_bit_eq)
  also have "unat (of_nat h :: u64) = h" using h by (simp add: unat_of_nat take_bit_nat_eq_self)
  finally show ?thesis by (simp add: take_bit_eq_mod)
qed

lemma flush_ring_stops:
  assumes "rx_window rd h S f" and "h \<notin> S" and "h < 2 ^ 64"
  shows "flush_ring transm rd w = Some (rd, w)"
  using assms by (subst flush_ring.simps) (simp add: rx_window_def ring_index_of_nat)

text \<open>What a run of deliveries leaves unchanged.\<close>

definition same_frames :: "rdma_rx \<Rightarrow> rdma_rx \<Rightarrow> bool" where
  "same_frames rd rd' \<longleftrightarrow> rd_mem rd' = rd_mem rd \<and> rd_trx_sz rd' = rd_trx_sz rd"

lemma window_slots_distinct:
  assumes "m \<le> p" "p < m + 256" "m \<le> q" "q < m + 256" and "p mod 256 = q mod 256"
  shows "p = (q :: nat)"
proof (rule ccontr)
  assume "p \<noteq> q"
  then consider "p < q" | "q < p" by linarith
  then show False
  proof cases
    case 1
    then have "256 dvd q - p" using assms(5) mod_eq_dvd_iff_nat [of p q 256] by simp
    with 1 have "256 \<le> q - p" by (intro dvd_imp_le) simp_all
    with assms show False by simp
  next
    case 2
    then have "256 dvd p - q" using assms(5) mod_eq_dvd_iff_nat [of q p 256] by simp
    with 2 have "256 \<le> p - q" by (intro dvd_imp_le) simp_all
    with assms show False by simp
  qed
qed

lemma window_slot_clear:
  assumes "rx_window rd h S f" and "\<forall>q\<in>S. q < h + 256"
  shows "rx_window (rd\<lparr>rx_ring := (rx_ring rd)[h mod 256 := 0], rd_queue := x, rd_buf_available := a, rx_head := of_nat (Suc h)\<rparr>)
    (Suc h) S f"
proof -
  have "(rx_ring rd)[h mod 256 := 0] ! (q mod 256) = (if q \<in> S then f q else 0)" if "Suc h \<le> q" "q < Suc h + 256" for q
  proof (cases "q = h + 256")
    case True
    then show ?thesis using assms by (auto simp: rx_window_def)
  next
    case False
    with that have q: "h < q" "q < h + 256" by auto
    have "q mod 256 \<noteq> h mod 256" using window_slots_distinct [of h q h] q by auto
    with q assms(1) show ?thesis by (simp add: rx_window_def)
  qed
  with assms(1) show ?thesis by (simp add: rx_window_def)
qed

lemma flush_ring_run:
  assumes "rx_window rd h S f" and "\<forall>q. h \<le> q \<and> q < h + k \<longrightarrow> q \<in> S" and "h + k \<notin> S" and "\<forall>q\<in>S. q < h + 256 \<and> f q \<noteq> 0"
    and "h + k < 2 ^ 64"
  shows "\<exists>rd'. (\<forall>w. flush_ring transm rd w =
      map_option (Pair rd') (transmit_all transm (map f [h..<h + k]) (ucast (rd_trx_sz rd)) w)) \<and>
    rx_window rd' (h + k) S f \<and> rd_queue rd' = rd_queue rd @ map f [h..<h + k] \<and> same_frames rd rd'"
  using assms
proof (induction k arbitrary: h rd)
  case 0
  then show ?case using flush_ring_stops [of rd h S f transm] by (auto simp: same_frames_def)
next
  case (Suc k)
  have h: "h \<in> S" "h < 2 ^ 64" using Suc.prems by auto
  define b where "b = f h"
  have b: "b \<noteq> 0" using Suc.prems(4) h(1) by (simp add: b_def)
  have slot: "length (rx_ring rd) = 256" "rx_head rd = of_nat h" "rx_ring rd ! (h mod 256) = b"
    using Suc.prems(1) h(1) by (auto simp: rx_window_def b_def)
  define rd1 where "rd1 = rd\<lparr>rx_ring := (rx_ring rd)[h mod 256 := 0], rd_queue := rd_queue rd @ [b],
    rd_buf_available := True, rx_head := of_nat (Suc h)\<rparr>"
  have w1: "rx_window rd1 (Suc h) S f"
    unfolding rd1_def using window_slot_clear [OF Suc.prems(1)] Suc.prems(4) by auto
  have lt: "(256 \<le> h mod 256) = False" by (simp add: not_le)
  have step: "flush_ring transm rd w = (case transm b (ucast (rd_trx_sz rd)) w of
      None \<Rightarrow> None | Some (_, w) \<Rightarrow> flush_ring transm rd1 w)"
    for w
    using slot b h(2)
    by (subst flush_ring.simps)
       (simp add: lt ring_index_of_nat add_to_queue_def rd1_def Let_def add.commute split: option.splits)
  have same: "rd_trx_sz rd1 = rd_trx_sz rd" "rd_mem rd1 = rd_mem rd" "rd_queue rd1 = rd_queue rd @ [f h]"
    by (simp_all add: rd1_def b_def)
  have p: "\<forall>q. Suc h \<le> q \<and> q < Suc h + k \<longrightarrow> q \<in> S" "Suc h + k \<notin> S" "\<forall>q\<in>S. q < Suc h + 256 \<and> f q \<noteq> 0"
    "Suc h + k < 2 ^ 64" using Suc.prems(2-5) by auto
  obtain rd' where ih: "\<And>w. flush_ring transm rd1 w =
      map_option (Pair rd') (transmit_all transm (map f [Suc h..<Suc h + k]) (ucast (rd_trx_sz rd)) w)"
    "rx_window rd' (Suc h + k) S f" "rd_queue rd' = rd_queue rd1 @ map f [Suc h..<Suc h + k]" "same_frames rd1 rd'"
    using Suc.IH [OF w1 p] same(1) by auto
  have l: "map f [h..<h + Suc k] = f h # map f [Suc h..<Suc h + k]"
    using upt_conv_Cons [of h "h + Suc k"] by (simp del: upt_Suc)
  show ?case
    using ih same unfolding l
    by (intro exI [of _ rd']) (auto simp: step b_def same_frames_def split: option.splits)
qed


text \<open>The first number from \<open>s\<close> on that is missing in a finite set.\<close>

definition first_missing :: "nat \<Rightarrow> nat set \<Rightarrow> nat" where
  "first_missing s S = (LEAST m. s \<le> m \<and> m \<notin> S)"

lemma first_missing:
  assumes "finite S"
  shows "s \<le> first_missing s S" "first_missing s S \<notin> S" "s \<le> q \<Longrightarrow> q < first_missing s S \<Longrightarrow> q \<in> S"
proof -
  obtain n where "\<forall>q\<in>S. q < n" using assms finite_nat_set_iff_bounded by blast
  then have "s \<le> max n s \<and> max n s \<notin> S" by (metis max.cobounded1 max.cobounded2 not_le)
  then have "s \<le> first_missing s S \<and> first_missing s S \<notin> S"
    unfolding first_missing_def by (rule LeastI)
  then show "s \<le> first_missing s S" "first_missing s S \<notin> S" by auto
  show "s \<le> q \<Longrightarrow> q < first_missing s S \<Longrightarrow> q \<in> S"
    unfolding first_missing_def using not_less_Least by blast
qed

lemma first_missing_eqI:
  assumes "s \<le> m" and "m \<notin> S" and "\<And>q. s \<le> q \<Longrightarrow> q < m \<Longrightarrow> q \<in> S"
  shows "first_missing s S = m"
  unfolding first_missing_def by (rule Least_equality) (use assms in \<open>auto simp: not_less [symmetric]\<close>)

lemma first_missing_insert_mono:
  assumes "finite S"
  shows "first_missing s S \<le> first_missing s (insert q S)"
  using first_missing [of "insert q S" s] first_missing [of S s] assms by (metis finite_insert insertCI not_less)

text \<open>The order in which numbers may arrive: each one is new and less than a window ahead of the
  first one that is missing at that time.\<close>

fun arrives_in_window :: "nat \<Rightarrow> nat set \<Rightarrow> nat list \<Rightarrow> bool" where
  "arrives_in_window s S [] \<longleftrightarrow> True"
| "arrives_in_window s S (q # qs) \<longleftrightarrow> s \<le> q \<and> q \<notin> S \<and> q < first_missing s S + 256 \<and> arrives_in_window s (insert q S) qs"

definition num :: "'a rdma_scheme \<Rightarrow> nat \<Rightarrow> nat" where
  "num rd b = unat (frame_seq rd b)"

lemma window_insert:
  assumes "rx_window rd m S f" and "m \<le> q" and "q < m + 256" and "f q = b"
  shows "rx_window (rd\<lparr>rx_ring := (rx_ring rd)[q mod 256 := b]\<rparr>) m (insert q S) f"
proof -
  have "(rx_ring rd)[q mod 256 := b] ! (p mod 256) = (if p \<in> insert q S then f p else 0)"
    if p: "m \<le> p" "p < m + 256" for p
  proof (cases "p = q")
    case True
    then show ?thesis using assms by (simp add: rx_window_def)
  next
    case False
    then have "p mod 256 \<noteq> q mod 256" using window_slots_distinct [of m p q] p assms(2,3) by auto
    with False p assms(1) show ?thesis by (simp add: rx_window_def)
  qed
  with assms(1) show ?thesis by (simp add: rx_window_def)
qed

lemma num_frames: "same_frames rd rd' \<Longrightarrow> num rd' b = num rd b"
  by (simp add: same_frames_def num_def frame_seq_def)

lemma rx_completion_run:
  assumes "rx_window rd m S f" and "m = first_missing s S" and "finite S" and "\<forall>q\<in>S. q < m + 256 \<and> f q \<noteq> 0"
    and "b \<noteq> 0" and "f (num rd b) = b" and "s \<le> num rd b" and "num rd b \<notin> S" and "num rd b < m + 256"
    and "m' = first_missing s (insert (num rd b) S)" and "m' + 1 < 2 ^ 64"
  shows "\<exists>rd'. (\<forall>w. rx_completion transm b rd w =
      map_option (Pair rd') (transmit_all transm (map f [m..<m']) (ucast (rd_trx_sz rd)) w)) \<and>
    rx_window rd' m' (insert (num rd b) S) f \<and> rd_queue rd' = rd_queue rd @ map f [m..<m'] \<and> same_frames rd rd'"
proof -
  let ?q = "num rd b" and ?S = "insert (num rd b) S"
  have fin: "finite ?S" using assms(3) by simp
  have mm: "m \<le> m'" unfolding assms(2,10) by (rule first_missing_insert_mono [OF assms(3)])
  have q: "m \<le> ?q" using first_missing(3) [OF assms(3), of s ?q] assms(2,7,8) by (metis not_less)
  have i: "ring_index (frame_seq rd b) = ?q mod 256"
    using ring_index_of_nat [of ?q] unsigned_less [of "frame_seq rd b"] by (simp add: num_def)
  have "rx_head rd \<noteq> UINT64_MAX"
  proof
    assume "rx_head rd = UINT64_MAX"
    moreover have "rx_head rd = of_nat m" using assms(1) by (simp add: rx_window_def)
    ultimately have "(of_nat m :: u64) = - 1" by (simp add: UINT64_MAX_def)
    then have "(of_nat m :: u64) + 1 = 0" by simp
    then have "unat (of_nat (m + 1) :: u64) = 0" by (simp add: add.commute)
    moreover have "unat (of_nat (m + 1) :: u64) = m + 1"
      unfolding unat_of_nat using mm assms(11) by (intro mod_less) simp
    ultimately show False by (simp only:)
  qed
  then have e: "rx_completion transm b rd w = flush_ring transm (rd\<lparr>rx_ring := (rx_ring rd)[?q mod 256 := b]\<rparr>) w" for w
    using assms(5) i by (simp add: rx_completion_def)
  have win: "rx_window (rd\<lparr>rx_ring := (rx_ring rd)[?q mod 256 := b]\<rparr>) m ?S f"
    by (rule window_insert [OF assms(1) q assms(9,6)])
  obtain k where k: "m' = m + k" using mm by (metis le_Suc_ex)
  have "\<forall>p. m \<le> p \<and> p < m + k \<longrightarrow> p \<in> ?S" "m + k \<notin> ?S"
    using first_missing [OF fin, of s] assms(2,10) first_missing(1) [OF assms(3), of s] k by auto
  moreover have "\<forall>p\<in>?S. p < m + 256 \<and> f p \<noteq> 0" using assms(4,5,6,9) by auto
  ultimately show ?thesis
    using flush_ring_run [OF win, of k transm] k assms(11) by (auto simp: e same_frames_def)
qed

lemma first_missing_Un_mono:
  assumes "finite S" and "finite A"
  shows "first_missing s S \<le> first_missing s (S \<union> A)"
  using first_missing(1,2) [of "S \<union> A" s] first_missing(3) [of S s] assms by (metis UnI1 finite_UnI not_less)

lemma arrives_ge: "arrives_in_window s S qs \<Longrightarrow> q \<in> set qs \<Longrightarrow> s \<le> q"
  by (induction qs arbitrary: S) auto

lemma upt_glue: "a \<le> b \<Longrightarrow> b \<le> c \<Longrightarrow> map f [a..<c] = map f [a..<b] @ map f [b..<c]"
  by (metis le_Suc_ex map_append upt_add_eq_append)

text \<open>A batch of completions, in whatever order, delivers exactly the run of frames that has become
  complete, in the order of their numbers.\<close>

lemma rx_batch_run:
  assumes "rx_window rd m S f" and "m = first_missing s S" and "finite S" and "\<forall>q\<in>S. q < m + 256 \<and> f q \<noteq> 0"
    and "\<forall>b\<in>set bs. b \<noteq> 0 \<and> f (num rd b) = b" and "arrives_in_window s S (map (num rd) bs)"
    and "m' = first_missing s (S \<union> num rd ` set bs)" and "m' + 1 < 2 ^ 64"
  shows "\<exists>rd'. (\<forall>w. rx_batch transm bs rd w =
      map_option (Pair rd') (transmit_all transm (map f [m..<m']) (ucast (rd_trx_sz rd)) w)) \<and>
    rx_window rd' m' (S \<union> num rd ` set bs) f \<and> rd_queue rd' = rd_queue rd @ map f [m..<m'] \<and> same_frames rd rd'"
  using assms
proof (induction bs arbitrary: rd m S)
  case Nil
  then show ?case by (intro exI [of _ rd]) (simp add: same_frames_def)
next
  case (Cons b bs)
  let ?S = "insert (num rd b) S"
  define m1 where "m1 = first_missing s ?S"
  have un: "S \<union> num rd ` set (b # bs) = ?S \<union> num rd ` set bs" by auto
  have le: "m1 \<le> m'" unfolding m1_def Cons.prems(7) un
    by (rule first_missing_Un_mono) (use Cons.prems(3) in auto)
  have mm: "m \<le> m1" unfolding m1_def Cons.prems(2) by (rule first_missing_insert_mono [OF Cons.prems(3)])
  have b: "b \<noteq> 0" "f (num rd b) = b" "s \<le> num rd b" "num rd b \<notin> S" "num rd b < m + 256"
    using Cons.prems(2,5,6) by auto
  obtain rd1 where c: "\<And>w. rx_completion transm b rd w =
      map_option (Pair rd1) (transmit_all transm (map f [m..<m1]) (ucast (rd_trx_sz rd)) w)"
    and w1: "rx_window rd1 m1 ?S f" and q1: "rd_queue rd1 = rd_queue rd @ map f [m..<m1]" and s1: "same_frames rd rd1"
    using rx_completion_run [OF Cons.prems(1-4) b m1_def, of transm] le Cons.prems(8) by auto
  have n: "num rd1 = num rd" using num_frames [OF s1] by auto
  have sz: "rd_trx_sz rd1 = rd_trx_sz rd" using s1 by (simp add: same_frames_def)
  have hyp: "\<forall>q\<in>?S. q < m1 + 256 \<and> f q \<noteq> 0" "finite ?S" "\<forall>b\<in>set bs. b \<noteq> 0 \<and> f (num rd1 b) = b"
    "arrives_in_window s ?S (map (num rd1) bs)" "m' = first_missing s (?S \<union> num rd1 ` set bs)"
    using Cons.prems b mm un n by auto
  obtain rd' where ih: "\<And>w. rx_batch transm bs rd1 w =
      map_option (Pair rd') (transmit_all transm (map f [m1..<m']) (ucast (rd_trx_sz rd)) w)"
    "rx_window rd' m' (?S \<union> num rd ` set bs) f" "rd_queue rd' = rd_queue rd1 @ map f [m1..<m']" "same_frames rd1 rd'"
    using Cons.IH [OF w1 m1_def hyp(2,1,3-5) Cons.prems(8)] n sz by auto
  show ?case
    unfolding un upt_glue [OF mm le]
  proof (intro exI [of _ rd'] conjI allI)
    show "rx_batch transm (b # bs) rd w = map_option (Pair rd')
      (transmit_all transm (map f [m..<m1] @ map f [m1..<m']) (ucast (rd_trx_sz rd)) w)" for w
      by (cases "transmit_all transm (map f [m..<m1]) (ucast (rd_trx_sz rd)) w")
         (simp_all add: c ih(1) transmit_all_append)
  qed (use ih q1 s1 in \<open>auto simp: same_frames_def\<close>)
qed

section \<open>A receiver from its first frame on\<close>

definition fresh_rx :: "rdma_rx \<Rightarrow> bool" where
  "fresh_rx rd \<longleftrightarrow> rx_ring rd = replicate REORDER_WINDOW 0 \<and> rx_head rd = UINT64_MAX"

lemma arrives_distinct: "arrives_in_window s S qs \<Longrightarrow> distinct qs \<and> set qs \<inter> S = {}"
  by (induction qs arbitrary: S) auto

lemma arrives_inj: "arrives_in_window s S (map (num rd) bs) \<Longrightarrow> inj_on (num rd) (set bs)"
  by (drule arrives_distinct) (simp add: distinct_map)

lemma frame_seq_head [simp]: "frame_seq (rd\<lparr>rx_head := h\<rparr>) b = frame_seq rd b"
  by (simp add: frame_seq_def)

text \<open>The first completion fixes the head of the window.\<close>

lemma rx_batch_fresh:
  assumes "rx_head rd = UINT64_MAX" and "bs \<noteq> []" and "hd bs \<noteq> 0" and "frame_seq rd (hd bs) \<noteq> UINT64_MAX"
  shows "rx_batch transm bs rd w = rx_batch transm bs (rd\<lparr>rx_head := frame_seq rd (hd bs)\<rparr>) w"
  using assms by (cases bs) (simp_all add: rx_completion_def Let_def)

lemma rx_batch_fresh_run:
  assumes "fresh_rx rd" and "bs \<noteq> []" and "0 \<notin> set bs" and "s = num rd (hd bs)"
    and "arrives_in_window s {} (map (num rd) bs)" and "m = first_missing s (num rd ` set bs)" and "m + 1 < 2 ^ 64"
  defines "f \<equiv> the_inv_into (set bs) (num rd)"
  shows "\<exists>rd'. (\<forall>w. rx_batch transm bs rd w =
      map_option (Pair rd') (transmit_all transm (map f [s..<m]) (ucast (rd_trx_sz rd)) w)) \<and>
    rx_window rd' m (num rd ` set bs) f \<and> rd_queue rd' = rd_queue rd @ map f [s..<m]"
proof -
  let ?rd = "rd\<lparr>rx_head := frame_seq rd (hd bs)\<rparr>"
  have s: "s = first_missing s {}" by (rule first_missing_eqI [symmetric]) simp_all
  have "s \<le> m" unfolding assms(6) by (rule first_missing) simp
  then have "frame_seq rd (hd bs) \<noteq> UINT64_MAX" using assms(4,7) by (auto simp: num_def UINT64_MAX_def unsigned_minus_1_eq_mask mask_eq_exp_minus_1)
  moreover have "hd bs \<noteq> 0" using assms(2,3) hd_in_set by metis
  ultimately have e: "rx_batch transm bs rd w = rx_batch transm bs ?rd w" for w
    using assms(1,2) by (intro rx_batch_fresh) (auto simp: fresh_rx_def)
  have n: "num ?rd = num rd" by (rule ext) (simp add: num_def)
  have f: "\<forall>b\<in>set bs. b \<noteq> 0 \<and> f (num ?rd b) = b"
    using the_inv_into_f_f [OF arrives_inj [OF assms(5)]] assms(3) unfolding n f_def by metis
  have "rx_window ?rd s {} f" using assms(1,4) by (simp add: rx_window_def fresh_rx_def REORDER_WINDOW_def num_def)
  from rx_batch_run [OF this s _ _ f, of m transm] show ?thesis using assms(5-7) unfolding e n by auto
qed

text \<open>The buffers of a run of numbers.\<close>

lemma run_buffers:
  assumes "inj_on (num rd) (set bs)" and "{s..<m} \<subseteq> num rd ` set bs"
  defines "ds \<equiv> map (the_inv_into (set bs) (num rd)) [s..<m]"
  shows "map (num rd) ds = [s..<m]" "set ds \<subseteq> set bs" "num rd ` set ds = {s..<m}"
proof -
  have "num rd (the_inv_into (set bs) (num rd) q) = q" if "q \<in> set [s..<m]" for q
    using f_the_inv_into_f [OF assms(1), of q] that assms(2) by auto
  then show n: "map (num rd) ds = [s..<m]" unfolding ds_def map_map by (intro map_idI) simp
  show "set ds \<subseteq> set bs" using the_inv_into_into [OF assms(1) _ order_refl] assms(2) by (auto simp: ds_def)
  show "num rd ` set ds = {s..<m}" using arg_cong [OF n, of set] by simp
qed

text \<open>C39. Frames whose completions arrive out of order, but less than a window of 256 ahead of the
  first frame missing, are handed to \<open>transmit\<close> in the order of their sequence numbers, each exactly
  once: those from the first frame received up to the first number that is missing. The buffers
  delivered go back to the pool in that order.\<close>

theorem rx_delivers_in_order:
  assumes "fresh_rx rd" and "bs \<noteq> []" and "0 \<notin> set bs" and "s = num rd (hd bs)"
    and "arrives_in_window s {} (map (num rd) bs)" and "m = first_missing s (num rd ` set bs)" and "m + 1 < 2 ^ 64"
  shows "\<exists>rd' ds. (\<forall>w. rx_batch transm bs rd w =
      map_option (Pair rd') (transmit_all transm ds (ucast (rd_trx_sz rd)) w)) \<and>
    map (num rd) ds = [s..<m] \<and> set ds \<subseteq> set bs \<and> rd_queue rd' = rd_queue rd @ ds"
proof -
  have "{s..<m} \<subseteq> num rd ` set bs" using first_missing(3) [of "num rd ` set bs" s] assms(6) by auto
  from run_buffers(1,2) [OF arrives_inj [OF assms(5)] this] rx_batch_fresh_run [OF assms, of transm]
  show ?thesis by blast
qed

text \<open>C40. A frame that is lost stops the receiver: the frames up to the gap are delivered, and those
  after it stay in the reorder ring with their buffers, which do not go back to the pool. Nothing in
  the receiver skips the missing number.\<close>

theorem rx_lost_frame_stalls:
  assumes "fresh_rx rd" and "0 \<notin> set (bs1 @ bs2)" and "bs1 \<noteq> []" and "s = num rd (hd bs1)"
    and "arrives_in_window s {} (map (num rd) (bs1 @ bs2))"
    and "num rd ` set bs1 = {s..<g}" and "num rd ` set bs2 \<subseteq> {g<..<g + 256}" and "g + 1 < 2 ^ 64"
  shows "\<exists>rd' ds. (\<forall>w. rx_batch transm (bs1 @ bs2) rd w =
      map_option (Pair rd') (transmit_all transm ds (ucast (rd_trx_sz rd)) w)) \<and>
    set ds = set bs1 \<and> rd_queue rd' = rd_queue rd @ ds \<and> rx_head rd' = of_nat g \<and> set bs2 \<subseteq> set (rx_ring rd')"
proof -
  let ?bs = "bs1 @ bs2" and ?f = "the_inv_into (set (bs1 @ bs2)) (num rd)"
  have inj: "inj_on (num rd) (set ?bs)" by (rule arrives_inj [OF assms(5)])
  have "s \<in> {s..<g}" unfolding assms(6) [symmetric] using assms(3,4) by simp
  then have g: "g = first_missing s (num rd ` set ?bs)"
    using assms(6,7) by (intro first_missing_eqI [symmetric]) (auto simp: image_Un)
  obtain rd' where r: "\<And>w. rx_batch transm ?bs rd w =
      map_option (Pair rd') (transmit_all transm (map ?f [s..<g]) (ucast (rd_trx_sz rd)) w)"
    "rx_window rd' g (num rd ` set ?bs) ?f" "rd_queue rd' = rd_queue rd @ map ?f [s..<g]"
    using rx_batch_fresh_run [OF assms(1) _ assms(2) _ assms(5) g assms(8), of transm] assms(3,4) by auto
  have sub: "{s..<g} \<subseteq> num rd ` set ?bs" using assms(6) by (auto simp: image_Un)
  have "num rd ` set (map ?f [s..<g]) = num rd ` set bs1" "set (map ?f [s..<g]) \<subseteq> set ?bs"
    using run_buffers [OF inj sub] assms(6) by auto
  then have d: "set (map ?f [s..<g]) = set bs1"
    using inj_on_image_eq_iff [OF inj, of "set (map ?f [s..<g])" "set bs1"] by simp
  have "b \<in> set (rx_ring rd')" if b: "b \<in> set bs2" for b
  proof -
    have "g \<le> num rd b" "num rd b < g + 256" using assms(7) b by auto
    moreover have "?f (num rd b) = b" using the_inv_into_f_f [OF inj] b by simp
    ultimately have "rx_ring rd' ! (num rd b mod 256) = b" using r(2) b by (auto simp: rx_window_def)
    moreover have "num rd b mod 256 < length (rx_ring rd')" using r(2) by (simp add: rx_window_def)
    ultimately show ?thesis by (metis nth_mem)
  qed
  with r d show ?thesis by (intro exI [of _ rd'] exI [of _ "map ?f [s..<g]"]) (auto simp: rx_window_def)
qed

text \<open>A receiver with three frames in memory, of the numbers 7, 9 and 8 at 64, 128 and 192.\<close>

definition sample_rx :: rdma_rx where
  "sample_rx = new_rdma_rx\<lparr>rd_trx_sz := 8, rd_mem := mem_write 64 (frame_bytes 8 [] 7)
     (mem_write 128 (frame_bytes 8 [] 9) (mem_write 192 (frame_bytes 8 [] 8) (\<lambda>_. 0)))\<rparr>"

lemma sample_num: "num sample_rx 64 = 7" "num sample_rx 128 = 9" "num sample_rx 192 = 8"
  by code_simp+

lemma sample_fresh: "fresh_rx sample_rx"
  by (simp add: fresh_rx_def sample_rx_def new_rdma_rx_def new_rdma_def rdma.defs rdma_rx.defs)

lemma sample_missing: "first_missing 7 {} = 7" "first_missing 7 {7} = 8" "first_missing 7 {9, 7} = 8"
  "first_missing 7 {7, 9, 8} = 10"
  by (rule first_missing_eqI; fastforce simp: less_Suc_eq eval_nat_numeral)+

lemma sample_run: "{7} = {7..<8 :: nat}"
  by auto

theorem rx_delivers_in_order_witness:
  "\<exists>rd' ds. (\<forall>w. rx_batch (\<lambda>b sz w. Some (success, w @ [b])) [64, 128, 192] sample_rx w =
      map_option (Pair rd') (transmit_all (\<lambda>b sz w. Some (success, w @ [b])) ds (ucast (rd_trx_sz sample_rx)) w)) \<and>
    map (num sample_rx) ds = [7..<10] \<and> set ds \<subseteq> {64, 128, 192} \<and> rd_queue rd' = rd_queue sample_rx @ ds"
  using rx_delivers_in_order [OF sample_fresh, of "[64, 128, 192]" 7 10]
  by (simp add: sample_num sample_missing)

theorem rx_lost_frame_stalls_witness:
  "\<exists>rd' ds. (\<forall>w. rx_batch (\<lambda>b sz w. Some (success, w @ [b])) ([64] @ [128]) sample_rx w =
      map_option (Pair rd') (transmit_all (\<lambda>b sz w. Some (success, w @ [b])) ds (ucast (rd_trx_sz sample_rx)) w)) \<and>
    set ds = {64} \<and> rd_queue rd' = rd_queue sample_rx @ ds \<and> rx_head rd' = of_nat 8 \<and> set [128] \<subseteq> set (rx_ring rd')"
  using rx_lost_frame_stalls [OF sample_fresh, of "[64]" "[128]" 7 8]
  by (simp add: sample_num sample_missing flip: sample_run)

section \<open>The sequence number of a frame\<close>

text \<open>The number a transmitter appends is the number the receiver reads, whatever the payload, if
  both use the same transfer size.\<close>

lemma frame_seq_round_trip:
  assumes "length payload \<le> unat (rd_trx_sz rd)" and "unat (rd_trx_sz rd) = n"
    and "rd_mem rd = mem_write b (frame_bytes n payload seq) m"
  shows "frame_seq rd b = seq" and "mem_read (rd_mem rd) b (length payload) = payload"
proof -
  have "mem_read (rd_mem rd) b (n + 8) = frame_bytes n payload seq"
    using assms by (simp add: frame_bytes_def)
  then have *: "mem_read (rd_mem rd) b n @ mem_read (rd_mem rd) (b + n) 8 = (payload @ replicate (n - length payload) 0) @ le64 seq"
    by (simp add: mem_read_append frame_bytes_def)
  then have **: "mem_read (rd_mem rd) b n = payload @ replicate (n - length payload) 0 \<and> mem_read (rd_mem rd) (b + n) 8 = le64 seq"
    using assms(1,2) by (subst (asm) append_eq_append_conv) auto
  then show "frame_seq rd b = seq" using assms(2) by (simp add: frame_seq_def)
  from ** have "mem_read (rd_mem rd) b n = payload @ replicate (n - length payload) 0" by simp
  then have "mem_read (rd_mem rd) b (length payload + (n - length payload)) = payload @ replicate (n - length payload) 0"
    using assms(1,2) by simp
  then show "mem_read (rd_mem rd) b (length payload) = payload"
    by (simp add: mem_read_append append_eq_append_conv)
qed

text \<open>The counter advances once a buffer has been taken, also if the frame is then not sent: the
  receiver of the stream will miss that number.\<close>

lemma rdma_tx_on_receive_seq:
  assumes "tx_acquire env 0 rd tr = (Inr b, x)" and "b \<noteq> 0"
    and "rdma_tx_on_receive K env data seq rd tr = (r, n, seq', rd', tr')"
  shows "seq' = seq + 1"
  using assms by (cases x) (auto simp: rdma_tx_on_receive_def Let_def split: prod.splits if_splits option.splits)

section \<open>Buffers of the transmitter\<close>

text \<open>The buffers a poll gives back: those of its completions, also of the one that failed.\<close>

definition poll_buffers :: "fi_consts \<Rightarrow> cq_poll \<Rightarrow> nat list" where
  "poll_buffers K p = filter (\<lambda>b. b \<noteq> 0)
     (if cp_ret p > 0 then cp_entries p
      else if cp_ret p = - c_eavail K \<and> cp_err_ret p \<ge> 0 then [cp_err_ctx p] else [])"

lemma recycle_queue [simp]: "rd_queue (recycle bs rd) = rd_queue rd @ filter (\<lambda>b. b \<noteq> 0) bs"
  unfolding recycle_def by (induction bs arbitrary: rd) (auto simp: add_to_queue_def)

lemma tx_poll_queue: "rd_queue (snd (tx_poll K p rd)) = rd_queue rd @ poll_buffers K p"
  by (simp add: tx_poll_def poll_buffers_def)

text \<open>The polls of a round up to the first one that finds something.\<close>

fun polled :: "fi_consts \<Rightarrow> cq_poll list \<Rightarrow> cq_poll list" where
  "polled K [] = []"
| "polled K (p # ps) = (if fst (tx_poll K p (new_rdma_tx)) then [p] else p # polled K ps)"

lemma tx_round_queue:
  "rd_queue (snd (tx_round K ps rd)) = rd_queue rd @ concat (map (poll_buffers K) (polled K ps))"
proof (induction ps arbitrary: rd)
  case (Cons p ps)
  have "fst (tx_poll K p rd) = fst (tx_poll K p new_rdma_tx)" by (simp add: tx_poll_def)
  with Cons show ?case
    using tx_poll_queue [of K p rd] by (auto simp: split_def Let_def)
qed simp

text \<open>The thread puts every buffer that was sent back into the pool, once, in the order of the
  completions, and nothing else.\<close>

lemma tx_cq_thread_queue:
  "rd_queue (tx_cq_thread K elapsed rounds rd) =
     rd_queue rd @ concat (map (poll_buffers K) (concat (map (polled K) rounds)))"
  by (induction rounds arbitrary: elapsed rd)
     (auto simp: split_def Let_def tx_round_queue stop_all_def wait_buf_available_def)

end
