(* ===== verification/Data_Plane.thy ===== *)
theory Data_Plane
  imports Multipoint
begin

text \<open>
  Links between connections and groups on the object store, as the managers of the proxy set and
  clear them: virtual dispatch of \<open>set_link\<close>, the way a connection leaves its group (the same
  statements in manager_local.cc, manager_bridges.cc and manager_multipoint.cc), \<open>associate\<close>
  (manager_multipoint.cc), creation and removal of a group. Every operation either returns, or
  finds no memory for a list, or follows a pointer to an object that does not exist. Below, the
  store is abstracted to the graph of links (\<open>nodes\<close>), and each operation is shown to act on it
  as it should.
\<close>

section \<open>Operations that may fail\<close>

text \<open>\<open>NoMem\<close> is \<open>std::bad_alloc\<close>, which ends the process; \<open>Crash\<close> is the use of a dangling or null
  pointer.\<close>

datatype 'a run = Ret 'a | NoMem | Crash

fun rbind :: "'a run \<Rightarrow> ('a \<Rightarrow> 'b run) \<Rightarrow> 'b run" where
  "rbind (Ret x) f = f x"
| "rbind NoMem f = NoMem"
| "rbind Crash f = Crash"

definition of_opt :: "'a option \<Rightarrow> 'a run" where
  "of_opt x = (case x of None \<Rightarrow> Crash | Some y \<Rightarrow> Ret y)"

fun runs :: "('a \<Rightarrow> bool) \<Rightarrow> 'a run \<Rightarrow> bool" where
  "runs P (Ret x) = P x"
| "runs P NoMem = True"
| "runs P Crash = False"

lemma runs_bind: "runs Q m \<Longrightarrow> (\<And>x. Q x \<Longrightarrow> runs P (f x)) \<Longrightarrow> runs P (rbind m f)"
  by (cases m) auto

lemma runs_mono: "runs Q m \<Longrightarrow> (\<And>x. Q x \<Longrightarrow> P x) \<Longrightarrow> runs P m"
  by (cases m) auto

lemma runs_ret: "m = Ret x \<Longrightarrow> P x \<Longrightarrow> runs P m"
  by simp

section \<open>Links\<close>

text \<open>\<open>alloc\<close> is the allocator: the address of a new object or list, or 0.\<close>

definition vset_link :: "(world \<Rightarrow> u64) \<Rightarrow> u64 \<Rightarrow> u64 \<Rightarrow> u64 \<Rightarrow> world \<Rightarrow> (result \<times> world) run" where
  "vset_link alloc a new_link requester w = (case w_objs w a of
      None \<Rightarrow> Crash
    | Some c \<Rightarrow>
       (case o_class c of
          CGroup _ _ \<Rightarrow>
            if new_link = 0 \<and> requester \<noteq> 0 \<and> requester \<noteq> load (o_link c) \<and> alloc w = 0 then NoMem
            else of_opt (group_set_link (alloc w) a new_link requester w)
        | COther _ \<Rightarrow> of_opt (base_set_link a new_link w)))"

definition unlink :: "(world \<Rightarrow> u64) \<Rightarrow> u64 \<Rightarrow> world \<Rightarrow> world run" where
  "unlink alloc a w = (case w_objs w a of
      None \<Rightarrow> Crash
    | Some c \<Rightarrow>
        let l = load (o_link c) in
        if l = 0 then Ret w
        else rbind (vset_link alloc l 0 a w) (\<lambda>(_, w).
             rbind (vset_link alloc a 0 0 w) (\<lambda>(_, w). Ret w)))"

definition add_output_run :: "(world \<Rightarrow> u64) \<Rightarrow> u64 \<Rightarrow> u64 \<Rightarrow> world \<Rightarrow> (result \<times> world) run" where
  "add_output_run alloc g a w = (case w_objs w a of
      None \<Rightarrow> Crash
    | Some c \<Rightarrow> if o_kind c = Ktransmitter \<and> alloc w = 0 then NoMem else of_opt (add_output (alloc w) g a w))"

definition associate :: "(world \<Rightarrow> u64) \<Rightarrow> u64 \<Rightarrow> u64 \<Rightarrow> world \<Rightarrow> (result \<times> world) run" where
  "associate alloc g a w = (case w_objs w a of
      None \<Rightarrow> Crash
    | Some c \<Rightarrow>
       (case o_kind c of
          Kreceiver \<Rightarrow> rbind (of_opt (assign_input (alloc w) g a w)) (\<lambda>(r, w).
            if r = success then rbind (vset_link alloc a g 0 w) (\<lambda>(_, w). Ret (success, w))
            else Ret (success, w))
        | Ktransmitter \<Rightarrow> rbind (vset_link alloc a g 0 w) (\<lambda>(r, w).
            if r = success then rbind (add_output_run alloc g a w) (\<lambda>(_, w). Ret (success, w))
            else Ret (success, w))
        | Kundefined \<Rightarrow> Ret (error_bad_argument, w)))"

section \<open>Groups\<close>

definition put_obj :: "u64 \<Rightarrow> conn_obj \<Rightarrow> world \<Rightarrow> world" where
  "put_obj a c w = w\<lparr>w_objs := (w_objs w)(a \<mapsto> c)\<rparr>"

definition delete_obj :: "u64 \<Rightarrow> world \<Rightarrow> world" where
  "delete_obj a w = w\<lparr>w_objs := (w_objs w)(a := None)\<rparr>"

definition start_group :: "u64 \<Rightarrow> world \<Rightarrow> world" where
  "start_group g w = put_obj g (snd (establish group_on_establish (set_state configured new_group))) w"

text \<open>\<open>Connection::shutdown\<close> of a group.\<close>

definition shutdown_group :: "u64 \<Rightarrow> world \<Rightarrow> world run" where
  "shutdown_group g w = (case w_objs w g of
      None \<Rightarrow> Crash
    | Some c \<Rightarrow>
        if o_state c = closed_st then Ret w
        else if o_state c = deleting then Ret (note_result g error_wrong_state w)
        else rbind (of_opt (group_on_shutdown g (upd g (set_state closing) w))) (\<lambda>(r, w). Ret (note_result g r w)))"

text \<open>The part of \<open>reconcile_config\<close> that takes a group out of service.\<close>

definition retire_group :: "(world \<Rightarrow> u64) \<Rightarrow> u64 \<Rightarrow> world \<Rightarrow> world run" where
  "retire_group alloc g w = (case w_objs w g of
      None \<Rightarrow> Crash
    | Some c \<Rightarrow>
        let l = load (o_link c) in
        rbind (if l = 0 then Ret w
               else rbind (vset_link alloc l 0 0 w) (\<lambda>(_, w).
                    rbind (vset_link alloc g 0 0 w) (\<lambda>(_, w). Ret w))) (\<lambda>w.
        rbind (shutdown_group g w) (\<lambda>w.
        Ret (upd g delete_all_outputs w))))"

section \<open>The graph of links\<close>

text \<open>\<open>n_up\<close> says of a group that it is active.\<close>

record node =
  n_kind :: kind
  n_group :: bool
  n_up :: bool
  n_link :: u64
  n_outs :: "u64 list"

definition node_of :: "conn_obj \<Rightarrow> node" where
  "node_of c = \<lparr>n_kind = o_kind c, n_group = (case o_class c of CGroup _ _ \<Rightarrow> True | _ \<Rightarrow> False),
     n_up = (case o_class c of CGroup _ _ \<Rightarrow> o_state c = active | _ \<Rightarrow> True), n_link = load (o_link c), n_outs = group_outputs c\<rparr>"

definition nodes :: "world \<Rightarrow> u64 \<Rightarrow> node option" where
  "nodes w a = map_option node_of (w_objs w a)"

text \<open>A store between two operations: no pointer cell is locked, every group has published its
  outputs, and no two groups share a list.\<close>

definition plane_ok :: "world \<Rightarrow> bool" where
  "plane_ok w \<longleftrightarrow> w_lists w 0 = None \<and> w_objs w 0 = None \<and>
     (\<forall>a c. w_objs w a = Some c \<longrightarrow> aligned a \<and> dap_ready (o_link c)) \<and>
     (\<forall>g n. nodes w g = Some n \<and> n_group n \<longrightarrow> hot_ok g w) \<and>
     (\<forall>g h n m. nodes w g = Some n \<and> n_group n \<and> nodes w h = Some m \<and> n_group m \<and> g \<noteq> h \<and> hot_ptr g w \<noteq> 0
        \<longrightarrow> hot_ptr g w \<noteq> hot_ptr h w)"

definition alloc_ok :: "(world \<Rightarrow> u64) \<Rightarrow> bool" where
  "alloc_ok alloc \<longleftrightarrow> (\<forall>w. alloc w \<noteq> 0 \<longrightarrow>
     aligned (alloc w) \<and> w_objs w (alloc w) = None \<and> w_lists w (alloc w) = None)"

lemma alloc_okD:
  "alloc_ok alloc \<Longrightarrow> alloc w \<noteq> 0 \<Longrightarrow> aligned (alloc w)"
  "alloc_ok alloc \<Longrightarrow> alloc w \<noteq> 0 \<Longrightarrow> w_objs w (alloc w) = None"
  "alloc_ok alloc \<Longrightarrow> alloc w \<noteq> 0 \<Longrightarrow> w_lists w (alloc w) = None"
  by (auto simp: alloc_ok_def)

lemma nodes_dom: "nodes w a = None \<longleftrightarrow> w_objs w a = None"
  by (simp add: nodes_def)

lemma node_group_class: "n_group (node_of c) \<longleftrightarrow> (\<exists>outs d. o_class c = CGroup outs d)"
  by (simp add: node_of_def split: conn_class.splits)

lemma node_of_simps [simp]:
  "node_of (set_status t c) = node_of c"
  "node_of (set_group_ptr d c) = node_of c" "node_of (snd (set_result r c)) = node_of c"
  "node_of (c\<lparr>o_link := l\<rparr>) = (node_of c)\<lparr>n_link := load l\<rparr>"
  by (simp_all add: node_of_def set_state_def set_status_def set_group_ptr_def set_result_def group_outputs_def
      split: conn_class.splits)

lemma node_of_state:
  "node_of (set_state s c) = (if n_group (node_of c) then (node_of c)\<lparr>n_up := (s = active)\<rparr> else node_of c)"
  by (simp add: node_of_def group_outputs_def split: conn_class.splits)

lemma node_of_outputs: "n_group (node_of c) \<Longrightarrow> node_of (set_group_outputs outs c) = (node_of c)\<lparr>n_outs := outs\<rparr>"
  by (auto simp: node_of_def set_group_outputs_def group_outputs_def split: conn_class.splits)

lemma nodes_upd: "nodes (upd a f w) = (nodes w)(a := map_option (\<lambda>c. node_of (f c)) (w_objs w a))"
  by (auto simp: nodes_def upd_objs fun_eq_iff option.map_comp comp_def)

text \<open>Changes that no group notices.\<close>

lemma group_view_cong:
  assumes "w_objs w' g = w_objs w g" and "w_lists w' = w_lists w"
  shows "hot_ok g w' = hot_ok g w" "hot_ptr g w' = hot_ptr g w"
  using assms by (simp_all add: hot_ok_def hot_ptr_def cong: option.case_cong conn_class.case_cong)

lemma upd_same_class:
  assumes "\<And>c. o_class (f c) = o_class c"
  shows "hot_ok g (upd a f w) = hot_ok g w" "hot_ptr g (upd a f w) = hot_ptr g w"
  using assms by (auto simp: hot_ok_def hot_ptr_def upd_objs group_ptr_def split: option.splits conn_class.splits)

lemma plane_ok_upd:
  assumes "plane_ok w" and "\<And>c. o_class (f c) = o_class c"
    and "\<And>c. w_objs w a = Some c \<Longrightarrow> dap_ready (o_link (f c))"
  shows "plane_ok (upd a f w)"
proof -
  have g: "n_group (node_of (f c)) = n_group (node_of c)" for c by (simp add: node_of_def assms(2))
  have ex: "(\<exists>n. nodes (upd a f w) x = Some n \<and> n_group n) \<longleftrightarrow> (\<exists>n. nodes w x = Some n \<and> n_group n)" for x
    by (auto simp: nodes_upd nodes_def g)
  show ?thesis
    unfolding plane_ok_def
  proof (intro conjI allI impI)
    fix x c assume "w_objs (upd a f w) x = Some c"
    then show "aligned x" "dap_ready (o_link c)"
      using assms(1,3) by (auto simp: plane_ok_def upd_objs split: if_splits)
  next
    fix x n assume "nodes (upd a f w) x = Some n \<and> n_group n"
    then show "hot_ok x (upd a f w)" using ex [of x] assms(1) upd_same_class(1) [of f x a w, OF assms(2)]
      by (auto simp: plane_ok_def)
  next
    fix x y n m
    assume "nodes (upd a f w) x = Some n \<and> n_group n \<and> nodes (upd a f w) y = Some m \<and> n_group m \<and> x \<noteq> y \<and>
      hot_ptr x (upd a f w) \<noteq> 0"
    then show "hot_ptr x (upd a f w) \<noteq> hot_ptr y (upd a f w)"
      using ex [of x] ex [of y] assms(1) upd_same_class(2) [of f _ a w, OF assms(2)]
      by (auto simp: plane_ok_def)
  qed (use assms(1) in \<open>auto simp: plane_ok_def upd_objs\<close>)
qed

lemma base_set_link_ok:
  assumes "plane_ok w" and "nodes w a = Some n" and "aligned l"
  shows "\<exists>w'. base_set_link a l w = Some (success, w') \<and> plane_ok w' \<and>
    nodes w' = (nodes w)(a \<mapsto> n\<lparr>n_link := l\<rparr>)"
proof -
  obtain c where c: "w_objs w a = Some c" "n = node_of c" using assms(2) by (auto simp: nodes_def)
  have r: "dap_ready (o_link c)" using assms(1) c(1) by (auto simp: plane_ok_def)
  show ?thesis
  proof (cases "load (o_link c) = l")
    case True
    then have "n\<lparr>n_link := l\<rparr> = n" using c(2) by (simp add: node_of_def)
    then show ?thesis using True assms(1,2) c(1)
      by (intro exI [of _ w]) (auto simp: base_set_link_def fun_eq_iff)
  next
    case False
    obtain d where d: "store_wait l (o_link c) = Some d" "dap_ready d" "load d = l"
      using dpc.put_get [OF r assms(3)] by blast
    let ?w = "upd a (\<lambda>c. c\<lparr>o_link := d\<rparr>) w"
    have "plane_ok ?w" using d(2) by (intro plane_ok_upd [OF assms(1)]) auto
    moreover have "nodes ?w = (nodes w)(a \<mapsto> n\<lparr>n_link := l\<rparr>)"
      using c d(3) by (simp add: nodes_upd)
    ultimately show ?thesis using False c(1) d(1)
      by (intro exI [of _ ?w]) (simp add: base_set_link_def)
  qed
qed

text \<open>Storing one object, with the lists of the other groups untouched.\<close>

lemma plane_ok_put:
  assumes "plane_ok w" and o: "w_objs w' = (w_objs w)(g \<mapsto> c)" and "aligned g" and "g \<noteq> 0" and "dap_ready (o_link c)"
    and "w_lists w' 0 = None"
    and own: "\<And>outs d. o_class c = CGroup outs d \<Longrightarrow>
      dap_ready d \<and> (if load d = 0 then outs = [] else w_lists w' (load d) = Some outs)"
    and others: "\<And>h n. h \<noteq> g \<Longrightarrow> nodes w h = Some n \<Longrightarrow> n_group n \<Longrightarrow> hot_ptr h w \<noteq> 0 \<Longrightarrow>
      w_lists w' (hot_ptr h w) = w_lists w (hot_ptr h w) \<and> (\<forall>outs d. o_class c = CGroup outs d \<longrightarrow> load d \<noteq> hot_ptr h w)"
  shows "plane_ok w'"
proof -
  have same: "nodes w' h = nodes w h" "hot_ptr h w' = hot_ptr h w" if "h \<noteq> g" for h
    using that o by (simp_all add: nodes_def hot_ptr_def)
  have hot: "hot_ok h w'" if "nodes w' h = Some n" and "n_group n" for h n
  proof (cases "h = g")
    case True
    then have "n_group (node_of c)" using that o by (simp add: nodes_def)
    then obtain outs d where "o_class c = CGroup outs d" by (auto simp: node_group_class)
    with True own [of outs d] o assms(6) show ?thesis by (auto simp: hot_ok_def split: if_splits)
  next
    case False
    then have n: "nodes w h = Some n" using that(1) same by simp
    then have "hot_ok h w" using assms(1) that(2) by (auto simp: plane_ok_def)
    from hot_okD [OF this] obtain k os d where "w_objs w h = Some k" "o_class k = CGroup os d" "dap_ready d"
        "load d \<noteq> 0 \<Longrightarrow> w_lists w (load d) = Some os" "load d = 0 \<Longrightarrow> os = []" "hot_ptr h w = load d"
      by metis
    with False others [OF False n that(2)] o assms(6) show ?thesis by (auto simp: hot_ok_def)
  qed
  have own_ptr: "hot_ptr g w' = load d" if "o_class c = CGroup outs d" for outs d
    using that o by (simp add: hot_ptr_def group_ptr_def)
  have dist: "hot_ptr h w' \<noteq> hot_ptr k w'"
    if "nodes w' h = Some n" "n_group n" "nodes w' k = Some m" "n_group m" and ne: "h \<noteq> k" and "hot_ptr h w' \<noteq> 0" for h k n m
  proof (cases "h = g \<or> k = g")
    case False
    then show ?thesis using that assms(1) same by (auto simp: plane_ok_def)
  next
    case True
    have "n_group (node_of c)" using True that o by (auto simp: nodes_def)
    then obtain outs d where cl: "o_class c = CGroup outs d" by (auto simp: node_group_class)
    show ?thesis
    proof
      assume e: "hot_ptr h w' = hot_ptr k w'"
      consider "h = g" "k \<noteq> g" | "k = g" "h \<noteq> g" using True ne by blast
      then show False
      proof cases
        case 1
        then show False using others [of k m] that e same own_ptr [OF cl] cl by auto
      next
        case 2
        then show False using others [of h n] that e same own_ptr [OF cl] cl by auto
      qed
    qed
  qed
  show ?thesis
    unfolding plane_ok_def
  proof (intro conjI allI impI)
    fix a x assume "w_objs w' a = Some x"
    then show "aligned a" "dap_ready (o_link x)"
      using assms(1,3,5) o by (auto simp: plane_ok_def split: if_splits)
  qed (use assms(1,4,6) o hot dist in \<open>auto simp: plane_ok_def\<close>)
qed

lemma plane_groupD:
  assumes "plane_ok w" and "nodes w g = Some n" and "n_group n"
  obtains c outs d where "w_objs w g = Some c" "n = node_of c" "o_class c = CGroup outs d" "dap_ready d"
    "dap_ready (o_link c)" "aligned g" "g \<noteq> 0" "hot_ptr g w = load d" "n_outs n = outs"
    "\<And>h m. h \<noteq> g \<Longrightarrow> nodes w h = Some m \<Longrightarrow> n_group m \<Longrightarrow> hot_ptr h w \<noteq> 0 \<Longrightarrow> hot_ptr h w \<noteq> load d"
proof -
  obtain c where c: "w_objs w g = Some c" "n = node_of c" using assms(2) by (auto simp: nodes_def)
  then obtain outs d where d: "o_class c = CGroup outs d" using assms(3) by (auto simp: node_group_class)
  have "hot_ok g w" using assms by (auto simp: plane_ok_def)
  then have "dap_ready d" using c d by (auto simp: hot_ok_def)
  moreover have p: "hot_ptr g w = load d" using c d by (simp add: hot_ptr_def group_ptr_def)
  moreover have "hot_ptr h w \<noteq> load d" if "h \<noteq> g" "nodes w h = Some m" "n_group m" "hot_ptr h w \<noteq> 0" for h m
    using assms that p unfolding plane_ok_def by metis
  moreover have "n_outs n = outs" using c d by (simp add: node_of_def group_outputs_def)
  moreover have "dap_ready (o_link c)" "aligned g" using assms(1) c(1) by (auto simp: plane_ok_def)
  moreover have "g \<noteq> 0" using assms(1) c(1) by (auto simp: plane_ok_def)
  ultimately show thesis using that [of c outs d] c d by blast
qed

lemma group_live_list:
  assumes "plane_ok w" and "nodes w h = Some m" and "n_group m" and "hot_ptr h w \<noteq> 0"
  shows "w_lists w (hot_ptr h w) \<noteq> None"
proof -
  have "hot_ok h w" using assms by (auto simp: plane_ok_def)
  from hot_okD [OF this] assms(4) show ?thesis by (metis option.distinct(1))
qed

lemma publish_ok:
  assumes "plane_ok w" and "nodes w g = Some n" and "n_group n"
    and "fresh \<noteq> 0" and "aligned fresh" and "w_lists w fresh = None"
  shows "\<exists>w'. set_hotpath_outputs fresh (Some outs) g (upd g (set_group_outputs outs) w) = Some w' \<and> plane_ok w' \<and>
    nodes w' = (nodes w)(g \<mapsto> n\<lparr>n_outs := outs\<rparr>)"
proof -
  obtain c os d where c: "w_objs w g = Some c" "n = node_of c" "o_class c = CGroup os d" "dap_ready d"
    "dap_ready (o_link c)" "aligned g" "g \<noteq> 0" "hot_ptr g w = load d"
    "\<And>h m. h \<noteq> g \<Longrightarrow> nodes w h = Some m \<Longrightarrow> n_group m \<Longrightarrow> hot_ptr h w \<noteq> 0 \<Longrightarrow> hot_ptr h w \<noteq> load d"
    using plane_groupD [OF assms(1-3)] by metis
  obtain d' where d': "store_wait fresh d = Some d'" "dap_ready d'" "load d' = fresh"
    using dpc.put_get [OF c(4) assms(5)] by blast
  define c' where "c' = set_group_ptr d' (set_group_outputs outs c)"
  define ls where "ls = (if load d \<noteq> 0 then (w_lists w)(fresh \<mapsto> outs, load d := None) else (w_lists w)(fresh \<mapsto> outs))"
  define w' where "w' = w\<lparr>w_objs := (w_objs w)(g \<mapsto> c'), w_lists := ls\<rparr>"
  have gp: "group_ptr (set_group_outputs outs c) = d" using c(3) by (simp add: group_ptr_def set_group_outputs_def)
  have e: "set_hotpath_outputs fresh (Some outs) g (upd g (set_group_outputs outs) w) = Some w'"
    using c(1) d'(1) gp by (simp add: set_hotpath_outputs_def upd_def Let_def w'_def ls_def c'_def)
  have cl: "o_class c' = CGroup outs d'" using c(3) by (simp add: c'_def set_group_ptr_def set_group_outputs_def)
  have live: "load d \<noteq> 0 \<Longrightarrow> w_lists w (load d) \<noteq> None"
    using group_live_list [OF assms(1-3)] c(8) by simp
  then have ne: "load d \<noteq> 0 \<Longrightarrow> load d \<noteq> fresh" using assms(6) by auto
  have "plane_ok w'"
  proof (rule plane_ok_put [OF assms(1), of w' g c'])
    show "w_lists w' 0 = None" using assms(1,4) by (simp add: w'_def ls_def plane_ok_def)
  next
    fix os' d2 assume "o_class c' = CGroup os' d2"
    then show "dap_ready d2 \<and> (if load d2 = 0 then os' = [] else w_lists w' (load d2) = Some os')"
      using cl d'(2,3) ne assms(4) by (auto simp: w'_def ls_def)
  next
    fix h m assume h: "h \<noteq> g" "nodes w h = Some m" "n_group m" "hot_ptr h w \<noteq> 0"
    have "hot_ptr h w \<noteq> fresh" using group_live_list [OF assms(1) h(2-4)] assms(6) by auto
    then show "w_lists w' (hot_ptr h w) = w_lists w (hot_ptr h w) \<and>
        (\<forall>outs d. o_class c' = CGroup outs d \<longrightarrow> load d \<noteq> hot_ptr h w)"
      using c(9) [OF h] cl d'(3) by (auto simp: w'_def ls_def)
  qed (use c in \<open>simp_all add: w'_def c'_def\<close>)
  moreover have "nodes w' = (nodes w)(g \<mapsto> n\<lparr>n_outs := outs\<rparr>)"
    using assms(3) c(2) by (auto simp: nodes_def w'_def c'_def node_of_outputs fun_eq_iff)
  ultimately show ?thesis using e by blast
qed

text \<open>What \<open>set_link\<close> does to the node it is called on.\<close>

definition set_link_node :: "u64 \<Rightarrow> u64 \<Rightarrow> node \<Rightarrow> node" where
  "set_link_node l requester n =
     (if n_group n \<and> l = 0 \<and> requester \<noteq> 0
      then (if requester = n_link n then n\<lparr>n_link := 0\<rparr> else n\<lparr>n_outs := remove1 requester (n_outs n)\<rparr>)
      else n\<lparr>n_link := l\<rparr>)"

lemma vset_link_ok:
  assumes "plane_ok w" and "alloc_ok alloc" and "nodes w a = Some n" and "aligned l"
  shows "runs (\<lambda>(r, w'). r = success \<and> plane_ok w' \<and> nodes w' = (nodes w)(a \<mapsto> set_link_node l requester n))
    (vset_link alloc a l requester w)"
proof -
  obtain c where c: "w_objs w a = Some c" "n = node_of c" using assms(3) by (auto simp: nodes_def)
  obtain w1 where b: "base_set_link a l w = Some (success, w1)" "plane_ok w1" "nodes w1 = (nodes w)(a \<mapsto> n\<lparr>n_link := l\<rparr>)"
    using base_set_link_ok [OF assms(1,3,4)] by blast
  show ?thesis
  proof (cases "o_class c")
    case (COther k)
    then have "\<not> n_group n" using c(2) by (simp add: node_of_def)
    then show ?thesis using c(1) COther b by (simp add: vset_link_def of_opt_def set_link_node_def)
  next
    case (CGroup outs d)
    then have g: "n_group n" "n_outs n = outs" "group_outputs c = outs" "n_link n = load (o_link c)"
      using c(2) by (simp_all add: node_of_def group_outputs_def)
    show ?thesis
    proof (cases "l = 0 \<and> requester \<noteq> 0 \<and> requester \<noteq> load (o_link c)")
      case False
      then have "group_set_link (alloc w) a l requester w = base_set_link a l w" "set_link_node l requester n = n\<lparr>n_link := l\<rparr>"
        using c(1) g by (auto simp: group_set_link_def set_link_node_def)
      then show ?thesis using False c(1) CGroup b by (auto simp: vset_link_def of_opt_def)
    next
      case True
      show ?thesis
      proof (cases "alloc w = 0")
        case False
        obtain w2 where "set_hotpath_outputs (alloc w) (Some (remove1 requester outs)) a
            (upd a (set_group_outputs (remove1 requester outs)) w) = Some w2" "plane_ok w2"
            "nodes w2 = (nodes w)(a \<mapsto> n\<lparr>n_outs := remove1 requester outs\<rparr>)"
          using publish_ok [OF assms(1,3) g(1) False] alloc_okD [OF assms(2) False] by blast
        then show ?thesis using True False c(1) CGroup g
          by (simp add: vset_link_def of_opt_def group_set_link_def set_link_node_def Let_def)
      qed (use True c(1) CGroup in \<open>simp add: vset_link_def\<close>)
    qed
  qed
qed

lemma set_link_bind:
  assumes "plane_ok w" and "alloc_ok alloc" and "nodes w a = Some n" and "aligned l"
    and "\<And>w'. plane_ok w' \<Longrightarrow> nodes w' = (nodes w)(a \<mapsto> set_link_node l requester n) \<Longrightarrow> runs P (f success w')"
  shows "runs P (rbind (vset_link alloc a l requester w) (\<lambda>(r, w). f r w))"
  by (rule runs_bind [OF vset_link_ok [OF assms(1-4)]]) (use assms(5) in auto)

text \<open>A connection leaves its group.\<close>

lemma unlink_ok:
  assumes "plane_ok w" and "alloc_ok alloc" and "nodes w a = Some n" and "\<not> n_group n"
    and "n_link n \<noteq> 0 \<Longrightarrow> nodes w (n_link n) = Some g" and "n_link n \<noteq> 0 \<Longrightarrow> n_group g"
  shows "runs (\<lambda>w'. plane_ok w' \<and> nodes w' =
      (if n_link n = 0 then nodes w
       else (nodes w)(n_link n \<mapsto> set_link_node 0 a g, a \<mapsto> n\<lparr>n_link := 0\<rparr>))) (unlink alloc a w)"
proof -
  obtain c where c: "w_objs w a = Some c" "n = node_of c" using assms(3) by (auto simp: nodes_def)
  have l: "load (o_link c) = n_link n" using c(2) by (simp add: node_of_def)
  show ?thesis
  proof (cases "n_link n = 0")
    case True
    then show ?thesis using c(1) l assms(1) by (simp add: unlink_def)
  next
    case False
    have ne: "a \<noteq> n_link n" using assms(3-6) False by auto
    have sl: "set_link_node 0 0 n = n\<lparr>n_link := 0\<rparr>" by (simp add: set_link_node_def)
    have "runs (\<lambda>w'. plane_ok w' \<and> nodes w' = (nodes w)(n_link n \<mapsto> set_link_node 0 a g, a \<mapsto> n\<lparr>n_link := 0\<rparr>))
      (rbind (vset_link alloc (n_link n) 0 a w) (\<lambda>(_, w). rbind (vset_link alloc a 0 0 w) (\<lambda>(_, w). Ret w)))"
      by (rule set_link_bind [OF assms(1,2) assms(5) [OF False]], simp,
          rule set_link_bind [OF _ assms(2), of _ _ n]) (use ne assms(3) sl in auto)
    then show ?thesis using False c(1) l by (simp add: unlink_def)
  qed
qed

text \<open>\<open>associate\<close> puts a connection into a group: as the input or at the end of the outputs.\<close>

definition join_node :: "u64 \<Rightarrow> kind \<Rightarrow> node \<Rightarrow> node" where
  "join_node a k n = (if k = Kreceiver then n\<lparr>n_link := a\<rparr> else n\<lparr>n_outs := n_outs n @ [a]\<rparr>)"

lemma assign_input_ok:
  assumes "plane_ok w" and "nodes w a = Some n" and "n_kind n = Kreceiver" and "nodes w g = Some m" and "n_group m"
  shows "\<exists>w'. assign_input f g a w = Some (success, w') \<and> plane_ok w' \<and> nodes w' = (nodes w)(g \<mapsto> m\<lparr>n_link := a\<rparr>)"
proof -
  obtain c where c: "w_objs w a = Some c" "n = node_of c" using assms(2) by (auto simp: nodes_def)
  have "aligned a" "a \<noteq> 0" using assms(1) c(1) by (auto simp: plane_ok_def)
  moreover have "o_kind c = Kreceiver" using assms(3) c(2) by (simp add: node_of_def)
  moreover obtain d where "w_objs w g = Some d" using assms(4) by (auto simp: nodes_def)
  ultimately show ?thesis
    using base_set_link_ok [OF assms(1,4), of a] c(1) by (simp add: assign_input_def group_set_link_def)
qed

lemma add_output_ok:
  assumes "plane_ok w" and "alloc_ok alloc" and "nodes w a = Some n" and "n_kind n = Ktransmitter"
    and "nodes w g = Some m" and "n_group m"
  shows "runs (\<lambda>(r, w'). plane_ok w' \<and> nodes w' = (nodes w)(g \<mapsto> m\<lparr>n_outs := n_outs m @ [a]\<rparr>))
    (add_output_run alloc g a w)"
proof -
  obtain c where c: "w_objs w a = Some c" "n = node_of c" using assms(3) by (auto simp: nodes_def)
  obtain d where d: "w_objs w g = Some d" "m = node_of d" using assms(5) by (auto simp: nodes_def)
  have k: "o_kind c = Ktransmitter" "n_outs m = group_outputs d" using assms(4) c(2) d(2) by (simp_all add: node_of_def)
  show ?thesis
  proof (cases "alloc w = 0")
    case False
    obtain w' where "set_hotpath_outputs (alloc w) (Some (group_outputs d @ [a])) g
        (upd g (set_group_outputs (group_outputs d @ [a])) w) = Some w'" "plane_ok w'"
        "nodes w' = (nodes w)(g \<mapsto> m\<lparr>n_outs := group_outputs d @ [a]\<rparr>)"
      using publish_ok [OF assms(1,5,6) False] alloc_okD [OF assms(2) False] by blast
    then show ?thesis using False c(1) d(1) k
      by (simp add: add_output_run_def add_output_def of_opt_def Let_def)
  qed (use c k in \<open>simp add: add_output_run_def\<close>)
qed

lemma associate_ok:
  assumes "plane_ok w" and "alloc_ok alloc" and "nodes w a = Some n" and "\<not> n_group n" and "n_kind n \<noteq> Kundefined"
    and "nodes w g = Some m" and "n_group m"
  shows "runs (\<lambda>(r, w'). r = success \<and> plane_ok w' \<and>
      nodes w' = (nodes w)(a \<mapsto> n\<lparr>n_link := g\<rparr>, g \<mapsto> join_node a (n_kind n) m)) (associate alloc g a w)"
proof -
  obtain c where c: "w_objs w a = Some c" "n = node_of c" using assms(3) by (auto simp: nodes_def)
  have ne: "a \<noteq> g" using assms(3,4,6,7) by auto
  obtain d where "w_objs w g = Some d" using assms(6) by (auto simp: nodes_def)
  then have al: "aligned g" using assms(1) by (auto simp: plane_ok_def)
  have sl: "set_link_node g 0 n = n\<lparr>n_link := g\<rparr>" by (simp add: set_link_node_def)
  have k: "o_kind c = n_kind n" using c(2) by (simp add: node_of_def)
  show ?thesis
  proof (cases "n_kind n")
    case Kreceiver
    obtain w1 where w1: "assign_input (alloc w) g a w = Some (success, w1)" "plane_ok w1"
        "nodes w1 = (nodes w)(g \<mapsto> m\<lparr>n_link := a\<rparr>)"
      using assign_input_ok [OF assms(1,3) Kreceiver assms(6,7)] by blast
    have n1: "nodes w1 a = Some n" using w1(3) ne assms(3) by simp
    have "runs (\<lambda>(r, w'). r = success \<and> plane_ok w' \<and>
        nodes w' = (nodes w)(a \<mapsto> n\<lparr>n_link := g\<rparr>, g \<mapsto> join_node a Kreceiver m))
      (rbind (vset_link alloc a g 0 w1) (\<lambda>(_, w). Ret (success, w)))"
      by (rule set_link_bind [OF w1(2) assms(2) n1 al]) (use ne sl w1(3) in \<open>auto simp: join_node_def\<close>)
    then show ?thesis using c(1) k Kreceiver w1(1) by (simp add: associate_def of_opt_def)
  next
    case Ktransmitter
    have "runs (\<lambda>(r, w'). r = success \<and> plane_ok w' \<and>
        nodes w' = (nodes w)(a \<mapsto> n\<lparr>n_link := g\<rparr>, g \<mapsto> join_node a Ktransmitter m))
      (rbind (vset_link alloc a g 0 w) (\<lambda>(r, w).
         if r = success then rbind (add_output_run alloc g a w) (\<lambda>(_, w). Ret (success, w)) else Ret (success, w)))"
    proof (rule set_link_bind [OF assms(1-3) al])
      fix w' assume w': "plane_ok w'" "nodes w' = (nodes w)(a \<mapsto> set_link_node g 0 n)"
      then have "nodes w' a = Some (n\<lparr>n_link := g\<rparr>)" "nodes w' g = Some m" using ne assms(6) sl by simp_all
      from add_output_ok [OF w'(1) assms(2) this(1) _ this(2) assms(7)] Ktransmitter
      have "runs (\<lambda>(r, w''). plane_ok w'' \<and> nodes w'' = (nodes w')(g \<mapsto> m\<lparr>n_outs := n_outs m @ [a]\<rparr>))
        (add_output_run alloc g a w')" by simp
      then have "runs (\<lambda>(r, w'). r = success \<and> plane_ok w' \<and>
          nodes w' = (nodes w)(a \<mapsto> n\<lparr>n_link := g\<rparr>, g \<mapsto> join_node a Ktransmitter m))
        (rbind (add_output_run alloc g a w') (\<lambda>(_, w). Ret (success, w)))"
        by (rule runs_bind) (use w'(2) sl in \<open>auto simp: join_node_def\<close>)
      then show "runs (\<lambda>(r, w'). r = success \<and> plane_ok w' \<and>
          nodes w' = (nodes w)(a \<mapsto> n\<lparr>n_link := g\<rparr>, g \<mapsto> join_node a Ktransmitter m))
        (if success = success then rbind (add_output_run alloc g a w') (\<lambda>(_, w). Ret (success, w)) else Ret (success, w'))"
        by simp
    qed
    then show ?thesis using c(1) k Ktransmitter by (simp add: associate_def)
  qed (use assms(5) in simp)
qed

text \<open>Objects come and go.\<close>

lemma plane_ok_fresh:
  assumes "plane_ok w" and "w_objs w a = None" and "aligned a" and "a \<noteq> 0" and "dap_ready (o_link c)"
    and "\<And>outs d. o_class c = CGroup outs d \<Longrightarrow> dap_ready d \<and> load d = 0 \<and> outs = []"
  shows "plane_ok (put_obj a c w)" "nodes (put_obj a c w) = (nodes w)(a \<mapsto> node_of c)"
proof -
  have "w_lists w 0 = None" using assms(1) by (simp add: plane_ok_def)
  then show "plane_ok (put_obj a c w)"
    by (intro plane_ok_put [OF assms(1), of _ a c]) (use assms in \<open>auto simp: put_obj_def\<close>)
qed (auto simp: nodes_def put_obj_def fun_eq_iff)

lemma plane_ok_same:
  assumes "plane_ok w" and "w_objs w a = Some b" and "dap_ready (o_link c)" and "o_class c = o_class b"
  shows "plane_ok (put_obj a c w)" "nodes (put_obj a c w) = (nodes w)(a \<mapsto> node_of c)"
proof -
  have "b\<lparr>o_kind := o_kind c, o_state := o_state c, o_status := o_status c, o_link := o_link c,
      o_metrics := o_metrics c\<rparr> = c" using assms(4) by (cases b; cases c) simp
  then have e: "put_obj a c w = upd a (\<lambda>d. d\<lparr>o_kind := o_kind c, o_state := o_state c, o_status := o_status c,
      o_link := o_link c, o_metrics := o_metrics c\<rparr>) w"
    using assms(2) by (simp add: put_obj_def upd_def)
  show "plane_ok (put_obj a c w)" unfolding e by (rule plane_ok_upd [OF assms(1)]) (use assms(3) in auto)
qed (auto simp: nodes_def put_obj_def fun_eq_iff)

lemma delete_obj_ok:
  assumes "plane_ok w"
  shows "plane_ok (delete_obj a w)" "nodes (delete_obj a w) = (nodes w)(a := None)"
proof -
  show n: "nodes (delete_obj a w) = (nodes w)(a := None)" by (auto simp: nodes_def delete_obj_def fun_eq_iff)
  have same: "hot_ok g (delete_obj a w) = hot_ok g w" "hot_ptr g (delete_obj a w) = hot_ptr g w" if "g \<noteq> a" for g
    using group_view_cong [of "delete_obj a w" g w] that by (simp_all add: delete_obj_def)
  show "plane_ok (delete_obj a w)"
    unfolding plane_ok_def n
  proof (intro conjI allI impI)
    fix g h x y
    assume "((nodes w)(a := None)) g = Some x \<and> n_group x \<and> ((nodes w)(a := None)) h = Some y \<and> n_group y \<and> g \<noteq> h \<and>
      hot_ptr g (delete_obj a w) \<noteq> 0"
    then show "hot_ptr g (delete_obj a w) \<noteq> hot_ptr h (delete_obj a w)"
      using assms same unfolding plane_ok_def by (metis fun_upd_apply option.distinct(1))
  qed (use assms same in \<open>auto simp: plane_ok_def delete_obj_def split: if_splits\<close>)
qed

lemma start_group_ok:
  assumes "plane_ok w" and "w_objs w g = None" and "aligned g" and "g \<noteq> 0"
  shows "plane_ok (start_group g w)"
    "nodes (start_group g w) = (nodes w)(g \<mapsto> \<lparr>n_kind = Ktransmitter, n_group = True, n_up = True, n_link = 0, n_outs = []\<rparr>)"
proof -
  let ?c = "snd (establish group_on_establish (set_state configured new_group))"
  have c: "?c = set_status Shealthy (set_state active new_group)"
    by (simp add: establish_def group_on_establish_def set_state_def)
  have d: "dap_ready dap_init" "load dap_init = 0"
    by (simp_all add: dap_init_def dap_ready_def load_def aligned_iff STATE_UNLOCKED_def)
  have n: "node_of ?c = \<lparr>n_kind = Ktransmitter, n_group = True, n_up = True, n_link = 0, n_outs = []\<rparr>"
    unfolding c using d by (simp add: node_of_def new_group_def new_connection_def group_outputs_def)
  show "plane_ok (start_group g w)" unfolding start_group_def c
    by (rule plane_ok_fresh [OF assms]) (use d in \<open>auto simp: new_group_def new_connection_def\<close>)
  show "nodes (start_group g w) = (nodes w)(g \<mapsto> \<lparr>n_kind = Ktransmitter, n_group = True, n_up = True, n_link = 0, n_outs = []\<rparr>)"
    unfolding start_group_def n [symmetric] unfolding c
    by (rule plane_ok_fresh(2) [OF assms]) (use d in \<open>auto simp: new_group_def new_connection_def\<close>)
qed

text \<open>The shutdown of a group, and taking it out of service.\<close>

lemma publish_none_ok:
  assumes "plane_ok w" and "nodes w g = Some n" and "n_group n"
  shows "\<exists>w'. set_hotpath_outputs 0 None g (upd g (set_group_outputs []) w) = Some w' \<and> plane_ok w' \<and>
    nodes w' = (nodes w)(g \<mapsto> n\<lparr>n_outs := []\<rparr>)"
proof -
  obtain c os d where c: "w_objs w g = Some c" "n = node_of c" "o_class c = CGroup os d" "dap_ready d"
    "dap_ready (o_link c)" "aligned g" "g \<noteq> 0" "hot_ptr g w = load d"
    "\<And>h m. h \<noteq> g \<Longrightarrow> nodes w h = Some m \<Longrightarrow> n_group m \<Longrightarrow> hot_ptr h w \<noteq> 0 \<Longrightarrow> hot_ptr h w \<noteq> load d"
    using plane_groupD [OF assms] by metis
  have "aligned (0::u64)" by simp
  then obtain d' where d': "store_wait 0 d = Some d'" "dap_ready d'" "load d' = 0"
    using dpc.put_get [OF c(4)] by blast
  define c' where "c' = set_group_ptr d' (set_group_outputs [] c)"
  define ls where "ls = (if load d \<noteq> 0 then (w_lists w)(load d := None) else w_lists w)"
  define w' where "w' = w\<lparr>w_objs := (w_objs w)(g \<mapsto> c'), w_lists := ls\<rparr>"
  have gp: "group_ptr (set_group_outputs [] c) = d" using c(3) by (simp add: group_ptr_def set_group_outputs_def)
  have e: "set_hotpath_outputs 0 None g (upd g (set_group_outputs []) w) = Some w'"
    using c(1) d'(1) gp by (simp add: set_hotpath_outputs_def upd_def Let_def w'_def ls_def c'_def)
  have cl: "o_class c' = CGroup [] d'" using c(3) by (simp add: c'_def set_group_ptr_def set_group_outputs_def)
  have "plane_ok w'"
  proof (rule plane_ok_put [OF assms(1), of w' g c'])
    fix h m assume h: "h \<noteq> g" "nodes w h = Some m" "n_group m" "hot_ptr h w \<noteq> 0"
    then show "w_lists w' (hot_ptr h w) = w_lists w (hot_ptr h w) \<and>
        (\<forall>outs d. o_class c' = CGroup outs d \<longrightarrow> load d \<noteq> hot_ptr h w)"
      using c(9) [OF h] cl d'(3) by (auto simp: w'_def ls_def)
  qed (use c d' cl assms(1) in \<open>auto simp: w'_def ls_def plane_ok_def c'_def\<close>)
  moreover have "nodes w' = (nodes w)(g \<mapsto> n\<lparr>n_outs := []\<rparr>)"
    using assms(3) c(2) by (auto simp: nodes_def w'_def c'_def node_of_outputs fun_eq_iff)
  ultimately show ?thesis using e by blast
qed

lemma plane_ok_note [simp]:
  "plane_ok w \<Longrightarrow> plane_ok (note_result a r w)" "nodes (note_result a r w) = nodes w"
proof -
  show "nodes (note_result a r w) = nodes w"
    by (auto simp: note_result_def nodes_upd nodes_def fun_eq_iff)
  assume "plane_ok w"
  then show "plane_ok (note_result a r w)" unfolding note_result_def
    by (rule plane_ok_upd) (use \<open>plane_ok w\<close> in \<open>auto simp: plane_ok_def\<close>)
qed

lemma plane_ok_state:
  assumes "plane_ok w" and "nodes w g = Some n" and "n_group n"
  shows "plane_ok (upd g (set_state s) w)" "nodes (upd g (set_state s) w) = (nodes w)(g \<mapsto> n\<lparr>n_up := (s = active)\<rparr>)"
proof -
  show "plane_ok (upd g (set_state s) w)"
    by (rule plane_ok_upd [OF assms(1)]) (use assms(1) in \<open>auto simp: plane_ok_def\<close>)
  show "nodes (upd g (set_state s) w) = (nodes w)(g \<mapsto> n\<lparr>n_up := (s = active)\<rparr>)"
    using assms(2,3) by (auto simp: nodes_upd nodes_def node_of_state fun_eq_iff)
qed

lemma shutdown_group_ok:
  assumes "plane_ok w" and "nodes w g = Some n" and "n_group n" and "n_up n"
  shows "runs (\<lambda>w'. plane_ok w' \<and> nodes w' = (nodes w)(g \<mapsto> n\<lparr>n_up := False, n_link := 0, n_outs := []\<rparr>))
    (shutdown_group g w)"
proof -
  obtain c where c: "w_objs w g = Some c" "n = node_of c" using assms(2) by (auto simp: nodes_def)
  then have st: "o_state c = active" using assms(3,4) by (auto simp: node_of_def split: conn_class.splits)
  let ?w1 = "upd g (set_state closing) w"
  let ?n1 = "n\<lparr>n_up := False\<rparr>"
  have w1: "plane_ok ?w1" "nodes ?w1 = (nodes w)(g \<mapsto> ?n1)" using plane_ok_state [OF assms(1-3), of closing] by simp_all
  then obtain w2 where w2: "base_set_link g 0 ?w1 = Some (success, w2)" "plane_ok w2"
      "nodes w2 = (nodes w)(g \<mapsto> ?n1\<lparr>n_link := 0\<rparr>)"
    using base_set_link_ok [of ?w1 g ?n1 0] by auto
  then obtain w3 where w3: "set_hotpath_outputs 0 None g (upd g (set_group_outputs []) w2) = Some w3" "plane_ok w3"
      "nodes w3 = (nodes w)(g \<mapsto> ?n1\<lparr>n_link := 0, n_outs := []\<rparr>)"
    using publish_none_ok [of w2 g "?n1\<lparr>n_link := 0\<rparr>"] assms(3) by auto
  let ?w4 = "upd g (\<lambda>c. set_status Sshutdown (set_state closed_st c)) w3"
  have "plane_ok ?w4" by (rule plane_ok_upd [OF w3(2)]) (use w3(2) in \<open>auto simp: plane_ok_def\<close>)
  moreover have "nodes ?w4 = (nodes w)(g \<mapsto> ?n1\<lparr>n_link := 0, n_outs := []\<rparr>)"
  proof -
    obtain k where "w_objs w3 g = Some k" "node_of k = ?n1\<lparr>n_link := 0, n_outs := []\<rparr>" using w3(3)
      by (metis (no_types, lifting) fun_upd_same map_option_eq_Some nodes_def)
    then show ?thesis using w3(3) assms(3) by (cases n) (simp add: nodes_upd node_of_state)
  qed
  ultimately show ?thesis using c(1) st w2(1) w3(1)
    by (simp add: shutdown_group_def group_on_shutdown_def of_opt_def)
qed

lemma retire_group_ok:
  assumes "plane_ok w" and "alloc_ok alloc" and "nodes w g = Some n" and "n_group n" and "n_up n"
    and "n_link n \<noteq> 0 \<Longrightarrow> nodes w (n_link n) = Some m" and "n_link n \<noteq> 0 \<Longrightarrow> \<not> n_group m"
  shows "runs (\<lambda>w'. plane_ok w' \<and> nodes w' =
      (if n_link n = 0 then nodes w else (nodes w)(n_link n \<mapsto> m\<lparr>n_link := 0\<rparr>))
        (g \<mapsto> n\<lparr>n_up := False, n_link := 0, n_outs := []\<rparr>)) (retire_group alloc g w)"
proof -
  obtain c where c: "w_objs w g = Some c" "n = node_of c" using assms(3) by (auto simp: nodes_def)
  have l: "load (o_link c) = n_link n" using c(2) by (simp add: node_of_def)
  let ?N = "if n_link n = 0 then nodes w else (nodes w)(n_link n \<mapsto> m\<lparr>n_link := 0\<rparr>)"
  let ?N' = "?N(g \<mapsto> n\<lparr>n_up := False, n_link := 0, n_outs := []\<rparr>)"
  have 1: "runs (\<lambda>w'. plane_ok w' \<and> nodes w' = ?N(g \<mapsto> n\<lparr>n_link := 0\<rparr>))
    (if n_link n = 0 then Ret w else rbind (vset_link alloc (n_link n) 0 0 w) (\<lambda>(_, w).
       rbind (vset_link alloc g 0 0 w) (\<lambda>(_, w). Ret w)))"
  proof (cases "n_link n = 0")
    case True
    then have "n\<lparr>n_link := 0\<rparr> = n" by simp
    then show ?thesis using True assms(1,3) by (auto simp: fun_eq_iff)
  next
    case False
    have ne: "g \<noteq> n_link n" using assms(3,4,6,7) False by auto
    have "runs (\<lambda>w'. plane_ok w' \<and> nodes w' = ?N(g \<mapsto> n\<lparr>n_link := 0\<rparr>))
      (rbind (vset_link alloc (n_link n) 0 0 w) (\<lambda>(_, w). rbind (vset_link alloc g 0 0 w) (\<lambda>(_, w). Ret w)))"
      by (rule set_link_bind [OF assms(1,2) assms(6) [OF False]], simp,
          rule set_link_bind [OF _ assms(2), of _ _ n])
         (use ne assms(3) False in \<open>auto simp: set_link_node_def\<close>)
    then show ?thesis using False by simp
  qed
  have 2: "runs (\<lambda>w'. plane_ok w' \<and> nodes w' = ?N') (rbind (shutdown_group g w1) (\<lambda>w. Ret (upd g delete_all_outputs w)))"
    if w1: "plane_ok w1" "nodes w1 = ?N(g \<mapsto> n\<lparr>n_link := 0\<rparr>)" for w1
  proof -
    have g1: "nodes w1 g = Some (n\<lparr>n_link := 0\<rparr>)" using w1(2) by simp
    from shutdown_group_ok [OF w1(1) g1] assms(4,5)
    have "runs (\<lambda>w'. plane_ok w' \<and> nodes w' = ?N') (shutdown_group g w1)" by (simp add: w1(2))
    then show ?thesis
    proof (rule runs_bind)
      fix w2 assume w2: "plane_ok w2 \<and> nodes w2 = ?N'"
      then have "nodes w2 g = Some (n\<lparr>n_up := False, n_link := 0, n_outs := []\<rparr>)" by simp
      then obtain k where k: "w_objs w2 g = Some k" and nk: "node_of k = n\<lparr>n_up := False, n_link := 0, n_outs := []\<rparr>"
        by (auto simp: nodes_def)
      have "n_group (node_of k)" "n_outs (node_of k) = []" using nk assms(4) by simp_all
      then have kc: "\<exists>d. o_class k = CGroup [] d" by (auto simp: node_of_def group_outputs_def split: conn_class.splits)
      then have "delete_all_outputs k = k" by (cases k) (auto simp: delete_all_outputs_def set_group_outputs_def)
      then have "upd g delete_all_outputs w2 = w2" using k by (simp add: upd_def fun_upd_idem)
      then show "runs (\<lambda>w'. plane_ok w' \<and> nodes w' = ?N') (Ret (upd g delete_all_outputs w2))" using w2 by simp
    qed
  qed
  have e: "retire_group alloc g w = rbind (if n_link n = 0 then Ret w
      else rbind (vset_link alloc (n_link n) 0 0 w) (\<lambda>(_, w). rbind (vset_link alloc g 0 0 w) (\<lambda>(_, w). Ret w)))
    (\<lambda>w. rbind (shutdown_group g w) (\<lambda>w. Ret (upd g delete_all_outputs w)))"
    using c(1) l by (simp add: retire_group_def Let_def)
  show ?thesis unfolding e by (rule runs_bind [OF 1]) (use 2 in blast)
qed

end
