(* ===== verification/Membership.thy ===== *)
theory Membership
  imports Data_Plane
begin

text \<open>
  Who belongs to which group. A registry \<open>M\<close> gives the address of a connection by its identifier,
  \<open>G\<close> the address of a group by its name, \<open>V\<close> the group a connection belongs to. \<open>members_ok\<close> says
  that the graph of links shows exactly that; each way in which the managers of the proxy change
  the graph is shown to keep it for the right \<open>V\<close>.
\<close>

definition kind_at :: "(u64 \<Rightarrow> node option) \<Rightarrow> u64 \<Rightarrow> kind option" where
  "kind_at N a = map_option n_kind (N a)"

lemma kind_at_upd [simp]:
  "kind_at (N(a \<mapsto> n)) b = (if b = a then Some (n_kind n) else kind_at N b)"
  "kind_at (N(a := None)) b = (if b = a then None else kind_at N b)"
  by (simp_all add: kind_at_def)

lemma kind_at_Some: "N a = Some n \<Longrightarrow> kind_at N a = Some (n_kind n)"
  by (simp add: kind_at_def)

definition members :: "('i \<Rightarrow> u64 option) \<Rightarrow> ('i \<Rightarrow> string option) \<Rightarrow> (u64 \<Rightarrow> node option) \<Rightarrow> string \<Rightarrow> kind \<Rightarrow> u64 set" where
  "members M V N g k = {a. \<exists>i. M i = Some a \<and> V i = Some g \<and> kind_at N a = Some k}"

lemma members_iff: "a \<in> members M V N g k \<longleftrightarrow> (\<exists>i. M i = Some a \<and> V i = Some g) \<and> kind_at N a = Some k"
  by (auto simp: members_def)

text \<open>A group in service has the transmitters among its members as outputs, each once, and one of the
  receivers, if any, as input. A group in \<open>X\<close> is out of service: it has no links of its own.\<close>

definition group_node_ok ::
  "('i \<Rightarrow> u64 option) \<Rightarrow> ('i \<Rightarrow> string option) \<Rightarrow> string set \<Rightarrow> (u64 \<Rightarrow> node option) \<Rightarrow> string \<Rightarrow> node \<Rightarrow> bool" where
  "group_node_ok M V X N g n \<longleftrightarrow> n_group n \<and>
     (if g \<in> X then n_link n = 0 \<and> n_outs n = []
      else n_up n \<and> distinct (n_outs n) \<and> set (n_outs n) = members M V N g Ktransmitter \<and>
        (n_link n = 0 \<or> n_link n \<in> members M V N g Kreceiver))"

definition member_node_ok :: "(string \<Rightarrow> u64 option) \<Rightarrow> string option \<Rightarrow> node \<Rightarrow> bool" where
  "member_node_ok G v n \<longleftrightarrow> \<not> n_group n \<and> n_kind n \<noteq> Kundefined \<and>
     (case v of None \<Rightarrow> n_link n = 0 | Some g \<Rightarrow> G g = Some (n_link n))"

definition members_ok ::
  "('i \<Rightarrow> u64 option) \<Rightarrow> (string \<Rightarrow> u64 option) \<Rightarrow> ('i \<Rightarrow> string option) \<Rightarrow> string set \<Rightarrow> (u64 \<Rightarrow> node option) \<Rightarrow> bool" where
  "members_ok M G V X N \<longleftrightarrow> N 0 = None \<and>
     (\<forall>i a. M i = Some a \<longrightarrow> (\<exists>n. N a = Some n \<and> member_node_ok G (V i) n)) \<and>
     (\<forall>i j a. M i = Some a \<and> M j = Some a \<longrightarrow> i = j) \<and>
     (\<forall>g x. G g = Some x \<longrightarrow> (\<exists>n. N x = Some n \<and> group_node_ok M V X N g n)) \<and>
     (\<forall>g h x. G g = Some x \<and> G h = Some x \<longrightarrow> g = h)"

lemma members_okD:
  assumes "members_ok M G V X N"
  shows "N 0 = None"
    and "M i = Some a \<Longrightarrow> \<exists>n. N a = Some n \<and> member_node_ok G (V i) n"
    and "M i = Some a \<Longrightarrow> M j = Some a \<Longrightarrow> i = j"
    and "G g = Some x \<Longrightarrow> \<exists>n. N x = Some n \<and> group_node_ok M V X N g n"
    and "G g = Some x \<Longrightarrow> G h = Some x \<Longrightarrow> g = h"
  using assms unfolding members_ok_def by blast+

lemma members_okI:
  assumes "N 0 = None"
    and "\<And>i a. M i = Some a \<Longrightarrow> \<exists>n. N a = Some n \<and> member_node_ok G (V i) n"
    and "\<And>i j a. M i = Some a \<Longrightarrow> M j = Some a \<Longrightarrow> i = j"
    and "\<And>g x. G g = Some x \<Longrightarrow> \<exists>n. N x = Some n \<and> group_node_ok M V X N g n"
    and "\<And>g h x. G g = Some x \<Longrightarrow> G h = Some x \<Longrightarrow> g = h"
  shows "members_ok M G V X N"
  using assms unfolding members_ok_def by blast

lemma group_node_cong:
  assumes "\<And>k. members M' V' N' g k = members M V N g k" and "g \<in> X' \<longleftrightarrow> g \<in> X"
  shows "group_node_ok M' V' X' N' g = group_node_ok M V X N g"
  using assms by (auto simp: group_node_ok_def fun_eq_iff)

text \<open>Members are not groups.\<close>

lemma member_not_group:
  assumes "members_ok M G V X N" and "M i = Some a" and "G g = Some x"
  shows "a \<noteq> x"
  using members_okD(2) [OF assms(1,2)] members_okD(4) [OF assms(1,3)]
  by (auto simp: member_node_ok_def group_node_ok_def)

text \<open>What is not registered may be regarded as belonging anywhere.\<close>

lemma members_cong:
  "(\<And>i. M i \<noteq> None \<Longrightarrow> V i = V' i) \<Longrightarrow> members M V N g k = members M V' N g k"
  by (auto simp: members_def)

lemma members_ok_cong:
  assumes "members_ok M G V X N" and "\<And>i. M i \<noteq> None \<Longrightarrow> V i = V' i"
  shows "members_ok M G V' X N"
proof (rule members_okI)
  fix i a assume i: "M i = Some a"
  then have "V' i = V i" using assms(2) [of i] by simp
  then show "\<exists>n. N a = Some n \<and> member_node_ok G (V' i) n" using members_okD(2) [OF assms(1) i] by simp
next
  fix g x assume g: "G g = Some x"
  have "group_node_ok M V' X N g = group_node_ok M V X N g"
    by (rule group_node_cong) (use members_cong [of M V V', OF assms(2)] in auto)
  then show "\<exists>n. N x = Some n \<and> group_node_ok M V' X N g n" using members_okD(4) [OF assms(1) g] by simp
qed (use members_okD [OF assms(1)] in blast)+

section \<open>Leaving a group\<close>

lemma members_leave:
  assumes "\<And>j. M j = Some a \<longleftrightarrow> j = i" and "\<And>b. kind_at N' b = kind_at N b"
  shows "members M (V(i := None)) N' g k = members M V N g k - {a}"
proof -
  have "(\<exists>j. M j = Some b \<and> (V(i := None)) j = Some g) \<longleftrightarrow> (\<exists>j. M j = Some b \<and> V j = Some g) \<and> b \<noteq> a" for b
    using assms(1) by (metis fun_upd_apply option.distinct(1) option.inject)
  then show ?thesis using assms(2) by (simp add: set_eq_iff members_iff) blast
qed

lemma members_disjoint: "a \<in> members M V N g Kreceiver \<Longrightarrow> a \<notin> members M V N g Ktransmitter"
  by (auto simp: members_def)

lemma members_ok_leave:
  assumes "members_ok M G V X N" and "M i = Some a" and "N a = Some n" and "n_link n \<noteq> 0 \<Longrightarrow> N (n_link n) = Some m"
  shows "members_ok M G (V(i := None)) X
    (if n_link n = 0 then N else N(n_link n \<mapsto> set_link_node 0 a m, a \<mapsto> n\<lparr>n_link := 0\<rparr>))"
proof (cases "V i")
  case None
  then have "n_link n = 0" "V(i := None) = V" using members_okD(2) [OF assms(1,2)] assms(3) by (auto simp: member_node_ok_def)
  then show ?thesis using assms(1) by simp
next
  case (Some g)
  then have x: "G g = Some (n_link n)" "\<not> n_group n" "n_kind n \<noteq> Kundefined"
    using members_okD(2) [OF assms(1,2)] assms(3) by (auto simp: member_node_ok_def)
  then have "n_link n \<noteq> 0" using members_okD(1,4) [OF assms(1)] by fastforce
  then have m: "N (n_link n) = Some m" and gm: "group_node_ok M V X N g m"
    using assms(4) members_okD(4) [OF assms(1) x(1)] by auto
  have ne: "a \<noteq> n_link n" by (rule member_not_group [OF assms(1,2) x(1)])
  have a0: "a \<noteq> 0" using members_okD(1) [OF assms(1)] assms(3) by auto
  define N' where "N' = N(n_link n \<mapsto> set_link_node 0 a m, a \<mapsto> n\<lparr>n_link := 0\<rparr>)"
  have k: "kind_at N' b = kind_at N b" for b
    using m assms(3) by (auto simp: N'_def set_link_node_def kind_at_Some)
  have inj: "j = i" if "M j = Some a" for j using members_okD(3) [OF assms(1) that assms(2)] .
  have iff: "M j = Some a \<longleftrightarrow> j = i" for j using inj assms(2) by blast
  note leave = members_leave [of M a i N' N V, OF iff k]
  have "members_ok M G (V(i := None)) X N'"
  proof (rule members_okI)
    show "N' 0 = None" using members_okD(1) [OF assms(1)] m assms(3) by (auto simp: N'_def)
  next
    fix j b assume j: "M j = Some b"
    show "\<exists>n. N' b = Some n \<and> member_node_ok G ((V(i := None)) j) n"
    proof (cases "j = i")
      case True
      then show ?thesis using j assms(2) x by (auto simp: N'_def member_node_ok_def)
    next
      case False
      then have "b \<noteq> a" using inj j by auto
      moreover have "b \<noteq> n_link n" by (rule member_not_group [OF assms(1) j x(1)])
      ultimately show ?thesis using False members_okD(2) [OF assms(1) j] by (simp add: N'_def)
    qed
  next
    fix h y assume h: "G h = Some y"
    have ya: "y \<noteq> a" using member_not_group [OF assms(1,2) h] by simp
    obtain q where q: "N y = Some q" "group_node_ok M V X N h q" using members_okD(4) [OF assms(1) h] by blast
    show "\<exists>n. N' y = Some n \<and> group_node_ok M (V(i := None)) X N' h n"
    proof (cases "h = g")
      case True
      then have "N' y = Some (set_link_node 0 a m)" using h x(1) ya by (simp add: N'_def)
      moreover have "group_node_ok M (V(i := None)) X N' g (set_link_node 0 a m)"
        using gm a0 members_disjoint [of a M V N g] by (auto simp: set_link_node_def group_node_ok_def leave)
      ultimately show ?thesis using True by simp
    next
      case False
      then have "y \<noteq> n_link n" using members_okD(5) [OF assms(1) h] x(1) by blast
      then have "N' y = Some q" using ya q(1) by (simp add: N'_def)
      moreover have "a \<notin> members M V N h k" for k using False Some inj by (auto simp: members_def)
      then have "group_node_ok M (V(i := None)) X N' h q"
        using q(2) group_node_cong [of M "V(i := None)" N' h M V N X X] by (simp add: leave)
      ultimately show ?thesis by blast
    qed
  qed (use members_okD [OF assms(1)] in blast)+
  then show ?thesis using \<open>n_link n \<noteq> 0\<close> by (simp add: N'_def)
qed

section \<open>Joining a group\<close>

lemma members_ok_join:
  assumes "members_ok M G V X N" and "M i = Some a" and "N a = Some n" and "V i = None"
    and "G g = Some x" and "g \<notin> X" and "N x = Some m"
  shows "members_ok M G (V(i \<mapsto> g)) X (N(a \<mapsto> n\<lparr>n_link := x\<rparr>, x \<mapsto> join_node a (n_kind n) m))"
proof -
  define N' where "N' = N(a \<mapsto> n\<lparr>n_link := x\<rparr>, x \<mapsto> join_node a (n_kind n) m)"
  have gm: "group_node_ok M V X N g m" using members_okD(4) [OF assms(1,5)] assms(7) by auto
  have n: "\<not> n_group n" "n_kind n \<noteq> Kundefined"
    using members_okD(2) [OF assms(1,2)] assms(3) by (auto simp: member_node_ok_def)
  have ne: "a \<noteq> x" by (rule member_not_group [OF assms(1,2,5)])
  have inj: "j = i" if "M j = Some a" for j using members_okD(3) [OF assms(1) that assms(2)] .
  have iff: "M j = Some a \<longleftrightarrow> j = i" for j using inj assms(2) by blast
  have k: "kind_at N' b = kind_at N b" for b
    using assms(3,7) by (auto simp: N'_def join_node_def kind_at_Some)
  have memb: "members M (V(i \<mapsto> g)) N' h k = (if h = g \<and> k = n_kind n then insert a (members M V N h k) else members M V N h k)" for h k
  proof -
    have "(\<exists>j. M j = Some b \<and> (V(i \<mapsto> g)) j = Some h) \<longleftrightarrow> (\<exists>j. M j = Some b \<and> V j = Some h) \<or> b = a \<and> h = g" for b
      using assms(4) iff by (metis fun_upd_apply option.distinct(1) option.inject)
    then show ?thesis using kind_at_Some [of N, OF assms(3)] by (auto simp: set_eq_iff members_iff k)
  qed
  have new: "a \<notin> members M V N h k" for h k using assms(4) iff by (auto simp: members_def)
  have "members_ok M G (V(i \<mapsto> g)) X N'"
  proof (rule members_okI)
    show "N' 0 = None" using members_okD(1) [OF assms(1)] assms(3,7) by (auto simp: N'_def)
  next
    fix j b assume j: "M j = Some b"
    show "\<exists>n. N' b = Some n \<and> member_node_ok G ((V(i \<mapsto> g)) j) n"
    proof (cases "j = i")
      case True
      then show ?thesis using j assms(2,5) n ne by (auto simp: N'_def member_node_ok_def)
    next
      case False
      then have "b \<noteq> a" using inj j by auto
      moreover have "b \<noteq> x" by (rule member_not_group [OF assms(1) j assms(5)])
      ultimately show ?thesis using False members_okD(2) [OF assms(1) j] by (simp add: N'_def)
    qed
  next
    fix h y assume h: "G h = Some y"
    have ya: "y \<noteq> a" using member_not_group [OF assms(1,2) h] by simp
    obtain q where q: "N y = Some q" "group_node_ok M V X N h q" using members_okD(4) [OF assms(1) h] by blast
    show "\<exists>n. N' y = Some n \<and> group_node_ok M (V(i \<mapsto> g)) X N' h n"
    proof (cases "h = g")
      case True
      then have "y = x" using h assms(5) by simp
      moreover have "group_node_ok M (V(i \<mapsto> g)) X N' g (join_node a (n_kind n) m)"
        using gm assms(6) n(2) new by (cases "n_kind n") (auto simp: group_node_ok_def join_node_def memb)
      ultimately show ?thesis using True by (simp add: N'_def)
    next
      case False
      then have "y \<noteq> x" using members_okD(5) [OF assms(1) h] assms(5) by blast
      then have "N' y = Some q" using ya q(1) by (simp add: N'_def)
      moreover have "group_node_ok M (V(i \<mapsto> g)) X N' h q"
        using q(2) group_node_cong [of M "V(i \<mapsto> g)" N' h M V N X X] False by (simp add: memb)
      ultimately show ?thesis by blast
    qed
  qed (use members_okD [OF assms(1)] in blast)+
  then show ?thesis by (simp add: N'_def)
qed

section \<open>Objects come and go\<close>

lemma members_ok_new:
  assumes "members_ok M G V X N" and "M i = None" and "V i = None" and "N a = None" and "a \<noteq> 0"
    and "\<not> n_group n" and "n_kind n \<noteq> Kundefined" and "n_link n = 0"
  shows "members_ok (M(i \<mapsto> a)) G V X (N(a \<mapsto> n))"
proof -
  have fa: "M j \<noteq> Some a" for j using members_okD(2) [OF assms(1), of j a] assms(4) by auto
  have memb: "members (M(i \<mapsto> a)) V (N(a \<mapsto> n)) h k = members M V N h k" for h k
  proof -
    have e: "(\<exists>j. (M(i \<mapsto> a)) j = Some b \<and> V j = Some h) \<longleftrightarrow> (\<exists>j. M j = Some b \<and> V j = Some h)" for b
      using assms(2,3) by (metis fun_upd_apply option.distinct(1))
    have "\<not> (\<exists>j. M j = Some a \<and> V j = Some h)" using fa by blast
    with e show ?thesis by (auto simp: set_eq_iff members_iff)
  qed
  show ?thesis
  proof (rule members_okI)
    fix j b assume "(M(i \<mapsto> a)) j = Some b"
    then show "\<exists>q. (N(a \<mapsto> n)) b = Some q \<and> member_node_ok G (V j) q"
      using members_okD(2) [OF assms(1), of j b] assms(3,6-8) fa by (auto simp: member_node_ok_def split: if_splits)
  next
    fix h y assume h: "G h = Some y"
    then have "y \<noteq> a" using members_okD(4) [OF assms(1) h] assms(4) by auto
    then show "\<exists>q. (N(a \<mapsto> n)) y = Some q \<and> group_node_ok (M(i \<mapsto> a)) V X (N(a \<mapsto> n)) h q"
      using members_okD(4) [OF assms(1) h] group_node_cong [of _ _ _ h, OF memb refl] by simp
  next
    fix j j' b assume "(M(i \<mapsto> a)) j = Some b" "(M(i \<mapsto> a)) j' = Some b"
    then show "j = j'" using members_okD(3) [OF assms(1)] fa by (auto split: if_splits)
  qed (use members_okD [OF assms(1)] assms(5) in auto)
qed

text \<open>A connection that belongs to no group is removed, whatever happens to its object.\<close>

lemma members_ok_drop:
  assumes "members_ok M G V X N" and "M i = Some a" and "V i = None" and "\<And>b. b \<noteq> a \<Longrightarrow> N' b = N b"
  shows "members_ok (M(i := None)) G V X N'"
proof -
  have inj: "j = i" if "M j = Some a" for j using members_okD(3) [OF assms(1) that assms(2)] .
  have memb: "members (M(i := None)) V N' h k = members M V N h k" for h k
  proof -
    have "kind_at N' b = kind_at N b" if "M j = Some b" "j \<noteq> i" for j b
    proof -
      have "b \<noteq> a" using that inj by blast
      then show ?thesis using assms(4) by (simp add: kind_at_def)
    qed
    then have "(M(i := None)) j = Some b \<and> V j = Some h \<and> kind_at N' b = Some k \<longleftrightarrow>
        M j = Some b \<and> V j = Some h \<and> kind_at N b = Some k" for j b
      using assms(3) by (cases "j = i") auto
    then show ?thesis by (simp only: members_def)
  qed
  show ?thesis
  proof (rule members_okI)
    have "a \<noteq> 0" using members_okD(1,2) [OF assms(1)] assms(2) by fastforce
    then show "N' 0 = None" using members_okD(1) [OF assms(1)] assms(4) [of 0] by simp
  next
    fix j b assume "(M(i := None)) j = Some b"
    then have j: "M j = Some b" "j \<noteq> i" by (auto split: if_splits)
    then have "b \<noteq> a" using inj by auto
    then show "\<exists>q. N' b = Some q \<and> member_node_ok G (V j) q"
      using members_okD(2) [OF assms(1) j(1)] assms(4) by simp
  next
    fix h y assume h: "G h = Some y"
    have "y \<noteq> a" using member_not_group [OF assms(1,2) h] by simp
    then show "\<exists>q. N' y = Some q \<and> group_node_ok (M(i := None)) V X N' h q"
      using members_okD(4) [OF assms(1) h] assms(4) group_node_cong [of _ _ _ h, OF memb refl] by simp
  next
    fix j j' b assume "(M(i := None)) j = Some b" "(M(i := None)) j' = Some b"
    then show "j = j'" using members_okD(3) [OF assms(1)] by (auto split: if_splits)
  qed (use members_okD(5) [OF assms(1)] in blast)
qed

section \<open>Groups come and go\<close>

lemma members_ok_group:
  assumes "members_ok M G V X N" and "G g = None" and "g \<notin> X" and "N x = None" and "x \<noteq> 0"
    and "\<And>i. M i \<noteq> None \<Longrightarrow> V i \<noteq> Some g"
  shows "members_ok M (G(g \<mapsto> x)) V X (N(x \<mapsto> \<lparr>n_kind = Ktransmitter, n_group = True, n_up = True, n_link = 0, n_outs = []\<rparr>))"
    (is "members_ok M ?G V X ?N")
proof -
  have fx: "M j \<noteq> Some x" for j using members_okD(2) [OF assms(1), of j x] assms(4) by auto
  have fg: "G h \<noteq> Some x" for h using members_okD(4) [OF assms(1), of h x] assms(4) by auto
  have memb: "members M V ?N h k = members M V N h k" for h k
    using fx by (auto simp: members_def)
  have none: "members M V N g k = {}" for k using assms(6) by (auto simp: members_def)
  show ?thesis
  proof (rule members_okI)
    fix j b assume j: "M j = Some b"
    then have "b \<noteq> x" "V j \<noteq> Some g" using fx assms(6) by auto
    then show "\<exists>q. ?N b = Some q \<and> member_node_ok ?G (V j) q"
      using members_okD(2) [OF assms(1) j] by (auto simp: member_node_ok_def split: option.splits)
  next
    fix h y assume h: "?G h = Some y"
    show "\<exists>q. ?N y = Some q \<and> group_node_ok M V X ?N h q"
    proof (cases "h = g")
      case False
      then have "G h = Some y" "y \<noteq> x" using h fg by auto
      then show ?thesis using members_okD(4) [OF assms(1)] group_node_cong [of _ _ _ h, OF memb refl] by simp
    next
      case True
      have "group_node_ok M V X ?N g \<lparr>n_kind = Ktransmitter, n_group = True, n_up = True, n_link = 0, n_outs = []\<rparr>"
        using assms(3) none by (simp add: group_node_ok_def memb)
      then show ?thesis using True h by simp
    qed
  next
    fix h h' y assume "?G h = Some y" "?G h' = Some y"
    then show "h = h'" using members_okD(5) [OF assms(1)] fg by (auto split: if_splits)
  qed (use members_okD [OF assms(1)] assms(5) in auto)
qed

text \<open>The input of a group that is taken out of service no longer belongs to it; the others still point to it.\<close>

lemma members_ok_retire:
  assumes "members_ok M G V X N" and "G g = Some x" and "g \<notin> X" and "N x = Some n"
    and "n_link n \<noteq> 0 \<Longrightarrow> N (n_link n) = Some m"
  shows "members_ok M G (\<lambda>i. if M i = Some (n_link n) then None else V i) (insert g X)
    ((if n_link n = 0 then N else N(n_link n \<mapsto> m\<lparr>n_link := 0\<rparr>))(x \<mapsto> n\<lparr>n_up := False, n_link := 0, n_outs := []\<rparr>))"
    (is "members_ok M G ?V _ ?N")
proof -
  have gn: "group_node_ok M V X N g n" using members_okD(4) [OF assms(1,2)] assms(4) by auto
  have nz: "M i \<noteq> Some 0" for i using members_okD(1,2) [OF assms(1)] by fastforce
  have inp: "n_link n = 0 \<or> n_link n \<in> members M V N g Kreceiver"
    using gn assms(3) by (auto simp: group_node_ok_def)
  then have lx: "n_link n \<noteq> x" using member_not_group [OF assms(1) _ assms(2)] nz members_okD(1) [OF assms(1)] assms(4)
    by (auto simp: members_def)
  have x0: "x \<noteq> 0" using members_okD(1) [OF assms(1)] assms(4) by auto
  have own: "V i = Some g" if mi: "M i = Some (n_link n)" for i
  proof -
    obtain j where "M j = Some (n_link n)" "V j = Some g" using inp nz mi by (auto simp: members_iff)
    then show ?thesis using members_okD(3) [OF assms(1) mi] by blast
  qed
  have k: "kind_at ?N b = kind_at N b" for b
    using assms(4,5) by (auto simp: kind_at_Some)
  have memb: "members M ?V ?N h k = members M V N h k" if hg: "h \<noteq> g" for h k
  proof -
    have "(if M j = Some (n_link n) then None else V j) = Some h \<longleftrightarrow> V j = Some h" for j
      using own [of j] hg by auto
    then show ?thesis by (simp only: members_def k)
  qed
  show ?thesis
  proof (rule members_okI)
    show "?N 0 = None" using members_okD(1) [OF assms(1)] x0 by simp
  next
    fix j b assume j: "M j = Some b"
    then have "b \<noteq> x" using member_not_group [OF assms(1) j assms(2)] by simp
    moreover obtain q where "N b = Some q" "member_node_ok G (V j) q" using members_okD(2) [OF assms(1) j] by blast
    moreover have "b \<noteq> 0" using nz j by auto
    ultimately show "\<exists>q. ?N b = Some q \<and> member_node_ok G (?V j) q"
      using j assms(5) by (auto simp: member_node_ok_def)
  next
    fix h y assume h: "G h = Some y"
    obtain q where q: "N y = Some q" "group_node_ok M V X N h q" using members_okD(4) [OF assms(1) h] by blast
    show "\<exists>q. ?N y = Some q \<and> group_node_ok M ?V (insert g X) ?N h q"
    proof (cases "h = g")
      case True
      then show ?thesis using h assms(2) gn by (auto simp: group_node_ok_def)
    next
      case False
      then have "y \<noteq> x" using members_okD(5) [OF assms(1) h] assms(2) by blast
      moreover have "y \<noteq> n_link n"
        using inp member_not_group [OF assms(1) _ h] members_okD(1) [OF assms(1)] q(1) by (auto simp: members_def)
      ultimately have "?N y = Some q" using q(1) by simp
      moreover have "group_node_ok M ?V (insert g X) ?N h q"
        using q(2) group_node_cong [of M ?V ?N h M V N "insert g X" X] memb [OF False] False by simp
      ultimately show ?thesis by blast
    qed
  qed (use members_okD [OF assms(1)] in blast)+
qed

lemma members_ok_remove_group:
  assumes "members_ok M G V X N" and "G g = Some x" and "\<And>i. M i \<noteq> None \<Longrightarrow> V i \<noteq> Some g"
  shows "members_ok M (G(g := None)) V (X - {g}) (N(x := None))"
proof -
  have fx: "M j \<noteq> Some x" for j using member_not_group [OF assms(1) _ assms(2)] by auto
  have memb: "members M V (N(x := None)) h k = members M V N h k" for h k
    using fx by (auto simp: members_def)
  show ?thesis
  proof (rule members_okI)
    fix j b assume j: "M j = Some b"
    then have "b \<noteq> x" "V j \<noteq> Some g" using fx assms(3) by auto
    then show "\<exists>q. (N(x := None)) b = Some q \<and> member_node_ok (G(g := None)) (V j) q"
      using members_okD(2) [OF assms(1) j] by (auto simp: member_node_ok_def split: option.splits)
  next
    fix h y assume "(G(g := None)) h = Some y"
    then have h: "G h = Some y" "h \<noteq> g" by (auto split: if_splits)
    then have "y \<noteq> x" using members_okD(5) [OF assms(1) h(1)] assms(2) by blast
    then show "\<exists>q. (N(x := None)) y = Some q \<and> group_node_ok M V (X - {g}) (N(x := None)) h q"
      using members_okD(4) [OF assms(1) h(1)] h(2) group_node_cong [of _ _ _ h, OF memb, of "X - {g}" X] by simp
  next
    fix h h' y assume "(G(g := None)) h = Some y" "(G(g := None)) h' = Some y"
    then show "h = h'" using members_okD(5) [OF assms(1)] by (auto split: if_splits)
  qed (use members_okD [OF assms(1)] in auto)
qed

text \<open>A change that does not touch links.\<close>

lemma members_ok_empty: "members_ok Map.empty Map.empty V X N \<longleftrightarrow> N 0 = None"
  by (simp add: members_ok_def)

text \<open>An object that is no member and no group disappears.\<close>

lemma members_ok_forget:
  assumes "members_ok M G V X N" and "\<And>i. M i \<noteq> Some a" and "\<And>g. G g \<noteq> Some a"
  shows "members_ok M G V X (N(a := None))"
proof -
  have ne: "b \<noteq> a" if "M i = Some b" for i b using assms(2) that by blast
  have memb: "members M V (N(a := None)) h k = members M V N h k" for h k
    using ne by (auto simp: members_def kind_at_def)
  show ?thesis
  proof (rule members_okI)
    fix i b assume i: "M i = Some b"
    show "\<exists>n. (N(a := None)) b = Some n \<and> member_node_ok G (V i) n"
      using members_okD(2) [OF assms(1) i] ne [OF i] by simp
  next
    fix g x assume g: "G g = Some x"
    then have "x \<noteq> a" using assms(3) by blast
    moreover have "group_node_ok M V X (N(a := None)) g n = group_node_ok M V X N g n" for n
      by (simp add: group_node_ok_def memb)
    ultimately show "\<exists>n. (N(a := None)) x = Some n \<and> group_node_ok M V X (N(a := None)) g n"
      using members_okD(4) [OF assms(1) g] by simp
  qed (use members_okD [OF assms(1)] in auto)
qed

end
