(* ===== verification/Conn_Local.thy ===== *)
theory Conn_Local
  imports Memif_Impl Connection Memory
begin

text \<open>
  The media proxy's connections to local applications over shared memory: the class \<open>Local\<close>
  (media-proxy/src/mesh/conn_local.cc) with its callbacks, \<open>LocalRx\<close> (conn_local_rx.cc), which hands
  what an application sent to its link, and \<open>LocalTx\<close> (conn_local_tx.cc), which copies what it gets
  into a buffer shared with an application. libmemif and the thread that polls it are calls of the
  environment. The theorems are about the handles an attempt to establish leaves behind and about
  the bytes \<open>LocalTx\<close> writes.
\<close>

section \<open>State\<close>

record memif_ops =
  mo_app_name :: string
  mo_interface_name :: string
  mo_interface_id :: u32
  mo_socket_path :: string

text \<open>\<open>lc_thread\<close> says whether the thread can be joined; \<open>lc_no_link_reported\<close> is a field of \<open>LocalRx\<close>.
  \<open>lc_mem\<close> are the bytes of shared memory.\<close>

record local =
  lc_conn :: conn_obj
  lc_memif_socket :: nat
  lc_memif_conn :: nat
  lc_frame_size :: u64
  lc_socket_args :: memif_socket_args
  lc_conn_args :: memif_conn_args
  lc_thread :: bool
  lc_ready :: bool
  lc_no_link_reported :: bool
  lc_mem :: "nat \<Rightarrow> u8"

definition blank_socket_args :: memif_socket_args where
  "blank_socket_args = \<lparr>sa_path = [], sa_app_name = []\<rparr>"

definition blank_conn_args :: memif_conn_args where
  "blank_conn_args = \<lparr>ca_socket = 0, ca_buffer_size = 0, ca_log2_ring_size = 0, ca_is_master = False,
     ca_interface_id = 0, ca_interface_name = []\<rparr>"

definition new_local :: "kind \<Rightarrow> local" where
  "new_local k = \<lparr>lc_conn = new_connection (COther 2) k, lc_memif_socket = 0, lc_memif_conn = 0,
     lc_frame_size = 0, lc_socket_args = blank_socket_args, lc_conn_args = blank_conn_args,
     lc_thread = False, lc_ready = False, lc_no_link_reported = False, lc_mem = (\<lambda>_. 0)\<rparr>"

definition new_local_rx :: local where "new_local_rx = new_local Kreceiver"
definition new_local_tx :: local where "new_local_tx = new_local Ktransmitter"

definition lc_set_state :: "state \<Rightarrow> local \<Rightarrow> local" where
  "lc_set_state s L = L\<lparr>lc_conn := set_state s (lc_conn L)\<rparr>"

definition lc_result :: "result \<Rightarrow> local \<Rightarrow> result \<times> local" where
  "lc_result r L = (r, L\<lparr>lc_conn := snd (set_result r (lc_conn L))\<rparr>)"

definition lc_error :: "local \<Rightarrow> local" where
  "lc_error L = L\<lparr>lc_conn := (lc_conn L)\<lparr>o_metrics := (o_metrics (lc_conn L))
     \<lparr>errors := errors (o_metrics (lc_conn L)) + 1\<rparr>\<rparr>\<rparr>"

section \<open>Configuration\<close>

definition default_memif_ops :: "kind \<Rightarrow> memif_ops \<Rightarrow> memif_ops" where
  "default_memif_ops k ops = (let n = (if k = Kreceiver then ''mcm_tx'' else ''mcm_rx'') in
     ops\<lparr>mo_app_name := n, mo_interface_name := n, mo_socket_path := ''/run/mcm/'' @ n @ ''_memif.sock''\<rparr>)"

text \<open>\<open>own_ops\<close> is the member \<open>ops\<close>, used if the caller gives none.\<close>

definition configure_memif :: "memif_ops \<Rightarrow> memif_ops option \<Rightarrow> u64 \<Rightarrow> u8 \<Rightarrow> local \<Rightarrow> result \<times> local" where
  "configure_memif own_ops ops frame_size log2_ring_size L =
     (let ops = (case ops of None \<Rightarrow> default_memif_ops (o_kind (lc_conn L)) own_ops | Some x \<Rightarrow> x);
          L = L\<lparr>lc_frame_size := frame_size,
            lc_socket_args := \<lparr>sa_path = strlcpy (mo_socket_path ops) 108, sa_app_name = strlcpy (mo_app_name ops) 32\<rparr>,
            lc_ready := False,
            lc_conn_args := (lc_conn_args L)\<lparr>ca_interface_id := mo_interface_id ops,
              ca_buffer_size := ucast frame_size,
              ca_log2_ring_size := (if log2_ring_size \<noteq> 0 then log2_ring_size else 4),
              ca_interface_name := strlcpy (mo_interface_name ops) 32, ca_is_master := True\<rparr>\<rparr>
      in (success, lc_set_state configured L))"

definition get_params :: "local \<Rightarrow> memif_conn_param" where
  "get_params L = \<lparr>socket_args = lc_socket_args L, conn_args = lc_conn_args L\<rparr>"

section \<open>Establishing and shutting down\<close>

definition abstract_path :: "local \<Rightarrow> bool" where
  "abstract_path L \<longleftrightarrow> take 1 (sa_path (lc_socket_args L)) = ''@''"

definition local_on_establish :: "sdk_env \<Rightarrow> local \<Rightarrow> sdk_trace \<Rightarrow> result \<times> local \<times> sdk_trace" where
  "local_on_establish env L tr =
     (let (m, tr) = (if abstract_path L then (None, tr)
                     else (let (r, tr) = ext_call env (Mkdir ''/run/mcm'') tr in (Some r, tr)))
      in if (case m of None \<Rightarrow> False | Some r \<Rightarrow> s_ret r \<noteq> 0 \<and> s_errno r \<noteq> EEXIST)
         then (error_general_failure, L, tr) else
      let tr = (if abstract_path L then tr else snd (ext_call env (Unlink (sa_path (lc_socket_args L))) tr));
          (s, tr) = ext_call env (MemifCreateSocket (lc_socket_args L)) tr
      in if s_ret s \<noteq> MEMIF_ERR_SUCCESS
         then (let (r, L) = lc_result error_general_failure L in (r, L, tr)) else
      let L = L\<lparr>lc_memif_socket := s_out s, lc_conn_args := (lc_conn_args L)\<lparr>ca_socket := s_out s\<rparr>\<rparr>;
          (c, tr) = ext_call env (MemifCreateLocal (lc_conn_args L)) tr
      in if s_ret c \<noteq> MEMIF_ERR_SUCCESS
         then (let (r, L) = lc_result error_general_failure L in (r, L, tr)) else
      let L = L\<lparr>lc_memif_conn := s_out c\<rparr>;
          (t, tr) = ext_call env StartPollThread tr
      in if s_ret t \<noteq> 0
         then (let (r, L) = lc_result error_out_of_memory L in (r, L, tr))
         else (success, lc_set_state suspended (L\<lparr>lc_thread := True\<rparr>), tr))"

text \<open>Joining a thread that was never started ends the process: \<open>None\<close>.\<close>

definition local_on_shutdown :: "sdk_env \<Rightarrow> local \<Rightarrow> sdk_trace \<Rightarrow> (result \<times> local \<times> sdk_trace) option" where
  "local_on_shutdown env L tr =
     (let (p, tr) = ext_call env (MemifCancelPoll (lc_memif_socket L)) tr;
          L = (if s_ret p \<noteq> MEMIF_ERR_SUCCESS then lc_error L else L)
      in if \<not> lc_thread L then None else
      let (_, tr) = ext_call env JoinPollThread tr;
          (_, tr) = ext_call env (MemifDelete (lc_memif_conn L)) tr;
          (_, tr) = ext_call env (MemifDeleteSocket (lc_memif_socket L)) tr;
          tr = (if abstract_path L then tr else snd (ext_call env (Unlink (sa_path (lc_socket_args L))) tr))
      in Some (success,
           lc_set_state closed_st (L\<lparr>lc_thread := False, lc_memif_conn := 0, lc_memif_socket := 0\<rparr>), tr))"

section \<open>Callbacks\<close>

definition callback_on_connect :: "sdk_env \<Rightarrow> local option \<Rightarrow> sdk_trace \<Rightarrow> int \<times> local option \<times> sdk_trace" where
  "callback_on_connect env this tr = (case this of
      None \<Rightarrow> (MEMIF_ERR_INVAL_ARG, None, tr)
    | Some L \<Rightarrow>
       (let (r, tr) = ext_call env (MemifRefillQueue (lc_memif_conn L) 0 (-1) 0) tr in
        if s_ret r \<noteq> MEMIF_ERR_SUCCESS then (s_ret r, Some (lc_error L), tr)
        else (MEMIF_ERR_SUCCESS, Some (L\<lparr>lc_ready := True\<rparr>), tr)))"

definition callback_on_disconnect :: "sdk_env \<Rightarrow> local option \<Rightarrow> sdk_trace \<Rightarrow> int \<times> local option \<times> sdk_trace" where
  "callback_on_disconnect env this tr = (case this of
      None \<Rightarrow> (MEMIF_ERR_INVAL_ARG, None, tr)
    | Some L \<Rightarrow>
        if \<not> lc_ready L then (MEMIF_ERR_SUCCESS, Some L, tr) else
       (let L = L\<lparr>lc_ready := False\<rparr>;
            (r, tr) = ext_call env (MemifCancelPoll (lc_memif_socket L)) tr
        in (MEMIF_ERR_SUCCESS, Some (if s_ret r \<noteq> MEMIF_ERR_SUCCESS then lc_error L else L), tr)))"

text \<open>\<open>on_memif_receive\<close> of the two classes. \<open>has_link\<close> is the test \<open>link()\<close>.\<close>

definition local_rx_on_memif_receive ::
  "'w transmit_fn \<Rightarrow> bool \<Rightarrow> nat \<Rightarrow> u32 \<Rightarrow> local \<Rightarrow> 'w \<Rightarrow> (int \<times> local \<times> 'w) option" where
  "local_rx_on_memif_receive transm has_link ptr sz L w =
     (let L = (if \<not> has_link \<and> \<not> lc_no_link_reported L then L\<lparr>lc_no_link_reported := True\<rparr> else L)
      in case transm ptr sz w of
           None \<Rightarrow> None
         | Some (r, w) \<Rightarrow> Some (if r = error_no_link_assigned \<or> r = success then 0 else -1, L, w))"

definition on_memif_receive ::
  "'w transmit_fn \<Rightarrow> bool \<Rightarrow> nat \<Rightarrow> u32 \<Rightarrow> local \<Rightarrow> 'w \<Rightarrow> (int \<times> local \<times> 'w) option" where
  "on_memif_receive transm has_link ptr sz L w =
     (if o_kind (lc_conn L) = Kreceiver then local_rx_on_memif_receive transm has_link ptr sz L w
      else Some (0, L, w))"

definition callback_on_interrupt ::
  "sdk_env \<Rightarrow> 'w transmit_fn \<Rightarrow> bool \<Rightarrow> u16 \<Rightarrow> local option \<Rightarrow> 'w \<Rightarrow> sdk_trace \<Rightarrow>
   (int \<times> local option \<times> 'w \<times> sdk_trace) option" where
  "callback_on_interrupt env transm has_link qid this w tr = (case this of
      None \<Rightarrow> Some (MEMIF_ERR_INVAL_ARG, None, w, tr)
    | Some L \<Rightarrow>
        if \<not> lc_ready L then Some (-1, Some L, w, tr) else
        let (r, tr) = ext_call env (MemifRxBurst (lc_memif_conn L) qid 1) tr in
        if s_ret r \<noteq> MEMIF_ERR_SUCCESS \<and> s_ret r \<noteq> MEMIF_ERR_NOBUF
        then Some (s_ret r, Some (lc_error L), w, tr) else
        case (case s_bufs r of
                [] \<Rightarrow> Some (L, w)
              | b # _ \<Rightarrow> if mb_data b \<noteq> 0 \<and> mb_len b \<noteq> 0
                        then map_option snd (on_memif_receive transm has_link (mb_data b) (mb_len b) L w)
                        else Some (L, w)) of
          None \<Rightarrow> None
        | Some (L, w) \<Rightarrow>
            let (f, tr) = ext_call env (MemifRefillQueue (lc_memif_conn L) qid (s_num r) 0) tr
            in Some (0, Some (if s_ret f \<noteq> MEMIF_ERR_SUCCESS then lc_error L else L), w, tr))"

section \<open>Sending to the application\<close>

text \<open>\<open>LocalTx::on_receive\<close>; \<open>data\<close> are the \<open>sz\<close> bytes at \<open>ptr\<close>. The output \<open>sent\<close> starts as 0.\<close>

definition local_tx_on_receive ::
  "sdk_env \<Rightarrow> u8 list \<Rightarrow> local \<Rightarrow> sdk_trace \<Rightarrow> result \<times> u32 \<times> local \<times> sdk_trace" where
  "local_tx_on_receive env data L tr =
     (let ((err, bufs, num), tr) =
            memif_buffer_alloc_timeout env (lc_memif_conn L) 0 1 (ucast (lc_frame_size L)) 10 tr
      in if err \<noteq> MEMIF_ERR_SUCCESS \<or> bufs = [] \<or> mb_data (hd bufs) = 0
         then (let (r, L) = lc_result error_general_failure L in (r, 0, L, tr)) else
      let b = hd bufs;
          L = L\<lparr>lc_mem := mem_write (mb_data b) data (lc_mem L)\<rparr>;
          (t, tr) = ext_call env (MemifTxBurst (lc_memif_conn L) 0 b) tr
      in (success, of_nat (length data), if s_ret t \<noteq> MEMIF_ERR_SUCCESS then lc_error L else L, tr))"

section \<open>A local connection is a connection\<close>

definition local_establish_op :: "sdk_env \<Rightarrow> local \<Rightarrow> sdk_trace \<Rightarrow> conn_op" where
  "local_establish_op env L tr c =
     (let (r, L, _) = local_on_establish env (L\<lparr>lc_conn := c\<rparr>) tr in (r, lc_conn L))"

definition local_shutdown_op :: "sdk_env \<Rightarrow> local \<Rightarrow> sdk_trace \<Rightarrow> conn_op" where
  "local_shutdown_op env L tr c =
     (case local_on_shutdown env (L\<lparr>lc_conn := c, lc_thread := True\<rparr>) tr of
        None \<Rightarrow> (error_general_failure, c) | Some (r, L, _) \<Rightarrow> (r, lc_conn L))"

lemma lc_result_simps [simp]:
  "fst (lc_result r L) = r" "o_state (lc_conn (snd (lc_result r L))) = o_state (lc_conn L)"
  "o_kind (lc_conn (snd (lc_result r L))) = o_kind (lc_conn L)"
  by (simp_all add: lc_result_def)

lemma lc_state_simps [simp]:
  "o_state (lc_conn (lc_set_state s L)) = s" "o_kind (lc_conn (lc_set_state s L)) = o_kind (lc_conn L)"
  "o_state (lc_conn (lc_error L)) = o_state (lc_conn L)" "o_kind (lc_conn (lc_error L)) = o_kind (lc_conn L)"
  by (simp_all add: lc_set_state_def lc_error_def)

lemma local_on_establish_state:
  assumes "local_on_establish env L tr = (r, L', tr')"
  shows "o_state (lc_conn L') = (if r = success then suspended else o_state (lc_conn L)) \<and>
    o_kind (lc_conn L') = o_kind (lc_conn L) \<and> (r = success \<longrightarrow> lc_thread L')"
  using assms
  by (auto simp: local_on_establish_def Let_def split_def lc_result_def lc_set_state_def split: if_splits)

interpretation local_be: conn_backend "local_establish_op env L tr" "local_shutdown_op env L tr" for env L tr
proof
  fix c r c'
  assume "o_state c = establishing" "local_establish_op env L tr c = (r, c')"
  then show "(if r = success then o_state c' \<in> {active, suspended} else o_state c' \<in> {establishing, closed_st}) \<and>
      o_kind c' = o_kind c"
    using local_on_establish_state [of env "L\<lparr>lc_conn := c\<rparr>" tr]
    by (auto simp: local_establish_op_def split: prod.splits)
next
  fix c r c'
  assume "o_state c = closing" "local_shutdown_op env L tr c = (r, c')"
  then show "(if r = success then o_state c' = closed_st else o_state c' \<in> {closing, closed_st}) \<and> o_kind c' = o_kind c"
    by (auto simp: local_shutdown_op_def local_on_shutdown_def Let_def split_def lc_set_state_def split: if_splits)
qed

section \<open>Handles\<close>

text \<open>The socket and the interface a connection holds, and those a trace opened and closed.\<close>

definition lc_owned :: "local \<Rightarrow> (bool \<times> nat) multiset" where
  "lc_owned L = image_mset (Pair True) (handle (lc_memif_socket L)) + image_mset (Pair False) (handle (lc_memif_conn L))"

fun memif_opened :: "sdk_call \<times> sdk_res \<Rightarrow> (bool \<times> nat) multiset" where
  "memif_opened (MemifCreateSocket a, r) = (if s_ret r = 0 then image_mset (Pair True) (handle (s_out r)) else {#})"
| "memif_opened (MemifCreateLocal a, r) = (if s_ret r = 0 then image_mset (Pair False) (handle (s_out r)) else {#})"
| "memif_opened _ = {#}"

fun memif_closed :: "sdk_call \<times> sdk_res \<Rightarrow> (bool \<times> nat) multiset" where
  "memif_closed (MemifDeleteSocket h, r) = image_mset (Pair True) (handle h)"
| "memif_closed (MemifDelete h, r) = image_mset (Pair False) (handle h)"
| "memif_closed _ = {#}"

lemma local_on_establish_handles:
  assumes "local_on_establish env L tr = (r, L', tr')" and "lc_memif_socket L = 0" and "lc_memif_conn L = 0"
  shows "ledger memif_opened tr' = ledger memif_opened tr + lc_owned L'" and
    "ledger memif_closed tr' = ledger memif_closed tr"
  using assms
  by (auto simp: local_on_establish_def Let_def split_def lc_result_def lc_set_state_def lc_owned_def
      MEMIF_ERR_SUCCESS_def split: if_splits)

lemma local_on_shutdown_handles:
  assumes "lc_thread L"
  shows "\<exists>L' tr'. local_on_shutdown env L tr = Some (success, L', tr') \<and> lc_owned L' = {#} \<and>
    ledger memif_opened tr' = ledger memif_opened tr \<and>
    ledger memif_closed tr' = ledger memif_closed tr + lc_owned L"
  using assms
  by (auto simp: local_on_shutdown_def Let_def split_def lc_set_state_def lc_owned_def lc_error_def)

text \<open>
  Handles of a local connection. Whatever an attempt to establish opened is what the object holds
  afterwards, and nothing has been closed. If the attempt succeeded, shutting down closes exactly
  these handles. If it failed the connection is not shut down by its manager, so that the socket,
  or the socket and the interface, stay open.
\<close>

theorem local_establish_handles:
  assumes "local_on_establish env L tr = (r, L', tr')" and "lc_memif_socket L = 0" and "lc_memif_conn L = 0"
  shows "ledger memif_opened tr' = ledger memif_opened tr + lc_owned L' \<and>
    ledger memif_closed tr' = ledger memif_closed tr \<and>
    (r = success \<longrightarrow> (\<exists>L'' tr''. local_on_shutdown env L' tr' = Some (success, L'', tr'') \<and> lc_owned L'' = {#} \<and>
       ledger memif_opened tr'' = ledger memif_opened tr' \<and>
       ledger memif_closed tr'' = ledger memif_closed tr + lc_owned L'))"
  using local_on_establish_handles [OF assms] local_on_establish_state [OF assms(1)]
    local_on_shutdown_handles [of L' env tr'] by auto

definition ok_memif :: sdk_res where
  "ok_memif = \<lparr>s_ret = 0, s_out = 7, s_errno = 0, s_str = None, s_sid = 0,
     s_param = \<lparr>socket_args = blank_socket_args, conn_args = blank_conn_args\<rparr>, s_bufs = [], s_num = 0,
     s_event = EvNone, s_sec = 0, s_nsec = 0\<rparr>"

text \<open>An environment in which only the interface cannot be created.\<close>

definition no_interface :: sdk_env where
  "no_interface tr c = (case c of MemifCreateLocal _ \<Rightarrow> ok_memif\<lparr>s_ret := 1\<rparr> | _ \<Rightarrow> ok_memif)"

theorem local_establish_handles_witness:
  "\<exists>L' tr'. local_on_establish no_interface new_local_tx [] = (error_general_failure, L', tr') \<and>
     lc_owned L' = {#(True, 7)#} \<and> ledger memif_opened tr' = {#(True, 7)#} \<and> ledger memif_closed tr' = {#}"
proof -
  obtain L' tr' where e: "local_on_establish no_interface new_local_tx [] = (error_general_failure, L', tr')"
    and o: "lc_owned L' = {#(True, 7)#}"
    by (simp add: local_on_establish_def no_interface_def new_local_tx_def new_local_def abstract_path_def
        blank_socket_args_def ext_call_def Let_def ok_memif_def MEMIF_ERR_SUCCESS_def lc_result_def lc_owned_def)
  from local_establish_handles [OF e] o e show ?thesis
    by (auto simp: new_local_tx_def new_local_def)
qed

section \<open>The bytes shared with the application\<close>

text \<open>
  C21. \<open>LocalTx::on_receive\<close> copies all bytes it gets into the buffer libmemif gave it. The buffer has
  the frame size of the connection: if the data fit, nothing outside the buffer changes and the
  application finds the data at its start; if they do not, the bytes after the buffer are
  overwritten, because the size is not compared with the frame size.
\<close>

theorem local_tx_copies:
  assumes "memif_buffer_alloc_timeout env (lc_memif_conn L) 0 1 (ucast (lc_frame_size L)) 10 tr = ((0, [b], k), tr1)"
    and "mb_data b \<noteq> 0" and "n = unat (ucast (lc_frame_size L) :: u32)"
  shows "\<exists>L' tr'. local_tx_on_receive env data L tr = (success, of_nat (length data), L', tr') \<and>
    mem_read (lc_mem L') (mb_data b) (length data) = data \<and>
    (if length data \<le> n
     then \<forall>x. x < mb_data b \<or> mb_data b + n \<le> x \<longrightarrow> lc_mem L' x = lc_mem L x
     else lc_mem L' (mb_data b + n) = data ! n)"
proof -
  obtain L' tr' where e: "local_tx_on_receive env data L tr = (success, of_nat (length data), L', tr')"
    "lc_mem L' = mem_write (mb_data b) data (lc_mem L)"
    using assms(1,2) by (auto simp: local_tx_on_receive_def Let_def split_def MEMIF_ERR_SUCCESS_def lc_error_def)
  have r: "mem_read (lc_mem L') (mb_data b) (length data) = data" by (simp add: e(2))
  have f: "if length data \<le> n then \<forall>x. x < mb_data b \<or> mb_data b + n \<le> x \<longrightarrow> lc_mem L' x = lc_mem L x
     else lc_mem L' (mb_data b + n) = data ! n"
    by (auto simp: e(2) mem_write_def)
  from e(1) r f show ?thesis by blast
qed

definition one_slot :: sdk_env where
  "one_slot tr c = ok_memif\<lparr>s_bufs := [\<lparr>mb_desc_index = 0, mb_len = 4, mb_data = 100\<rparr>], s_num := 1\<rparr>"

theorem local_tx_copies_witness:
  "\<exists>L' tr'. local_tx_on_receive one_slot [1, 2, 3, 4, 5, 6] (new_local_tx\<lparr>lc_frame_size := 4\<rparr>) [] =
      (success, 6, L', tr') \<and> lc_mem L' 104 = 5"
proof -
  have a: "memif_buffer_alloc_timeout one_slot 0 0 1 4 10 [] =
      ((0, [\<lparr>mb_desc_index = 0, mb_len = 4, mb_data = 100\<rparr>], 1),
       [(MemifBufferAlloc 0 0 1 4, one_slot [] (MemifBufferAlloc 0 0 1 4))])"
    unfolding memif_buffer_alloc_timeout_def
    by (subst alloc_timeout_loop.simps) (simp add: one_slot_def ok_memif_def ext_call_def MEMIF_ERR_NOBUF_RING_def)
  let ?L = "new_local_tx\<lparr>lc_frame_size := 4\<rparr>"
  have f: "lc_memif_conn ?L = 0" "ucast (lc_frame_size ?L) = (4 :: u32)" by (simp_all add: new_local_tx_def new_local_def)
  have c: "\<exists>L' tr'. local_tx_on_receive one_slot [1, 2, 3, 4, 5, 6] ?L [] = (success, of_nat (length [1, 2, 3, 4, 5, 6 :: u8]), L', tr') \<and>
      mem_read (lc_mem L') 100 (length [1, 2, 3, 4, 5, 6 :: u8]) = [1, 2, 3, 4, 5, 6] \<and>
      (if length [1, 2, 3, 4, 5, 6 :: u8] \<le> 4 then \<forall>x. x < 100 \<or> 100 + 4 \<le> x \<longrightarrow> lc_mem L' x = lc_mem ?L x
       else lc_mem L' (100 + 4) = [1, 2, 3, 4, 5, 6] ! 4)"
    using local_tx_copies [where L = ?L and n = 4 and data = "[1, 2, 3, 4, 5, 6]", unfolded f, OF a] by simp
  from c obtain L' tr' where "local_tx_on_receive one_slot [1, 2, 3, 4, 5, 6] ?L [] = (success, 6, L', tr')"
    "lc_mem L' 104 = 5" by auto
  then show ?thesis by blast
qed

section \<open>Received buffers\<close>

text \<open>An interrupt with one buffer hands the buffer to \<open>transmit\<close> once and then gives it back to the
  queue, whatever \<open>transmit\<close> answers.\<close>

lemma interrupt_delivers:
  assumes "lc_ready L" and "o_kind (lc_conn L) = Kreceiver"
    and "env tr (MemifRxBurst (lc_memif_conn L) qid 1) = r" and "s_ret r = MEMIF_ERR_SUCCESS" and "s_bufs r = [b]"
    and "mb_data b \<noteq> 0" and "mb_len b \<noteq> 0" and "transm (mb_data b) (mb_len b) w = Some (x, w')"
  shows "\<exists>L' res. callback_on_interrupt env transm l qid (Some L) w tr = Some (0, Some L', w',
    tr @ [(MemifRxBurst (lc_memif_conn L) qid 1, r), (MemifRefillQueue (lc_memif_conn L) qid (s_num r) 0, res)])"
  using assms
  by (simp add: callback_on_interrupt_def ext_call_def on_memif_receive_def local_rx_on_memif_receive_def Let_def)

end
