(* ===== verification/St2110.thy ===== *)
theory St2110
  imports Sdk_Base Proxy_Config Memory
begin

text \<open>
  SMPTE ST 2110 bridges of the media proxy: media-proxy/src/mesh/st2110.cc, the class templates of
  st2110.h, st2110rx.h and st2110tx.h, and the six classes st2110_{20,22,30}{rx,tx}.cc. The Media
  Transport Library (MTL) is not part of the repository: its enumerations are datatypes with its
  names, its functions on numbers are the argument \<open>M\<close>, and its calls that create sessions and
  exchange frames are calls of the environment. The theorems are about the device handle that all
  bridges share, and about the bytes on the way from a received frame to a sent one.
\<close>

section \<open>Formats\<close>

datatype st_frame_fmt = ST_FRAME_FMT_YUV422PLANAR10LE | ST_FRAME_FMT_V210 | ST_FRAME_FMT_YUV422RFC4175PG2BE10

datatype st20_fmt = ST20_FMT_YUV_422_10BIT

datatype st30_fmt = ST30_FMT_PCM8 | ST30_FMT_PCM16 | ST30_FMT_PCM24

datatype st30_sampling = ST30_SAMPLING_48K | ST30_SAMPLING_96K | ST31_SAMPLING_44K

datatype st30_ptime = ST30_PTIME_1MS | ST30_PTIME_125US | ST30_PTIME_250US | ST30_PTIME_333US
  | ST30_PTIME_4MS | ST31_PTIME_80US | ST31_PTIME_1_09MS | ST31_PTIME_0_14MS | ST31_PTIME_0_09MS

text \<open>\<open>None\<close> is the return value -1.\<close>

definition mesh_video_format_to_st_format :: "int \<Rightarrow> st_frame_fmt option" where
  "mesh_video_format_to_st_format f =
     (if f = MESH_VIDEO_PIXEL_FORMAT_YUV422PLANAR10LE then Some ST_FRAME_FMT_YUV422PLANAR10LE
      else if f = MESH_VIDEO_PIXEL_FORMAT_V210 then Some ST_FRAME_FMT_V210
      else if f = MESH_VIDEO_PIXEL_FORMAT_YUV422RFC4175BE10 then Some ST_FRAME_FMT_YUV422RFC4175PG2BE10
      else None)"

definition mesh_transport_video_format_to_st20_fmt :: "int \<Rightarrow> st20_fmt option" where
  "mesh_transport_video_format_to_st20_fmt f = (if f = 0 then Some ST20_FMT_YUV_422_10BIT else None)"

definition mesh_audio_format_to_st_format :: "int \<Rightarrow> st30_fmt option" where
  "mesh_audio_format_to_st_format f =
     (if f = MESH_AUDIO_FORMAT_PCM_S8 then Some ST30_FMT_PCM8
      else if f = MESH_AUDIO_FORMAT_PCM_S16BE then Some ST30_FMT_PCM16
      else if f = MESH_AUDIO_FORMAT_PCM_S24BE then Some ST30_FMT_PCM24 else None)"

definition mesh_audio_sampling_to_st_sampling :: "int \<Rightarrow> st30_sampling option" where
  "mesh_audio_sampling_to_st_sampling s =
     (if s = MESH_AUDIO_SAMPLE_RATE_48000 then Some ST30_SAMPLING_48K
      else if s = MESH_AUDIO_SAMPLE_RATE_96000 then Some ST30_SAMPLING_96K
      else if s = MESH_AUDIO_SAMPLE_RATE_44100 then Some ST31_SAMPLING_44K else None)"

definition mesh_audio_ptime_to_st_ptime :: "int \<Rightarrow> st30_ptime option" where
  "mesh_audio_ptime_to_st_ptime p =
     (if p = MESH_AUDIO_PACKET_TIME_1MS then Some ST30_PTIME_1MS
      else if p = MESH_AUDIO_PACKET_TIME_125US then Some ST30_PTIME_125US
      else if p = MESH_AUDIO_PACKET_TIME_250US then Some ST30_PTIME_250US
      else if p = MESH_AUDIO_PACKET_TIME_333US then Some ST30_PTIME_333US
      else if p = MESH_AUDIO_PACKET_TIME_4MS then Some ST30_PTIME_4MS
      else if p = MESH_AUDIO_PACKET_TIME_80US then Some ST31_PTIME_80US
      else if p = MESH_AUDIO_PACKET_TIME_1_09MS then Some ST31_PTIME_1_09MS
      else if p = MESH_AUDIO_PACKET_TIME_0_14MS then Some ST31_PTIME_0_14MS
      else if p = MESH_AUDIO_PACKET_TIME_0_09MS then Some ST31_PTIME_0_09MS else None)"

section \<open>The device\<close>

record mtl_init_params =
  mp_main_lcore :: u32
  mp_port :: string
  mp_sip_addr :: "u8 list"
  mp_pmd :: int
  mp_num_ports :: nat
  mp_rx_queues_cnt :: nat
  mp_tx_queues_cnt :: nat
  mp_lcores :: "string option"
  mp_memzone_max :: nat

text \<open>\<open>std::stoul\<close>: digits after blanks and a sign; \<open>None\<close> where it throws.\<close>

definition stoul :: "string \<Rightarrow> nat option" where
  "stoul s = (let t = dropWhile is_space s;
       neg = (take 1 t = ''-'');
       u = (if neg \<or> take 1 t = ''+'' then drop 1 t else t);
       v = nat (digits_val u)
     in if takeWhile is_digit u = [] \<or> v \<ge> 2 ^ 64 then None
        else Some (if neg \<and> v \<noteq> 0 then 2 ^ 64 - v else v))"

record mtl_fns =
  mf_frame_size :: "st_frame_fmt \<Rightarrow> u32 \<Rightarrow> u32 \<Rightarrow> u64"
  mf_packet_size :: "st30_fmt \<Rightarrow> st30_ptime \<Rightarrow> st30_sampling \<Rightarrow> u16 \<Rightarrow> u64"
  mf_fps :: "rat \<Rightarrow> int"
  mf_pton :: "string \<Rightarrow> u8 list option"
  mf_pmd :: "string \<Rightarrow> int"
  mf_getenv :: "string \<Rightarrow> string option"
  mf_port_max_len :: nat

text \<open>An address that \<open>inet_pton\<close> rejects leaves the field as it was.\<close>

definition pton :: "mtl_fns \<Rightarrow> string \<Rightarrow> u8 list \<Rightarrow> u8 list" where
  "pton M a old = (case mf_pton M a of None \<Rightarrow> old | Some b \<Rightarrow> b)"

definition get_mtl_dev_params :: "mtl_fns \<Rightarrow> string \<Rightarrow> string \<Rightarrow> mtl_init_params" where
  "get_mtl_dev_params M dev_port ip =
     (let port = strlcpy dev_port (mf_port_max_len M) in
      \<lparr>mp_main_lcore = (case mf_getenv M ''MEDIA_PROXY_MAIN_LCORE'' of
          None \<Rightarrow> 0 | Some s \<Rightarrow> (case stoul s of None \<Rightarrow> 0 | Some n \<Rightarrow> of_nat n)),
       mp_port = port, mp_sip_addr = pton M ip [0, 0, 0, 0], mp_pmd = mf_pmd M port, mp_num_ports = 1,
       mp_rx_queues_cnt = 16, mp_tx_queues_cnt = 16, mp_lcores = mf_getenv M ''MEDIA_PROXY_LCORES'',
       mp_memzone_max = 9000\<rparr>)"

text \<open>The classes, and the parameters of a session: the fields of the six \<open>ops\<close> structs that the
  code sets. \<open>op_ip\<close> is \<open>ip_addr\<close> of a receiver and \<open>dip_addr\<close> of a transmitter.\<close>

datatype st_standard = ST20 | ST22 | ST30

record st_ops =
  op_port :: string
  op_num_port :: nat
  op_name :: "string option"
  op_framebuff_cnt :: nat
  op_ip :: "u8 list"
  op_mcast :: "u8 list"
  op_udp_port :: u16
  op_udp_src_port :: u16
  op_payload_type :: u8
  op_width :: u32
  op_height :: u32
  op_fps :: int
  op_transport_fmt :: "st20_fmt option"
  op_fmt :: "st_frame_fmt option"
  op_codestream_size :: u32
  op_audio_fmt :: "st30_fmt option"
  op_channel :: u16
  op_sampling :: "st30_sampling option"
  op_ptime :: "st30_ptime option"
  op_framebuff_size :: u64

record st2110 =
  st_conn :: conn_obj
  st_std :: st_standard
  st_config :: Config
  st_mtl_device :: nat
  st_mtl_session :: nat
  st_ops :: st_ops
  st_ip_addr :: string
  st_transfer_size :: u64
  st_frame_available :: bool
  st_cancelled :: bool
  st_thread :: bool

definition blank_ops :: st_ops where
  "blank_ops = \<lparr>op_port = [], op_num_port = 0, op_name = None, op_framebuff_cnt = 0,
     op_ip = [0, 0, 0, 0], op_mcast = [0, 0, 0, 0], op_udp_port = 0, op_udp_src_port = 0,
     op_payload_type = 0, op_width = 0, op_height = 0, op_fps = 0, op_transport_fmt = None, op_fmt = None,
     op_codestream_size = 0, op_audio_fmt = None, op_channel = 0, op_sampling = None, op_ptime = None,
     op_framebuff_size = 0\<rparr>"

definition new_st2110 :: "st_standard \<Rightarrow> kind \<Rightarrow> Config \<Rightarrow> st2110" where
  "new_st2110 std k cfg = \<lparr>st_conn = new_connection (COther 3) k, st_std = std, st_config = cfg,
     st_mtl_device = 0, st_mtl_session = 0, st_ops = blank_ops, st_ip_addr = [], st_transfer_size = 0,
     st_frame_available = False, st_cancelled = False, st_thread = False\<rparr>"

datatype mtl_call = MtlInit mtl_init_params | MtlStart nat | CreateSession st_standard kind nat st_ops
  | CloseSession nat | GetFrame nat | PutFrame nat nat | NewThread | IsCancelled

record mtl_res =
  mt_ret :: int
  mt_out :: nat
  mt_data :: nat

type_synonym mtl_trace = "(mtl_call, mtl_res) trace"
type_synonym mtl_env = "(mtl_call, mtl_res) environ"

text \<open>\<open>get_mtl_device\<close>: \<open>dev\<close> is the static variable \<open>dev_handle\<close>.\<close>

definition get_mtl_device ::
  "mtl_fns \<Rightarrow> mtl_env \<Rightarrow> string \<Rightarrow> string \<Rightarrow> nat \<Rightarrow> mtl_trace \<Rightarrow> nat \<times> nat \<times> mtl_trace" where
  "get_mtl_device M env dev_port ip dev tr =
     (if dev \<noteq> 0 then (dev, dev, tr) else
      let (i, tr) = ext_call env (MtlInit (get_mtl_dev_params M dev_port ip)) tr in
      if mt_out i = 0 then (0, 0, tr) else
      let (s, tr) = ext_call env (MtlStart (mt_out i)) tr
      in if mt_ret s \<noteq> 0 then (0, mt_out i, tr) else (mt_out i, mt_out i, tr))"

definition mtl_get_session_id :: "int \<Rightarrow> int \<times> int" where
  "mtl_get_session_id session_id = (session_id, session_id + 1)"

section \<open>Configuration\<close>

record MeshConfig_ST2110 =
  ms_remote_ip_addr :: string
  ms_remote_port :: u16
  ms_local_ip_addr :: string
  ms_local_port :: u16
  ms_mcast_sip_addr :: string
  ms_transport :: int
  ms_transport_format :: int
  ms_payload_type :: u8

record MeshConfig_Video =
  mv_width :: u32
  mv_height :: u32
  mv_fps :: rat
  mv_pixel_format :: int

record MeshConfig_Audio =
  ma_channels :: u32
  ma_sample_rate :: int
  ma_format :: int
  ma_packet_time :: int

definition st_bad :: "result \<Rightarrow> st2110 \<Rightarrow> result \<times> st2110" where
  "st_bad r s = (r, s\<lparr>st_conn := snd (set_result r (set_state not_configured (st_conn s)))\<rparr>)"

definition st_ok :: "st2110 \<Rightarrow> result \<times> st2110" where
  "st_ok s = (success, s\<lparr>st_conn := set_state configured (st_conn s)\<rparr>)"

text \<open>\<open>configure_common\<close> of the base class and of the receivers and transmitters; it never fails.
  \<open>sid\<close> is the session counter.\<close>

definition configure_common :: "mtl_fns \<Rightarrow> string \<Rightarrow> MeshConfig_ST2110 \<Rightarrow> int \<Rightarrow> st2110 \<Rightarrow> int \<times> st2110" where
  "configure_common M dev_port cfg sid s =
     (let (n, sid) = mtl_get_session_id sid;
          ops = (st_ops s)\<lparr>op_port := strlcpy dev_port (mf_port_max_len M), op_num_port := 1,
            op_name := Some (strlcpy (''mcm_mtl_'' @ sdec n) 255), op_framebuff_cnt := 4\<rparr>;
          ops = (if o_kind (st_conn s) = Kreceiver
                 then ops\<lparr>op_ip := pton M (ms_remote_ip_addr cfg) (op_ip ops),
                   op_mcast := pton M (ms_mcast_sip_addr cfg) (op_mcast ops), op_udp_port := ms_local_port cfg\<rparr>
                 else ops\<lparr>op_ip := pton M (ms_remote_ip_addr cfg) (op_ip ops),
                   op_udp_port := ms_remote_port cfg, op_udp_src_port := ms_local_port cfg\<rparr>)
      in (sid, s\<lparr>st_ip_addr := ms_local_ip_addr cfg, st_ops := ops\<rparr>))"

definition set_video :: "mtl_fns \<Rightarrow> u8 \<Rightarrow> MeshConfig_Video \<Rightarrow> st2110 \<Rightarrow> st2110" where
  "set_video M pt v s = s\<lparr>st_ops := (st_ops s)\<lparr>op_payload_type := pt, op_width := mv_width v,
     op_height := mv_height v, op_fps := mf_fps M (mv_fps v)\<rparr>\<rparr>"

definition set_transfer :: "u64 \<Rightarrow> st2110 \<Rightarrow> result \<times> st2110" where
  "set_transfer n s = (let s = s\<lparr>st_transfer_size := n\<rparr> in if n = 0 then st_bad error_bad_argument s else st_ok s)"

definition configure_20 ::
  "mtl_fns \<Rightarrow> string \<Rightarrow> MeshConfig_ST2110 \<Rightarrow> MeshConfig_Video \<Rightarrow> int \<Rightarrow> st2110 \<Rightarrow> result \<times> int \<times> st2110" where
  "configure_20 M dev_port cfg v sid s =
     (if ms_transport cfg \<noteq> MESH_CONN_TRANSPORT_ST2110_20
      then (let (r, s) = st_bad error_bad_argument s in (r, sid, s)) else
      let (sid, s) = configure_common M dev_port cfg sid s;
          s = set_video M (ms_payload_type cfg) v s;
          (r, s) = (case mesh_transport_video_format_to_st20_fmt (ms_transport_format cfg) of
              None \<Rightarrow> st_bad error_bad_argument s
            | Some t \<Rightarrow>
                (let s = s\<lparr>st_ops := (st_ops s)\<lparr>op_transport_fmt := Some t\<rparr>\<rparr> in
                 case mesh_video_format_to_st_format (mv_pixel_format v) of
                   None \<Rightarrow> st_bad error_bad_argument s
                 | Some f \<Rightarrow> set_transfer (mf_frame_size M f (mv_width v) (mv_height v))
                     (s\<lparr>st_ops := (st_ops s)\<lparr>op_fmt := Some f\<rparr>\<rparr>)))
      in (r, sid, s))"

definition ST_APP_PAYLOAD_TYPE_ST22 :: u8 where "ST_APP_PAYLOAD_TYPE_ST22 = 114"

definition configure_22 ::
  "mtl_fns \<Rightarrow> string \<Rightarrow> MeshConfig_ST2110 \<Rightarrow> MeshConfig_Video \<Rightarrow> int \<Rightarrow> st2110 \<Rightarrow> result \<times> int \<times> st2110" where
  "configure_22 M dev_port cfg v sid s =
     (if ms_transport cfg \<noteq> MESH_CONN_TRANSPORT_ST2110_22
      then (let (r, s) = st_bad error_bad_argument s in (r, sid, s)) else
      let (sid, s) = configure_common M dev_port cfg sid s;
          s = set_video M ST_APP_PAYLOAD_TYPE_ST22 v s;
          (r, s) = (case mesh_video_format_to_st_format (mv_pixel_format v) of
              None \<Rightarrow> st_bad error_bad_argument s
            | Some f \<Rightarrow>
                (let s = s\<lparr>st_ops := (st_ops s)\<lparr>op_fmt := Some f\<rparr>\<rparr> in
                 if f \<noteq> ST_FRAME_FMT_YUV422PLANAR10LE then st_bad error_not_supported s else
                 let s = (if o_kind (st_conn s) = Ktransmitter
                          then s\<lparr>st_ops := (st_ops s)\<lparr>op_codestream_size := mv_width v * mv_height v * 3 div 8\<rparr>\<rparr>
                          else s)
                 in set_transfer (mf_frame_size M f (mv_width v) (mv_height v)) s))
      in (r, sid, s))"

definition configure_30 ::
  "mtl_fns \<Rightarrow> string \<Rightarrow> MeshConfig_ST2110 \<Rightarrow> MeshConfig_Audio \<Rightarrow> int \<Rightarrow> st2110 \<Rightarrow> result \<times> int \<times> st2110" where
  "configure_30 M dev_port cfg a sid s =
     (if ms_transport cfg \<noteq> MESH_CONN_TRANSPORT_ST2110_30
      then (let (r, s) = st_bad error_bad_argument s in (r, sid, s)) else
      let (sid, s) = configure_common M dev_port cfg sid s;
          s = s\<lparr>st_ops := (st_ops s)\<lparr>op_payload_type := ms_payload_type cfg\<rparr>\<rparr>;
          (r, s) = (case mesh_audio_format_to_st_format (ma_format a) of
              None \<Rightarrow> st_bad error_bad_argument s
            | Some f \<Rightarrow>
                (let s = s\<lparr>st_ops := (st_ops s)\<lparr>op_audio_fmt := Some f, op_channel := ucast (ma_channels a)\<rparr>\<rparr> in
                 case mesh_audio_sampling_to_st_sampling (ma_sample_rate a) of
                   None \<Rightarrow> st_bad error_bad_argument s
                 | Some h \<Rightarrow>
                     (let s = s\<lparr>st_ops := (st_ops s)\<lparr>op_sampling := Some h\<rparr>\<rparr> in
                      case mesh_audio_ptime_to_st_ptime (ma_packet_time a) of
                        None \<Rightarrow> st_bad error_bad_argument s
                      | Some p \<Rightarrow>
                          (let n = mf_packet_size M f p h (ucast (ma_channels a))
                           in set_transfer n (s\<lparr>st_ops := (st_ops s)\<lparr>op_ptime := Some p, op_framebuff_size := n\<rparr>\<rparr>)))))
      in (r, sid, s))"

section \<open>Establishing and shutting down\<close>

definition st_close :: "result \<Rightarrow> st2110 \<Rightarrow> result \<times> st2110" where
  "st_close r s = (r, s\<lparr>st_conn := snd (set_result r (set_state closed_st (st_conn s)))\<rparr>)"

definition st_on_establish ::
  "mtl_fns \<Rightarrow> mtl_env \<Rightarrow> nat \<Rightarrow> st2110 \<Rightarrow> mtl_trace \<Rightarrow> result \<times> nat \<times> st2110 \<times> mtl_trace" where
  "st_on_establish M env dev s tr =
     (let (d, dev, tr) = get_mtl_device M env (op_port (st_ops s)) (st_ip_addr s) dev tr;
          s = s\<lparr>st_mtl_device := d\<rparr>
      in if d = 0 then (let (r, s) = st_close error_general_failure s in (r, dev, s, tr)) else
      let s = s\<lparr>st_cancelled := False, st_frame_available := False\<rparr>;
          (c, tr) = ext_call env (CreateSession (st_std s) (o_kind (st_conn s)) d (st_ops s)) tr;
          s = s\<lparr>st_mtl_session := mt_out c\<rparr>
      in if mt_out c = 0 then (let (r, s) = st_close error_general_failure s in (r, dev, s, tr)) else
      let s = s\<lparr>st_conn := set_state active (st_conn s)\<rparr>
      in if o_kind (st_conn s) \<noteq> Kreceiver then (success, dev, s, tr) else
      let (t, tr) = ext_call env NewThread tr
      in if mt_ret t \<noteq> 0 then (let (r, s) = st_close error_out_of_memory s in (r, dev, s, tr))
         else (success, dev, s\<lparr>st_thread := True\<rparr>, tr))"

text \<open>\<open>None\<close>: the receiver joins a thread it never started.\<close>

definition st_on_shutdown :: "mtl_env \<Rightarrow> st2110 \<Rightarrow> mtl_trace \<Rightarrow> (result \<times> st2110 \<times> mtl_trace) option" where
  "st_on_shutdown env s tr =
     (let s = s\<lparr>st_cancelled := True, st_frame_available := True\<rparr>;
          (s, tr) = (if st_mtl_session s \<noteq> 0
             then (s\<lparr>st_mtl_session := 0\<rparr>, snd (ext_call env (CloseSession (st_mtl_session s)) tr)) else (s, tr));
          s = s\<lparr>st_conn := set_state closed_st (st_conn s)\<rparr>
      in if o_kind (st_conn s) \<noteq> Kreceiver then Some (success, s, tr)
         else if st_thread s then Some (success, s\<lparr>st_thread := False\<rparr>, tr) else None)"

section \<open>Frames\<close>

text \<open>The system data of a buffer: \<open>timestamp_ms\<close> at 0, \<open>seq\<close> at 8, \<open>payload_len\<close> at 12, \<open>metadata_len\<close>
  at 16.\<close>

definition rx_init_buffer :: "BufferPartitions \<Rightarrow> nat \<Rightarrow> u64 \<Rightarrow> (nat \<Rightarrow> u8) \<Rightarrow> (nat \<Rightarrow> u8)" where
  "rx_init_buffer bp buf n m = (let sysdata = buf + unat (bp_offset (bp_sysdata bp)) in
     mem_write sysdata (le64 0 @ le32 0 @ le32 (ucast n) @ le32 0) m)"

definition rx_copy_frame :: "BufferPartitions \<Rightarrow> nat \<Rightarrow> u64 \<Rightarrow> nat \<Rightarrow> (nat \<Rightarrow> u8) \<Rightarrow> (nat \<Rightarrow> u8)" where
  "rx_copy_frame bp buf n frame m =
     mem_write (buf + unat (bp_offset (bp_payload bp))) (mem_read m frame (unat n)) m"

text \<open>The loop of the receiver's thread. \<open>transm\<close> is the connection's \<open>transmit\<close>, here with the
  memory; \<open>None\<close> is running out of fuel or a pointer to a deleted object.\<close>

fun rx_frame_loop ::
  "nat \<Rightarrow> mtl_env \<Rightarrow> ((nat \<Rightarrow> u8) \<times> 'w) transmit_fn \<Rightarrow> nat \<Rightarrow> st2110 \<Rightarrow> (nat \<Rightarrow> u8) \<Rightarrow> 'w \<Rightarrow> mtl_trace \<Rightarrow>
   ((nat \<Rightarrow> u8) \<times> 'w \<times> mtl_trace) option" where
  "rx_frame_loop 0 env transm buf s m w tr = None"
| "rx_frame_loop (Suc fuel) env transm buf s m w tr =
     (let (c, tr) = ext_call env IsCancelled tr in
      if mt_ret c \<noteq> 0 then Some (m, w, tr) else
      let (f, tr) = ext_call env (GetFrame (st_mtl_session s)) tr in
      if mt_out f = 0 then rx_frame_loop fuel env transm buf s m w tr else
      let bp = x_buf_parts (st_config s);
          m = rx_copy_frame bp buf (st_transfer_size s) (mt_data f) m
      in case transm buf (ucast (total_size bp)) (m, w) of
           None \<Rightarrow> None
         | Some (_, m, w) \<Rightarrow>
             let (_, tr) = ext_call env (PutFrame (st_mtl_session s) (mt_out f)) tr
             in rx_frame_loop fuel env transm buf s m w tr)"

text \<open>\<open>buf\<close> is the address of the buffer the thread allocates.\<close>

definition frame_thread ::
  "nat \<Rightarrow> mtl_env \<Rightarrow> ((nat \<Rightarrow> u8) \<times> 'w) transmit_fn \<Rightarrow> nat \<Rightarrow> st2110 \<Rightarrow> (nat \<Rightarrow> u8) \<Rightarrow> 'w \<Rightarrow> mtl_trace \<Rightarrow>
   ((nat \<Rightarrow> u8) \<times> 'w \<times> mtl_trace) option" where
  "frame_thread fuel env transm buf s m w tr =
     (let bp = x_buf_parts (st_config s) in
      if st_transfer_size s > ucast (bp_size (bp_payload bp)) then Some (m, w, tr)
      else rx_frame_loop fuel env transm buf s (rx_init_buffer bp buf (st_transfer_size s) m) w tr)"

text \<open>A transmitter waits for an empty frame until it is cancelled: the frame and the address of its
  data.\<close>

fun tx_get_frame :: "nat \<Rightarrow> mtl_env \<Rightarrow> st2110 \<Rightarrow> mtl_trace \<Rightarrow> ((nat \<times> nat) option \<times> mtl_trace) option" where
  "tx_get_frame 0 env s tr = None"
| "tx_get_frame (Suc fuel) env s tr =
     (let (c, tr) = ext_call env IsCancelled tr in
      if mt_ret c \<noteq> 0 then Some (None, tr) else
      let (f, tr) = ext_call env (GetFrame (st_mtl_session s)) tr
      in if mt_out f \<noteq> 0 then Some (Some (mt_out f, mt_data f), tr) else tx_get_frame fuel env s tr)"

text \<open>\<open>copy_size\<close> is an \<open>int\<close>: from \<open>2 ^ 31\<close> on it is negative and the copy, with that number as
  a \<open>size_t\<close>, faults (\<open>None\<close>, as running out of fuel).\<close>

definition st_tx_on_receive ::
  "nat \<Rightarrow> mtl_env \<Rightarrow> nat \<Rightarrow> u32 \<Rightarrow> st2110 \<Rightarrow> (nat \<Rightarrow> u8) \<Rightarrow> mtl_trace \<Rightarrow>
   (result \<times> u32 \<times> st2110 \<times> (nat \<Rightarrow> u8) \<times> mtl_trace) option" where
  "st_tx_on_receive fuel env ptr sz s m tr = (case tx_get_frame fuel env s tr of
      None \<Rightarrow> None
    | Some (None, tr) \<Rightarrow>
        Some (error_context_cancelled, 0, s\<lparr>st_conn := snd (set_result error_context_cancelled (st_conn s))\<rparr>, m, tr)
    | Some (Some (f, a), tr) \<Rightarrow>
        let bp = x_buf_parts (st_config s);
            sz = (if ucast sz > total_size bp then ucast (total_size bp) else sz);
            len = of_le32 (mem_read m (ptr + unat (bp_offset (bp_sysdata bp)) + 12) 4);
            n = (if ucast len > st_transfer_size s then unat (st_transfer_size s) else unat len);
            m = mem_write a (mem_read m (ptr + unat (bp_offset (bp_payload bp))) n) m;
            (_, tr) = ext_call env (PutFrame (st_mtl_session s) f) tr
        in if n \<ge> 2 ^ 31 then None else Some (success, sz, s, m, tr))"

section \<open>A bridge is a connection\<close>

definition st_establish_op :: "mtl_fns \<Rightarrow> mtl_env \<Rightarrow> nat \<Rightarrow> st2110 \<Rightarrow> mtl_trace \<Rightarrow> conn_op" where
  "st_establish_op M env dev s tr c =
     (let (r, _, s, _) = st_on_establish M env dev (s\<lparr>st_conn := c\<rparr>) tr in (r, st_conn s))"

definition st_shutdown_op :: "mtl_env \<Rightarrow> st2110 \<Rightarrow> mtl_trace \<Rightarrow> conn_op" where
  "st_shutdown_op env s tr c = (case st_on_shutdown env (s\<lparr>st_conn := c, st_thread := True\<rparr>) tr of
      None \<Rightarrow> (error_general_failure, c) | Some (r, s, _) \<Rightarrow> (r, st_conn s))"

lemma st_on_establish_state:
  assumes "st_on_establish M env dev s tr = (r, dev', s', tr')"
  shows "o_state (st_conn s') = (if r = success then active else closed_st) \<and> o_kind (st_conn s') = o_kind (st_conn s)"
  using assms by (auto simp: st_on_establish_def Let_def split_def st_close_def split: if_splits)

interpretation st_be: conn_backend "st_establish_op M env dev s tr" "st_shutdown_op env s tr" for M env dev s tr
proof
  fix c r c'
  assume "o_state c = establishing" "st_establish_op M env dev s tr c = (r, c')"
  then show "(if r = success then o_state c' \<in> {active, suspended} else o_state c' \<in> {establishing, closed_st}) \<and>
      o_kind c' = o_kind c"
    using st_on_establish_state [of M env dev "s\<lparr>st_conn := c\<rparr>" tr]
    by (auto simp: st_establish_op_def split: prod.splits)
next
  fix c r c'
  assume "o_state c = closing" "st_shutdown_op env s tr c = (r, c')"
  then show "(if r = success then o_state c' = closed_st else o_state c' \<in> {closing, closed_st}) \<and> o_kind c' = o_kind c"
    by (auto simp: st_shutdown_op_def st_on_shutdown_def Let_def split_def split: if_splits)
qed

section \<open>The shared device\<close>

text \<open>
  A Media Transport Library device that cannot be started is not given up: the first bridge is
  told so, but every later one gets the device as if it were running, and never starts it.
\<close>

theorem unstarted_device_reused:
  assumes "mt_out (env tr (MtlInit (get_mtl_dev_params M port ip))) = d" and "d \<noteq> 0"
    and "\<And>tr. mt_ret (env tr (MtlStart d)) \<noteq> 0"
  shows "\<exists>tr'. get_mtl_device M env port ip 0 tr = (0, d, tr') \<and>
    (\<forall>port2 ip2 tr2. get_mtl_device M env port2 ip2 d tr2 = (d, d, tr2))"
  using assms by (auto simp: get_mtl_device_def ext_call_def Let_def)

definition mtl_fns0 :: mtl_fns where
  "mtl_fns0 = \<lparr>mf_frame_size = (\<lambda>f w h. 4), mf_packet_size = (\<lambda>f p s c. 4), mf_fps = (\<lambda>_. 0), mf_pton = (\<lambda>_. None),
     mf_pmd = (\<lambda>_. 0), mf_getenv = (\<lambda>_. None), mf_port_max_len = 64\<rparr>"

definition no_start :: mtl_env where
  "no_start tr c = (case c of MtlStart _ \<Rightarrow> \<lparr>mt_ret = -5, mt_out = 0, mt_data = 0\<rparr> | _ \<Rightarrow> \<lparr>mt_ret = 0, mt_out = 5, mt_data = 64\<rparr>)"

theorem unstarted_device_reused_witness:
  "\<exists>tr'. get_mtl_device mtl_fns0 no_start ''0000:31:00.0'' ''10.0.0.1'' 0 [] = (0, 5, tr') \<and>
     get_mtl_device mtl_fns0 no_start ''0000:31:00.0'' ''10.0.0.1'' 5 tr' = (5, 5, tr')"
  using unstarted_device_reused [of no_start "[]" mtl_fns0 "''0000:31:00.0''" "''10.0.0.1''" 5]
  by (auto simp: no_start_def)

section \<open>From a received frame to a sent one\<close>

text \<open>The partitions of a buffer are inside it and do not overlap, and the payload has room for a frame.\<close>

definition parts_hold :: "BufferPartitions \<Rightarrow> u64 \<Rightarrow> bool" where
  "parts_hold bp n \<longleftrightarrow> unat n \<le> unat (bp_size (bp_payload bp)) \<and>
     unat (bp_offset (bp_payload bp)) + unat (bp_size (bp_payload bp)) \<le> unat (total_size bp) \<and>
     unat (bp_offset (bp_sysdata bp)) + 20 \<le> unat (total_size bp) \<and>
     (unat (bp_offset (bp_payload bp)) + unat (bp_size (bp_payload bp)) \<le> unat (bp_offset (bp_sysdata bp)) \<or>
      unat (bp_offset (bp_sysdata bp)) + 20 \<le> unat (bp_offset (bp_payload bp)))"

lemma rx_init_len:
  "of_le32 (mem_read (rx_init_buffer bp buf n m) (buf + unat (bp_offset (bp_sysdata bp)) + 12) 4) = ucast n"
proof -
  let ?a = "buf + unat (bp_offset (bp_sysdata bp))" and ?bs = "le64 0 @ le32 0 @ le32 (ucast n) @ le32 0"
  have "mem_read (mem_write ?a ?bs m) (?a + 12) 4 = le32 (ucast n)"
  proof (rule nth_equalityI)
    fix i assume "i < length (mem_read (mem_write ?a ?bs m) (?a + 12) 4)"
    then have i: "i < 4" by simp
    then have "?bs ! (12 + i) = le32 (ucast n) ! i" by (simp add: nth_append)
    with i show "mem_read (mem_write ?a ?bs m) (?a + 12) 4 ! i = le32 (ucast n) ! i"
      by (simp add: mem_write_def)
  qed simp
  then show ?thesis by (simp add: rx_init_buffer_def Let_def)
qed

lemma rx_copy_keeps_len:
  assumes "parts_hold bp n"
  shows "mem_read (rx_copy_frame bp buf n frame m) (buf + unat (bp_offset (bp_sysdata bp)) + 12) 4 =
    mem_read m (buf + unat (bp_offset (bp_sysdata bp)) + 12) 4"
  unfolding rx_copy_frame_def using assms by (intro mem_read_write_other) (auto simp: parts_hold_def)

abbreviation stamped :: "BufferPartitions \<Rightarrow> nat \<Rightarrow> u64 \<Rightarrow> (nat \<Rightarrow> u8) \<Rightarrow> bool" where
  "stamped bp buf n m \<equiv> of_le32 (mem_read m (buf + unat (bp_offset (bp_sysdata bp)) + 12) 4) = ucast n"

text \<open>One frame: what the receiver puts into the buffer is what the transmitter copies into its frame.\<close>

lemma frame_copied:
  assumes "parts_hold bp n" and "st_transfer_size s = n" and "unat n < 2 ^ 31" and "bp = x_buf_parts (st_config s)"
    and "stamped bp buf n m" and "tx_get_frame fuel env s tr = Some (Some (f, a), tr1)"
  shows "\<exists>tr'. st_tx_on_receive fuel env buf (ucast (total_size bp)) s (rx_copy_frame bp buf n frame m) tr =
      Some (success, ucast (total_size bp), s, mem_write a (mem_read m frame (unat n)) (rx_copy_frame bp buf n frame m), tr') \<and>
    tr' = tr1 @ [(PutFrame (st_mtl_session s) f, env tr1 (PutFrame (st_mtl_session s) f))]"
proof -
  let ?m = "rx_copy_frame bp buf n frame m"
  have len: "of_le32 (mem_read ?m (buf + unat (bp_offset (bp_sysdata bp)) + 12) 4) = ucast n"
    using rx_copy_keeps_len [of bp n] assms(1,5) by simp
  have un: "unat (ucast n :: u32) = unat n" "(ucast (ucast n :: u32) :: u64) = n"
    using assms(3) by (simp_all add: word_unat_eq_iff unsigned_ucast_eq unsigned_take_bit_eq take_bit_nat_eq_self)
  have p: "mem_read ?m (buf + unat (bp_offset (bp_payload bp))) (unat n) = mem_read m frame (unat n)"
    by (simp add: rx_copy_frame_def)
  show ?thesis
    using assms(2,3,4,6) len un p by (simp add: st_tx_on_receive_def Let_def ext_call_def)
qed

text \<open>The addresses of the frames a trace got from the library, and a bridge that forwards to a
  transmitter: besides the memory it keeps the transmitter's trace and the data of each frame
  at the time it is handed back to the library.\<close>

definition frames_got :: "mtl_trace \<Rightarrow> nat list" where
  "frames_got tr = concat (map (\<lambda>(c, r). case c of GetFrame _ \<Rightarrow> if mt_out r \<noteq> 0 then [mt_data r] else [] | _ \<Rightarrow> []) tr)"

lemma frames_got_simps [simp]:
  "frames_got [] = []"
  "frames_got (tr @ tr') = frames_got tr @ frames_got tr'"
  "frames_got ((c, r) # tr) = (case c of GetFrame _ \<Rightarrow> if mt_out r \<noteq> 0 then [mt_data r] else [] | _ \<Rightarrow> []) @ frames_got tr"
  by (simp_all add: frames_got_def)

definition st_forward :: "nat \<Rightarrow> mtl_env \<Rightarrow> st2110 \<Rightarrow> ((nat \<Rightarrow> u8) \<times> mtl_trace \<times> u8 list list) transmit_fn" where
  "st_forward fuel env s buf sz w = (let (m, tr, frames) = w in case st_tx_on_receive fuel env buf sz s m tr of
      None \<Rightarrow> None
    | Some (r, _, _, m, tr) \<Rightarrow> Some (r, m, tr,
        if r = success then frames @ [mem_read m (last (frames_got tr)) (unat (st_transfer_size s))] else frames))"

text \<open>The frames of the two sessions and the buffer do not overlap; the transmitter always gets a frame.\<close>

definition apart :: "nat \<Rightarrow> nat \<Rightarrow> nat \<Rightarrow> nat \<Rightarrow> bool" where
  "apart a n b k \<longleftrightarrow> a + n \<le> b \<or> b + k \<le> a"

definition frames_apart :: "mtl_env \<Rightarrow> nat \<Rightarrow> mtl_env \<Rightarrow> nat \<Rightarrow> nat \<Rightarrow> nat \<Rightarrow> nat \<Rightarrow> bool" where
  "frames_apart env1 h1 env2 h2 n buf k \<longleftrightarrow> (\<forall>t u.
     apart (mt_data (env1 t (GetFrame h1))) n buf k \<and> apart (mt_data (env2 u (GetFrame h2))) n buf k \<and>
     apart (mt_data (env1 t (GetFrame h1))) n (mt_data (env2 u (GetFrame h2))) n)"

definition tx_ready :: "mtl_env \<Rightarrow> nat \<Rightarrow> bool" where
  "tx_ready env h \<longleftrightarrow> (\<forall>t. mt_ret (env t IsCancelled) = 0 \<and> mt_out (env t (GetFrame h)) \<noteq> 0)"

lemma forward_frame:
  assumes "parts_hold bp n" and "st_transfer_size s = n" and "unat n < 2 ^ 31" and "bp = x_buf_parts (st_config s)"
    and "stamped bp buf n m" and "tx_ready env (st_mtl_session s)"
  obtains u tr' where "st_forward (Suc fuel) env s buf (ucast (total_size bp)) (rx_copy_frame bp buf n frame m, tr, fs) =
      Some (success, mem_write (mt_data (env u (GetFrame (st_mtl_session s)))) (mem_read m frame (unat n)) (rx_copy_frame bp buf n frame m),
        tr', fs @ [mem_read m frame (unat n)])"
proof -
  let ?h = "st_mtl_session s"
  let ?t = "tr @ [(IsCancelled, env tr IsCancelled)]"
  let ?f = "env ?t (GetFrame ?h)"
  have g: "tx_get_frame (Suc fuel) env s tr = Some (Some (mt_out ?f, mt_data ?f), ?t @ [(GetFrame ?h, ?f)])"
    using assms(6) by (simp add: tx_ready_def ext_call_def)
  have "mt_out ?f \<noteq> 0" using assms(6) unfolding tx_ready_def by blast
  with frame_copied [OF assms(1-5) g, of frame] assms(2) show thesis
    by (intro that [of ?t]) (auto simp: st_forward_def)
qed

lemma rx_frame_loop_forwards:
  assumes "parts_hold bp n" and "st_transfer_size s = n" and "unat n < 2 ^ 31" and "bp = x_buf_parts (st_config s)"
    and "st_transfer_size r = n" and "bp = x_buf_parts (st_config r)"
    and "tx_ready env2 (st_mtl_session s)"
    and "frames_apart env (st_mtl_session r) env2 (st_mtl_session s) (unat n) buf (unat (total_size bp))"
    and "\<And>t. K \<le> length t \<Longrightarrow> mt_ret (env t IsCancelled) \<noteq> 0"
    and "stamped bp buf n m"
    and "\<And>t. mem_read m (mt_data (env t (GetFrame (st_mtl_session r)))) (unat n) =
          mem_read m0 (mt_data (env t (GetFrame (st_mtl_session r)))) (unat n)"
    and "K \<le> length tr + F"
  shows "\<exists>m' tr2' suf. rx_frame_loop (Suc F) env (st_forward (Suc fuel) env2 s) buf r m (tr2, fs) tr =
    Some (m', (tr2', fs @ map (\<lambda>a. mem_read m0 a (unat n)) (frames_got suf)), tr @ suf)"
  using assms(10-)
proof (induction F arbitrary: m tr tr2 fs)
  case 0
  then have "mt_ret (env tr IsCancelled) \<noteq> 0" using assms(9) by simp
  then show ?case by (auto simp: ext_call_def intro!: exI [of _ "[(IsCancelled, env tr IsCancelled)]"])
next
  case (Suc F)
  let ?h = "st_mtl_session r"
  let ?t = "tr @ [(IsCancelled, env tr IsCancelled)]"
  let ?f = "env ?t (GetFrame ?h)"
  let ?t1 = "?t @ [(GetFrame ?h, ?f)]"
  show ?case
  proof (cases "mt_ret (env tr IsCancelled) \<noteq> 0")
    case True
    then show ?thesis by (auto simp: ext_call_def intro!: exI [of _ "[(IsCancelled, env tr IsCancelled)]"])
  next
    case False
    show ?thesis
    proof (cases "mt_out ?f = 0")
      case True
      have "K \<le> length ?t1 + F" using Suc.prems(3) by simp
      from Suc.IH [OF Suc.prems(1,2) this, of tr2 fs] show ?thesis
        using False True by (auto simp: ext_call_def intro!: exI [of _ "[(IsCancelled, _), (GetFrame ?h, ?f)] @ _"])
    next
      case got: False
      obtain u tr' where fw: "st_forward (Suc fuel) env2 s buf (ucast (total_size bp)) (rx_copy_frame bp buf n (mt_data ?f) m, tr2, fs) =
          Some (success, mem_write (mt_data (env2 u (GetFrame (st_mtl_session s)))) (mem_read m (mt_data ?f) (unat n))
            (rx_copy_frame bp buf n (mt_data ?f) m), tr', fs @ [mem_read m (mt_data ?f) (unat n)])"
        using forward_frame [OF assms(1-4) Suc.prems(1) assms(7)] by blast
      let ?m = "mem_write (mt_data (env2 u (GetFrame (st_mtl_session s)))) (mem_read m (mt_data ?f) (unat n))
            (rx_copy_frame bp buf n (mt_data ?f) m)"
      let ?t2 = "?t1 @ [(PutFrame ?h (mt_out ?f), env ?t1 (PutFrame ?h (mt_out ?f)))]"
      have ap: "apart (mt_data (env t (GetFrame ?h))) (unat n) buf (unat (total_size bp))"
        "apart (mt_data (env2 u (GetFrame (st_mtl_session s)))) (unat n) buf (unat (total_size bp))"
        "apart (mt_data (env t (GetFrame ?h))) (unat n) (mt_data (env2 u (GetFrame (st_mtl_session s)))) (unat n)" for t
        using assms(8) unfolding frames_apart_def by blast+
      have 1: "stamped bp buf n ?m"
        using Suc.prems(1) rx_copy_keeps_len [OF assms(1)] ap(2) assms(1)
        by (subst mem_read_write_other) (auto simp: apart_def parts_hold_def)
      have 2: "mem_read ?m (mt_data (env t (GetFrame ?h))) (unat n) = mem_read m0 (mt_data (env t (GetFrame ?h))) (unat n)" for t
      proof -
        have "mem_read ?m (mt_data (env t (GetFrame ?h))) (unat n) = mem_read m (mt_data (env t (GetFrame ?h))) (unat n)"
          using ap(1,3) [of t] assms(1) unfolding rx_copy_frame_def
          by (subst mem_read_write_other, force simp: apart_def, intro mem_read_write_other) (auto simp: apart_def parts_hold_def)
        then show ?thesis using Suc.prems(2) by simp
      qed
      have 3: "K \<le> length ?t2 + F" using Suc.prems(3) by simp
      from Suc.IH [OF 1 2 3, of tr' "fs @ [mem_read m (mt_data ?f) (unat n)]"]
      obtain m' tr2' suf where "rx_frame_loop (Suc F) env (st_forward (Suc fuel) env2 s) buf r ?m
          (tr', fs @ [mem_read m (mt_data ?f) (unat n)]) ?t2 =
        Some (m', (tr2', (fs @ [mem_read m (mt_data ?f) (unat n)]) @ map (\<lambda>a. mem_read m0 a (unat n)) (frames_got suf)), ?t2 @ suf)"
        by blast
      then show ?thesis using False got fw assms(5,6) Suc.prems(2)
        by (auto simp: ext_call_def simp del: rx_frame_loop.simps(2) simp add: rx_frame_loop.simps(2) [of "Suc F" env "st_forward (Suc fuel) env2 s" buf r m "(tr2, fs)" tr]
            intro!: exI [of _ m'] exI [of _ tr2'] exI [of _ "[(IsCancelled, _), (GetFrame ?h, ?f), (PutFrame ?h (mt_out ?f), _)] @ suf"])
    qed
  qed
qed


definition parts0 :: BufferPartitions where
  "parts0 = \<lparr>bp_payload = \<lparr>bp_size = 16, bp_offset = 0\<rparr>, bp_metadata = \<lparr>bp_size = 0, bp_offset = 16\<rparr>,
     bp_sysdata = \<lparr>bp_size = 24, bp_offset = 16\<rparr>\<rparr>"

definition st_demo :: "kind \<Rightarrow> st2110" where
  "st_demo k = (new_st2110 ST20 k (config0\<lparr>x_buf_parts := parts0\<rparr>))\<lparr>st_transfer_size := 4\<rparr>"

text \<open>Two frames at 512 and 516, then the receiver is cancelled.\<close>

definition two_frames :: mtl_env where
  "two_frames tr c = (case c of
      IsCancelled \<Rightarrow> \<lparr>mt_ret = (if length tr < 6 then 0 else 1), mt_out = 0, mt_data = 0\<rparr>
    | _ \<Rightarrow> \<lparr>mt_ret = 0, mt_out = 7, mt_data = (if length tr < 3 then 512 else 516)\<rparr>)"


end
