(* ===== verification/Managers.thy ===== *)
theory Managers
  imports Membership Conn_Local St2110 Rdma_Frames "HOL-Library.AList"
begin

text \<open>
  The registry of connections (media-proxy/include/mesh/conn_registry.h), the identifiers
  (uuid.cc), the manager of the connections to local applications (manager_local.cc) and the manager
  of the bridges to other hosts (manager_bridges.cc). The base objects of all connections are in one
  store (theory \<open>Connection\<close>); the members of the derived classes are in \<open>px_parts\<close>, whose copies of
  the base object are brought up to date when a method of the class runs. The agent, threads,
  random bytes, libmemif, libfabric and the Media Transport Library are calls of the environment.
\<close>

section \<open>Registry\<close>

type_synonym registry = "(string \<times> u64) list"

definition reg_add :: "string \<Rightarrow> u64 \<Rightarrow> registry \<Rightarrow> int \<times> registry" where
  "reg_add uid conn r = (if map_of r uid \<noteq> None then (-1, r) else (0, (uid, conn) # r))"

definition reg_replace :: "string \<Rightarrow> u64 \<Rightarrow> registry \<Rightarrow> registry" where
  "reg_replace uid conn r = AList.update uid conn r"

definition reg_remove :: "string \<Rightarrow> registry \<Rightarrow> bool \<times> registry" where
  "reg_remove uid r = (map_of r uid \<noteq> None, AList.delete uid r)"

definition reg_get :: "string \<Rightarrow> registry \<Rightarrow> u64" where
  "reg_get uid r = (case map_of r uid of None \<Rightarrow> 0 | Some conn \<Rightarrow> conn)"

text \<open>The order in which a hash map is traversed is \<open>ord\<close> of its keys.\<close>

definition reg_get_all_ids :: "(string list \<Rightarrow> string list) \<Rightarrow> registry \<Rightarrow> string list" where
  "reg_get_all_ids ord r = ord (map fst r)"

text \<open>What a registry promises to the managers: it is a finite map from identifiers to addresses. The
  view \<open>look\<close> leaves out the entries that hold a null pointer.\<close>

locale registry_spec =
  fixes look :: "'r \<Rightarrow> string \<Rightarrow> u64 option"
    and get :: "string \<Rightarrow> 'r \<Rightarrow> u64"
    and add :: "string \<Rightarrow> u64 \<Rightarrow> 'r \<Rightarrow> int \<times> 'r"
    and rem :: "string \<Rightarrow> 'r \<Rightarrow> bool \<times> 'r"
    and used :: "string \<Rightarrow> 'r \<Rightarrow> bool"
  assumes get_look: "get i r = (case look r i of None \<Rightarrow> 0 | Some a \<Rightarrow> a)"
    and look_nonnull: "look r i \<noteq> Some 0"
    and add_used: "used i r \<Longrightarrow> add i a r = (-1, r)"
    and add_new: "\<not> used i r \<Longrightarrow> a \<noteq> 0 \<Longrightarrow> \<exists>r'. add i a r = (0, r') \<and> look r' = (look r)(i \<mapsto> a)"
    and rem_look: "look (snd (rem i r)) = (look r)(i := None)"
    and look_used: "look r i \<noteq> None \<Longrightarrow> used i r"
begin

lemma get_zero: "get i r = 0 \<longleftrightarrow> look r i = None"
  using look_nonnull [of r i] by (auto simp: get_look split: option.splits)

lemma get_Some: "look r i = Some a \<Longrightarrow> get i r = a \<and> a \<noteq> 0"
  using look_nonnull [of r i] by (auto simp: get_look)

lemma add_look:
  assumes "add i a r = (n, r')" and "a \<noteq> 0"
  shows "look r' = (if used i r then look r else (look r)(i \<mapsto> a)) \<and> n = (if used i r then -1 else 0)"
  using assms add_used [of i r a] add_new [of i r a] by (cases "used i r") auto

lemma add_rem: "\<not> used i r \<Longrightarrow> a \<noteq> 0 \<Longrightarrow> look (snd (rem i (snd (add i a r)))) = (look r)(i := None)"
  using add_new [of i r a] by (auto simp: rem_look)

end

definition reg_map :: "registry \<Rightarrow> string \<Rightarrow> u64 option" where
  "reg_map r uid = (case map_of r uid of None \<Rightarrow> None | Some a \<Rightarrow> if a = 0 then None else Some a)"

definition reg_used :: "string \<Rightarrow> registry \<Rightarrow> bool" where
  "reg_used uid r \<longleftrightarrow> map_of r uid \<noteq> None"

interpretation reg: registry_spec reg_map reg_get reg_add reg_remove reg_used
  by unfold_locales
    (auto simp: reg_map_def reg_get_def reg_add_def reg_remove_def reg_used_def fun_eq_iff delete_conv' split: option.splits)

section \<open>Identifiers\<close>

definition hex_digit :: "nat \<Rightarrow> char" where
  "hex_digit n = ''0123456789abcdef'' ! (n mod 16)"

definition hex_byte :: "u8 \<Rightarrow> string" where
  "hex_byte b = [hex_digit (unat b div 16), hex_digit (unat b)]"

text \<open>\<open>generate_uuid_v4\<close> of 16 random bytes.\<close>

definition set_uuid_bits :: "u8 list \<Rightarrow> u8 list" where
  "set_uuid_bits bs =
     (let bs = bs[6 := (bs ! 6 AND 0x0F) OR 0x40] in bs[8 := (bs ! 8 AND 0x3F) OR 0x80])"

definition generate_uuid_v4 :: "u8 list \<Rightarrow> string" where
  "generate_uuid_v4 bs = concat (map (\<lambda>(i, b). hex_byte b @ (if i \<in> {3, 5, 7, 9} then ''-'' else []))
     (enumerate 0 (set_uuid_bits bs)))"

section \<open>State\<close>

record BridgeConfig =
  bc_type :: string
  bc_kind :: kind
  bc_conn_config :: Config
  bc_ip_addr :: string
  bc_port :: u16
  bc_mcast_sip_addr :: string
  bc_transport :: int
  bc_payload_type :: u8
  bc_rdma_remote_ip_addr :: string
  bc_rdma_port :: u16

record GroupConfig =
  gc_conn_ids :: "string list"
  gc_bridge_ids :: "string list"

record mp_config =
  mp_groups :: "(string \<times> GroupConfig) list"
  mp_bridges :: "(string \<times> BridgeConfig) list"

datatype part = PLocal local | PSt st2110 | PRdmaTx rdma | PRdmaRx rdma_rx

datatype mgr_call = RandomBytes | RegisterConnection string string Config | UnregisterConnection string
  | StartAsync | StrDup string | FreeStr nat

record mgr_res =
  mg_ret :: int
  mg_bytes :: "u8 list"
  mg_ptr :: nat
  mg_id :: string
  mg_err :: string

type_synonym mgr_trace = "(mgr_call, mgr_res) trace"
type_synonym mgr_env = "(mgr_call, mgr_res) environ"

text \<open>The members of the managers (\<open>px_sdk\<close> and \<open>px_local\<close> are \<open>registry_sdk\<close> and \<open>registry\<close> of the local
  manager, \<open>px_bridges\<close> that of the bridges, \<open>px_groups\<close> and \<open>px_cfg\<close> belong to the group manager), the
  statics of the connection classes, and the traces. \<open>px_dying\<close> are the bridges whose shutdown thread
  has been started.\<close>

record proxy =
  px_world :: world
  px_parts :: "u64 \<Rightarrow> part option"
  px_ids :: "u64 \<Rightarrow> string"
  px_conf :: "u64 \<Rightarrow> Config"
  px_sdk :: registry
  px_local :: registry
  px_bridges :: registry
  px_groups :: registry
  px_cfg :: mp_config
  px_dying :: "u64 list"
  px_session_id :: int
  px_mtl_dev :: nat
  px_rdma_users :: int
  px_mgr :: mgr_trace
  px_shm :: sdk_trace
  px_mtl :: mtl_trace
  px_fab :: fab_trace

text \<open>What the managers use of their surroundings: the allocator, the order of hash maps, the outside
  calls, and the settings of the process (\<open>config::proxy\<close>).\<close>

record mgr =
  m_alloc :: "world \<Rightarrow> u64"
  m_ord :: "string list \<Rightarrow> string list"
  m_env :: mgr_env
  m_shm :: sdk_env
  m_mtl :: mtl_env
  m_mtl_fns :: mtl_fns
  m_fab :: fab_env
  m_consts :: fi_consts
  m_st_dev_port :: string
  m_st_ip :: string
  m_rdma_ip :: string

abbreviation (input) CONN_KIND_TRANSMITTER :: int where "CONN_KIND_TRANSMITTER \<equiv> 0"

section \<open>Local connections\<close>

text \<open>Up to \<open>n\<close> attempts at an identifier the SDK registry does not have.\<close>

fun reserve_id :: "nat \<Rightarrow> mgr \<Rightarrow> string \<Rightarrow> proxy \<Rightarrow> bool \<times> string \<times> proxy" where
  "reserve_id 0 m uid P = (False, uid, P)"
| "reserve_id (Suc n) m uid P =
     (let (r, tr) = ext_call (m_env m) RandomBytes (px_mgr P);
          uid = generate_uuid_v4 (mg_bytes r);
          (err, sdk) = reg_add uid 0 (px_sdk P);
          P = P\<lparr>px_mgr := tr, px_sdk := sdk\<rparr>
      in if err = 0 then (True, uid, P) else reserve_id n m uid P)"

fun log2_floor :: "nat \<Rightarrow> nat" where
  "log2_floor n = (if n < 2 then 0 else Suc (log2_floor (n div 2)))"

declare log2_floor.simps [simp del]

definition sdk_memif_ops :: "Config \<Rightarrow> string \<Rightarrow> memif_ops" where
  "sdk_memif_ops cfg uid = (let n = ''memif_'' @ cfg_kind2str cfg @ ''_'' @ uid in
     \<lparr>mo_app_name = strlcpy n 32, mo_interface_name = strlcpy n 32, mo_interface_id = 0,
      mo_socket_path = strlcpy (''/run/mcm/media_proxy_'' @ cfg_kind2str cfg @ ''_'' @ uid @ ''.sock'') 108\<rparr>)"

definition ring_size_of :: "Config \<Rightarrow> u8" where
  "ring_size_of cfg = (if x_buf_queue_capacity cfg \<noteq> 0
     then of_nat (log2_floor (unat (x_buf_queue_capacity cfg))) else 0)"

text \<open>An application that sends needs a receiver in the proxy, and the agent is told so.\<close>

definition new_local_for :: "Config \<Rightarrow> local" where
  "new_local_for cfg = (if x_kind cfg = CONN_KIND_TRANSMITTER then new_local_rx else new_local_tx)"

definition agent_kind :: "Config \<Rightarrow> string" where
  "agent_kind cfg = (if x_kind cfg = CONN_KIND_TRANSMITTER then ''rx'' else ''tx'')"

text \<open>\<open>Connection::establish\<close> and \<open>Connection::shutdown\<close> of a local connection.\<close>

definition local_establish :: "sdk_env \<Rightarrow> local \<Rightarrow> sdk_trace \<Rightarrow> result \<times> local \<times> sdk_trace" where
  "local_establish env L tr =
     (if o_state (lc_conn L) = configured \<or> o_state (lc_conn L) = closed_st then
        let (r, L, tr) = local_on_establish env (lc_set_state establishing L) tr;
            (r, L) = lc_result r L
        in (r, L, tr)
      else let (r, L) = lc_result error_wrong_state L in (r, L, tr))"

definition local_shutdown :: "mgr \<Rightarrow> u64 \<Rightarrow> proxy \<Rightarrow> proxy run" where
  "local_shutdown m a P = (case (w_objs (px_world P) a, px_parts P a) of
      (Some c, Some (PLocal L)) \<Rightarrow>
        if o_state c = closed_st then Ret P
        else if o_state c = deleting then Ret (P\<lparr>px_world := note_result a error_wrong_state (px_world P)\<rparr>)
        else (case local_on_shutdown (m_shm m) (L\<lparr>lc_conn := set_state closing c\<rparr>) (px_shm P) of
            None \<Rightarrow> Crash
          | Some (r, L, tr) \<Rightarrow>
              Ret (P\<lparr>px_world := note_result a r (put_obj a (lc_conn L) (px_world P)),
                     px_parts := (px_parts P)(a \<mapsto> PLocal L), px_shm := tr\<rparr>))
    | _ \<Rightarrow> Crash)"

definition delete_conn :: "u64 \<Rightarrow> proxy \<Rightarrow> proxy" where
  "delete_conn a P = P\<lparr>px_world := delete_obj a (px_world P), px_parts := (px_parts P)(a := None)\<rparr>"

text \<open>\<open>create_connection_sdk\<close>: the result, the identifier, the parameters for the application and the
  error message. \<open>has_param\<close> is the test of the first pointer. The new object is visible to others only
  when it is registered, so it enters the store there.\<close>

definition create_connection_sdk ::
  "mgr \<Rightarrow> bool \<Rightarrow> Config \<Rightarrow> proxy \<Rightarrow> (int \<times> string \<times> memif_conn_param option \<times> string) \<times> proxy" where
  "create_connection_sdk m has_param cfg P =
     (if \<not> has_param then ((-1, [], None, []), P) else
      let (found, uid, P) = reserve_id 5 m [] P in
      if \<not> found then ((-1, uid, None, []), P) else
      let P0 = P\<lparr>px_sdk := snd (reg_remove uid (px_sdk P))\<rparr>;
          a = m_alloc m (px_world P)
      in if a = 0 then ((- ENOMEM, uid, None, []), P0) else
      let ops = sdk_memif_ops cfg uid;
          (res, L) = configure_memif ops (Some ops) (total_size (x_buf_parts cfg)) (ring_size_of cfg) (new_local_for cfg)
      in if res \<noteq> success then ((-1, uid, None, []), P0) else
      let (r, tr) = ext_call (m_env m) (RegisterConnection [] (agent_kind cfg) cfg) (px_mgr P);
          P = P\<lparr>px_mgr := tr\<rparr>;
          P0 = P0\<lparr>px_mgr := tr\<rparr>
      in if mg_ret r \<noteq> 0 then ((-1, uid, None, mg_err r), P0) else
      let (res, L, tr) = local_establish (m_shm m) L (px_shm P)
      in if res \<noteq> success then ((-1, uid, None, mg_err r), P0\<lparr>px_shm := tr\<rparr>) else
      ((0, uid, Some (get_params L), mg_err r),
       P\<lparr>px_shm := tr, px_world := put_obj a (lc_conn L) (px_world P), px_parts := (px_parts P)(a \<mapsto> PLocal L),
         px_ids := (px_ids P)(a := mg_id r), px_conf := (px_conf P)(a := cfg),
         px_sdk := reg_replace uid a (px_sdk P), px_local := snd (reg_add (mg_id r) a (px_local P))\<rparr>))"

definition activate_connection_sdk :: "string \<Rightarrow> proxy \<Rightarrow> (int \<times> proxy) run" where
  "activate_connection_sdk uid P =
     (let a = reg_get uid (px_sdk P) in
      if a = 0 then Ret (-1, P) else
      (case w_objs (px_world P) a of
         None \<Rightarrow> Crash
       | Some c \<Rightarrow> Ret (0, P\<lparr>px_world := put_obj a (snd (resume c)) (px_world P)\<rparr>)))"

definition unlink_conn :: "mgr \<Rightarrow> u64 \<Rightarrow> proxy \<Rightarrow> proxy run" where
  "unlink_conn m a P = rbind (unlink (m_alloc m) a (px_world P)) (\<lambda>w. Ret (P\<lparr>px_world := w\<rparr>))"

definition delete_connection_sdk :: "mgr \<Rightarrow> string \<Rightarrow> bool \<Rightarrow> proxy \<Rightarrow> (int \<times> proxy) run" where
  "delete_connection_sdk m uid do_unregister P =
     (let a = reg_get uid (px_sdk P) in
      if a = 0 then Ret (-1, P)
      else if w_objs (px_world P) a = None then Crash else
      let cid = px_ids P a;
          P = (if do_unregister
               then P\<lparr>px_mgr := snd (ext_call (m_env m) (UnregisterConnection cid) (px_mgr P))\<rparr> else P)
      in rbind (unlink_conn m a P) (\<lambda>P.
         let P = P\<lparr>px_local := snd (reg_remove cid (px_local P)), px_sdk := snd (reg_remove uid (px_sdk P))\<rparr>
         in rbind (local_shutdown m a P) (\<lambda>P. Ret (0, delete_conn a P))))"

fun reregister_conns :: "mgr \<Rightarrow> string list \<Rightarrow> proxy \<Rightarrow> proxy run" where
  "reregister_conns m [] P = Ret P"
| "reregister_conns m (uid # ids) P =
     (let a = reg_get uid (px_sdk P) in
      if a = 0 then reregister_conns m ids P
      else if w_objs (px_world P) a = None then Crash else
      let cfg = px_conf P a;
          (r, tr) = ext_call (m_env m) (RegisterConnection (px_ids P a) (agent_kind cfg) cfg) (px_mgr P);
          P = P\<lparr>px_mgr := tr\<rparr>
      in if mg_ret r = 0 then reregister_conns m ids P
         else rbind (delete_connection_sdk m uid False P) (\<lambda>(_, P). reregister_conns m ids P))"

definition reregister_all_connections :: "mgr \<Rightarrow> proxy \<Rightarrow> proxy run" where
  "reregister_all_connections m P = reregister_conns m (reg_get_all_ids (m_ord m) (px_sdk P)) P"

fun delete_conns :: "mgr \<Rightarrow> string list \<Rightarrow> proxy \<Rightarrow> proxy run" where
  "delete_conns m [] P = Ret P"
| "delete_conns m (uid # ids) P = rbind (delete_connection_sdk m uid True P) (\<lambda>(_, P). delete_conns m ids P)"

definition local_manager_shutdown :: "mgr \<Rightarrow> proxy \<Rightarrow> proxy run" where
  "local_manager_shutdown m P = delete_conns m (reg_get_all_ids (m_ord m) (px_sdk P)) P"

section \<open>Bridges\<close>

definition getGroupURN :: "string \<Rightarrow> string" where
  "getGroupURN group_id = takeWhile (\<lambda>c. c \<noteq> CHR ''/'') group_id"

fun part_conn :: "part \<Rightarrow> conn_obj" where
  "part_conn (PLocal L) = lc_conn L"
| "part_conn (PSt s) = st_conn s"
| "part_conn (PRdmaTx rd) = rd_conn rd"
| "part_conn (PRdmaRx rd) = rd_conn rd"

fun part_with :: "conn_obj \<Rightarrow> part \<Rightarrow> part" where
  "part_with c (PLocal L) = PLocal (L\<lparr>lc_conn := c\<rparr>)"
| "part_with c (PSt s) = PSt (s\<lparr>st_conn := c\<rparr>)"
| "part_with c (PRdmaTx rd) = PRdmaTx (rd\<lparr>rd_conn := c\<rparr>)"
| "part_with c (PRdmaRx rd) = PRdmaRx (rd\<lparr>rd_conn := c\<rparr>)"

text \<open>What the branches of \<open>create_bridge\<close> leave: an error to return, a configured bridge, or the pointer
  \<open>bridge\<close> as it was.\<close>

datatype made = MadeErr int | Made part | Unset

definition st_mesh_config :: "mgr \<Rightarrow> BridgeConfig \<Rightarrow> MeshConfig_ST2110" where
  "st_mesh_config m b =
     \<lparr>ms_remote_ip_addr = strlcpy (bc_ip_addr b) 253,
      ms_remote_port = (if bc_kind b = Ktransmitter then bc_port b else 0),
      ms_local_ip_addr = strlcpy (m_st_ip m) 253,
      ms_local_port = (if bc_kind b = Kreceiver then bc_port b else 0),
      ms_mcast_sip_addr = strlcpy (bc_mcast_sip_addr b) 253, ms_transport = bc_transport b,
      ms_transport_format = 0, ms_payload_type = bc_payload_type b\<rparr>"

definition st_video :: "Config \<Rightarrow> MeshConfig_Video" where
  "st_video c = \<lparr>mv_width = x_width c, mv_height = x_height c, mv_fps = x_fps c, mv_pixel_format = x_pixel_format c\<rparr>"

definition st_audio :: "Config \<Rightarrow> MeshConfig_Audio" where
  "st_audio c = \<lparr>ma_channels = x_channels c, ma_sample_rate = x_sample_rate c, ma_format = x_format c,
     ma_packet_time = x_packet_time c\<rparr>"

definition st_configure ::
  "mgr \<Rightarrow> st_standard \<Rightarrow> BridgeConfig \<Rightarrow> int \<Rightarrow> st2110 \<Rightarrow> result \<times> int \<times> st2110" where
  "st_configure m std b sid s =
     (let M = m_mtl_fns m; port = m_st_dev_port m; cfg = st_mesh_config m b; c = bc_conn_config b in
      case std of
        ST20 \<Rightarrow> configure_20 M port cfg (st_video c) sid s
      | ST22 \<Rightarrow> configure_22 M port cfg (st_video c) sid s
      | ST30 \<Rightarrow> configure_30 M port cfg (st_audio c) sid s)"

definition st_standard_of :: "int \<Rightarrow> st_standard option" where
  "st_standard_of t = (if t = 0 then Some ST20 else if t = 1 then Some ST22 else if t = 2 then Some ST30 else None)"

definition make_st_bridge :: "mgr \<Rightarrow> BridgeConfig \<Rightarrow> proxy \<Rightarrow> made \<times> proxy" where
  "make_st_bridge m b P = (case st_standard_of (bc_transport b) of
      None \<Rightarrow> (Unset, P)
    | Some std \<Rightarrow>
        if bc_kind b = Kundefined then (MadeErr (-1), P)
        else if m_alloc m (px_world P) = 0 then (MadeErr (- ENOMEM), P) else
        let s = new_st2110 std (bc_kind b) (config0\<lparr>x_buf_parts := x_buf_parts (bc_conn_config b)\<rparr>);
            (r, sid, s) = st_configure m std b (px_session_id P) s;
            P = P\<lparr>px_session_id := sid\<rparr>
        in if r \<noteq> success then (MadeErr (-1), P) else (Made (PSt s), P))"

definition rdma_args_of :: "BridgeConfig \<Rightarrow> nat \<Rightarrow> mcm_rdma_args" where
  "rdma_args_of b p = (let c = bc_conn_config b in
     \<lparr>transfer_size = total_size (x_buf_parts c), queue_size = 16,
      provider = (if p = 0 then None else Some (x_provider c)), num_endpoints = x_num_endpoints c\<rparr>)"

text \<open>\<open>destroy_part\<close> is the destructor of a derived class.\<close>

definition destroy_part :: "mgr \<Rightarrow> part \<Rightarrow> proxy \<Rightarrow> proxy" where
  "destroy_part m p P = (case p of
      PRdmaTx rd \<Rightarrow> (let (n, tr) = rdma_destroy (m_fab m) (px_rdma_users P) rd (px_fab P)
                    in P\<lparr>px_rdma_users := n, px_fab := tr\<rparr>)
    | PRdmaRx rd \<Rightarrow> (let (n, tr) = rdma_destroy (m_fab m) (px_rdma_users P) rd (px_fab P)
                    in P\<lparr>px_rdma_users := n, px_fab := tr\<rparr>)
    | _ \<Rightarrow> P)"

text \<open>Without memory for an egress bridge the copy of the provider's name is not freed.\<close>

definition make_rdma_bridge :: "mgr \<Rightarrow> BridgeConfig \<Rightarrow> proxy \<Rightarrow> made \<times> proxy" where
  "make_rdma_bridge m b P =
     (let (d, tr) = ext_call (m_env m) (StrDup (x_provider (bc_conn_config b))) (px_mgr P);
          P = P\<lparr>px_mgr := tr\<rparr>;
          freed = P\<lparr>px_mgr := snd (ext_call (m_env m) (FreeStr (mg_ptr d)) tr)\<rparr>;
          args = rdma_args_of b (mg_ptr d);
          la = strlcpy (m_rdma_ip m) 46; ra = strlcpy (bc_rdma_remote_ip_addr b) 46;
          port = dec (unat (bc_rdma_port b))
      in case bc_kind b of
           Ktransmitter \<Rightarrow>
             if m_alloc m (px_world P) = 0 then (MadeErr (- ENOMEM), P) else
             let freed = freed\<lparr>px_rdma_users := px_rdma_users P + 1\<rparr>;
                 (r, rd) = rdma_configure args \<lparr>addr_ip = la, addr_port = []\<rparr> \<lparr>addr_ip = ra, addr_port = port\<rparr> None new_rdma_tx
             in if r \<noteq> success then (MadeErr (-1), destroy_part m (PRdmaTx rd) freed) else (Made (PRdmaTx rd), freed)
         | Kreceiver \<Rightarrow>
             if m_alloc m (px_world P) = 0 then (MadeErr (- ENOMEM), freed) else
             let freed = freed\<lparr>px_rdma_users := px_rdma_users P + 1\<rparr>;
                 (r, rd) = rdma_configure args \<lparr>addr_ip = la, addr_port = port\<rparr> \<lparr>addr_ip = ra, addr_port = []\<rparr> None new_rdma_rx
             in if r \<noteq> success then (MadeErr (-1), destroy_part m (PRdmaRx rd) freed) else (Made (PRdmaRx rd), freed)
         | Kundefined \<Rightarrow> (MadeErr (-1), freed))"

text \<open>\<open>create_bridge\<close>: the result and the bridge. Establishing it through a pointer that no branch has set
  is undefined, here \<open>Crash\<close>. The new object enters the store when its thread may run.\<close>

definition create_bridge :: "mgr \<Rightarrow> string \<Rightarrow> BridgeConfig \<Rightarrow> proxy \<Rightarrow> (int \<times> u64 \<times> proxy) run" where
  "create_bridge m uid b P =
     (let a = m_alloc m (px_world P);
          (p, P) = (if bc_type b = ''st2110'' then make_st_bridge m b P
                    else if bc_type b = ''rdma'' then make_rdma_bridge m b P else (Unset, P))
      in case p of
           Unset \<Rightarrow> Crash
         | MadeErr e \<Rightarrow> Ret (e, 0, P)
         | Made p \<Rightarrow>
             let (t, tr) = ext_call (m_env m) StartAsync (px_mgr P);
                 P = P\<lparr>px_mgr := tr\<rparr>;
                 (res, c) = establish_async (mg_ret t = 0) (part_conn p)
             in if res \<noteq> success then Ret (-1, 0, destroy_part m p P) else
             Ret (0, a, P\<lparr>px_world := put_obj a c (px_world P), px_parts := (px_parts P)(a \<mapsto> part_with c p),
               px_ids := (px_ids P)(a := uid), px_bridges := snd (reg_add uid a (px_bridges P))\<rparr>))"

text \<open>\<open>shutdown_async\<close>: a bridge that is already closed gets no thread, and nothing deletes it.\<close>

definition bridge_shutdown_async :: "mgr \<Rightarrow> u64 \<Rightarrow> proxy \<Rightarrow> proxy run" where
  "bridge_shutdown_async m a P = (case w_objs (px_world P) a of
      None \<Rightarrow> Crash
    | Some c \<Rightarrow>
        if o_state c = closed_st \<or> o_state c = deleting
        then Ret (P\<lparr>px_world := put_obj a (snd (shutdown_async False c)) (px_world P)\<rparr>) else
        let (t, tr) = ext_call (m_env m) StartAsync (px_mgr P);
            ok = (mg_ret t = 0)
        in Ret (P\<lparr>px_mgr := tr, px_world := put_obj a (snd (shutdown_async ok c)) (px_world P),
             px_dying := (if ok then a # px_dying P else px_dying P)\<rparr>))"

definition delete_bridge :: "mgr \<Rightarrow> string \<Rightarrow> proxy \<Rightarrow> (int \<times> proxy) run" where
  "delete_bridge m uid P =
     (let a = reg_get uid (px_bridges P) in
      if a = 0 then Ret (-1, P) else
      rbind (unlink_conn m a P) (\<lambda>P.
      rbind (bridge_shutdown_async m a (P\<lparr>px_bridges := snd (reg_remove uid (px_bridges P))\<rparr>)) (\<lambda>P.
      Ret (0, P))))"

fun delete_bridges :: "mgr \<Rightarrow> string list \<Rightarrow> proxy \<Rightarrow> proxy run" where
  "delete_bridges m [] P = Ret P"
| "delete_bridges m (uid # ids) P = rbind (delete_bridge m uid P) (\<lambda>(_, P). delete_bridges m ids P)"

definition bridges_manager_shutdown :: "mgr \<Rightarrow> proxy \<Rightarrow> proxy run" where
  "bridges_manager_shutdown m P = delete_bridges m (reg_get_all_ids (m_ord m) (px_bridges P)) P"

text \<open>The threads of a bridge: \<open>on_establish\<close> after \<open>establish_async\<close>, and \<open>on_shutdown\<close> with the deletion
  of the object after \<open>shutdown_async\<close>.\<close>

definition bridge_establish_thread :: "mgr \<Rightarrow> u64 \<Rightarrow> proxy \<Rightarrow> proxy run" where
  "bridge_establish_thread m a P = (case (w_objs (px_world P) a, px_parts P a) of
      (Some c, Some p) \<Rightarrow>
        (case part_with c p of
           PSt s \<Rightarrow> (let (_, dev, s, tr) = st_on_establish (m_mtl_fns m) (m_mtl m) (px_mtl_dev P) s (px_mtl P) in
             Ret (P\<lparr>px_mtl_dev := dev, px_mtl := tr, px_world := put_obj a (st_conn s) (px_world P),
               px_parts := (px_parts P)(a \<mapsto> PSt s)\<rparr>))
         | PRdmaTx rd \<Rightarrow> (let (_, rd, tr) = rdma_on_establish (m_consts m) (m_fab m) rd (px_fab P) in
             Ret (P\<lparr>px_fab := tr, px_world := put_obj a (rd_conn rd) (px_world P),
               px_parts := (px_parts P)(a \<mapsto> PRdmaTx rd)\<rparr>))
         | PRdmaRx rd \<Rightarrow> (let (_, rd, tr) = rdma_on_establish (m_consts m) (m_fab m) rd (px_fab P) in
             Ret (P\<lparr>px_fab := tr, px_world := put_obj a (rd_conn rd) (px_world P),
               px_parts := (px_parts P)(a \<mapsto> PRdmaRx rd)\<rparr>))
         | PLocal L \<Rightarrow> Crash)
    | _ \<Rightarrow> Crash)"

definition bridge_shutdown_thread :: "mgr \<Rightarrow> u64 \<Rightarrow> proxy \<Rightarrow> proxy run" where
  "bridge_shutdown_thread m a P = (case (w_objs (px_world P) a, px_parts P a) of
      (Some c, Some p) \<Rightarrow>
        (let finish = (\<lambda>p P. delete_conn a (destroy_part m p (P\<lparr>px_dying := removeAll a (px_dying P)\<rparr>))) in
         case part_with c p of
           PSt s \<Rightarrow> (case st_on_shutdown (m_mtl m) s (px_mtl P) of
               None \<Rightarrow> Crash
             | Some (_, s, tr) \<Rightarrow> Ret (finish (PSt s) (P\<lparr>px_mtl := tr\<rparr>)))
         | PRdmaTx rd \<Rightarrow> (let (_, rd, tr) = rdma_on_shutdown (m_fab m) rd (px_fab P) in
             Ret (finish (PRdmaTx rd) (P\<lparr>px_fab := tr\<rparr>)))
         | PRdmaRx rd \<Rightarrow> (let (_, rd, tr) = rdma_on_shutdown (m_fab m) rd (px_fab P) in
             Ret (finish (PRdmaRx rd) (P\<lparr>px_fab := tr\<rparr>)))
         | PLocal L \<Rightarrow> Crash)
    | _ \<Rightarrow> Crash)"

end
