(* ===== verification/Proxy_State.thy ===== *)
theory Proxy_State
  imports Managers
begin

text \<open>
  What holds of the proxy's managers between two operations: the links of the registered
  connections and bridges show the groups they belong to (theory \<open>Membership\<close>), and what is in the
  registries can be used and deleted. Each operation of the local manager and of the bridges manager
  is shown to keep this and to follow no dangling pointer.
\<close>

section \<open>The invariant\<close>

text \<open>Local connections are named \<open>Inl\<close> of their identifier, bridges \<open>Inr\<close> of theirs.\<close>

type_synonym member = "string + string"

definition px_M :: "proxy \<Rightarrow> member \<Rightarrow> u64 option" where
  "px_M P = case_sum (reg_map (px_local P)) (reg_map (px_bridges P))"

definition px_G :: "proxy \<Rightarrow> string \<Rightarrow> u64 option" where
  "px_G P = reg_map (px_groups P)"

lemma px_M_simps [simp]: "px_M P (Inl c) = reg_map (px_local P) c" "px_M P (Inr b) = reg_map (px_bridges P) b"
  by (simp_all add: px_M_def)

definition reg_ok :: "registry \<Rightarrow> bool" where
  "reg_ok r \<longleftrightarrow> list_all (\<lambda>(i, a). a \<noteq> 0) r"

text \<open>A registered local connection has a running thread, knows its identifier, and every entry of the
  SDK registry leads to one.\<close>

definition locals_ok :: "proxy \<Rightarrow> bool" where
  "locals_ok P \<longleftrightarrow>
     (\<forall>c a. reg_map (px_local P) c = Some a \<longrightarrow>
        (\<exists>L. px_parts P a = Some (PLocal L) \<and> lc_thread L) \<and> px_ids P a = c) \<and>
     (\<forall>u a. reg_map (px_sdk P) u = Some a \<longrightarrow> reg_map (px_local P) (px_ids P a) = Some a) \<and>
     (\<forall>u v a. reg_map (px_sdk P) u = Some a \<and> reg_map (px_sdk P) v = Some a \<longrightarrow> u = v)"

text \<open>A bridge whose shutdown thread has not ended still exists, and no registry leads to it.\<close>

definition plain :: "(u64 \<Rightarrow> node option) \<Rightarrow> u64 set" where
  "plain N = {a. \<exists>n. N a = Some n \<and> \<not> n_group n}"

lemma plain_iff: "a \<in> plain N \<longleftrightarrow> (\<exists>n. N a = Some n \<and> \<not> n_group n)"
  by (simp add: plain_def)

definition dying_ok :: "proxy \<Rightarrow> bool" where
  "dying_ok P \<longleftrightarrow> set (px_dying P) \<subseteq> plain (nodes (px_world P)) \<and> (\<forall>i a. px_M P i = Some a \<longrightarrow> a \<notin> set (px_dying P))"

lemma dying_ok_upd:
  assumes "dying_ok P" and "px_dying P' = px_dying P"
    and "\<And>a. a \<in> set (px_dying P) \<Longrightarrow> a \<in> plain (nodes (px_world P)) \<Longrightarrow> a \<in> plain (nodes (px_world P'))"
    and "\<And>i a. px_M P' i = Some a \<Longrightarrow> px_M P i = Some a \<or> a \<notin> plain (nodes (px_world P))"
  shows "dying_ok P'"
  using assms(1,3,4) unfolding dying_ok_def assms(2) by blast

lemma dying_ok_world:
  assumes "dying_ok P" and "\<And>a. a \<in> plain (nodes (px_world P)) \<Longrightarrow> a \<in> plain (nodes w)"
  shows "dying_ok (P\<lparr>px_world := w\<rparr>)"
  by (rule dying_ok_upd [OF assms(1)]) (use assms(2) in \<open>auto simp: px_M_def\<close>)

definition px_inv :: "(member \<Rightarrow> string option) \<Rightarrow> string set \<Rightarrow> proxy \<Rightarrow> bool" where
  "px_inv V X P \<longleftrightarrow> plane_ok (px_world P) \<and> members_ok (px_M P) (px_G P) V X (nodes (px_world P)) \<and>
     locals_ok P \<and> reg_ok (px_local P) \<and> reg_ok (px_bridges P) \<and> reg_ok (px_groups P) \<and> dying_ok P"

lemma px_invD:
  assumes "px_inv V X P"
  shows "plane_ok (px_world P)" "members_ok (px_M P) (px_G P) V X (nodes (px_world P))" "locals_ok P"
    "reg_ok (px_local P)" "reg_ok (px_bridges P)" "reg_ok (px_groups P)" "dying_ok P"
  using assms by (simp_all add: px_inv_def)

lemma px_inv_cong: "px_inv V X P \<Longrightarrow> (\<And>i. px_M P i \<noteq> None \<Longrightarrow> V i = V' i) \<Longrightarrow> px_inv V' X P"
  by (auto simp: px_inv_def elim: members_ok_cong)

lemma reg_ok_simps [simp]:
  "reg_ok r \<Longrightarrow> a \<noteq> 0 \<Longrightarrow> reg_ok (snd (reg_add i a r))" "reg_ok r \<Longrightarrow> reg_ok (snd (reg_remove i r))"
  by (auto simp: reg_ok_def reg_add_def reg_remove_def AList.delete_eq list_all_iff)

lemma reg_ok_used: "reg_ok r \<Longrightarrow> reg_used i r \<longleftrightarrow> reg_map r i \<noteq> None"
  by (auto simp: reg_ok_def reg_used_def reg_map_def list_all_iff split: option.splits dest!: map_of_SomeD)

lemma reg_add_fresh:
  assumes "reg_ok r" and "reg_map r i = None" and "a \<noteq> 0"
  shows "reg_map (snd (reg_add i a r)) = (reg_map r)(i \<mapsto> a)" "fst (reg_add i a r) = 0"
  using reg.add_new [of i r a] reg_ok_used [OF assms(1), of i] assms(2,3) by auto

lemma locals_ok_upd:
  assumes "locals_ok P" and "px_sdk P' = px_sdk P" and "px_local P' = px_local P"
    and "\<And>c a. reg_map (px_local P) c = Some a \<Longrightarrow> px_parts P' a = px_parts P a \<and> px_ids P' a = px_ids P a"
  shows "locals_ok P'"
proof -
  have "px_ids P' a = px_ids P a" if "reg_map (px_sdk P) u = Some a" for u a
    using assms(1,4) that unfolding locals_ok_def by blast
  then show ?thesis using assms unfolding locals_ok_def by metis
qed

section \<open>Leaving groups\<close>

lemma px_node:
  assumes "px_inv V X P" and "px_M P i = Some a"
  obtains n where "nodes (px_world P) a = Some n" "\<not> n_group n" "n_kind n \<noteq> Kundefined" "a \<noteq> 0"
    "member_node_ok (px_G P) (V i) n"
proof -
  obtain n where n: "nodes (px_world P) a = Some n" "member_node_ok (px_G P) (V i) n"
    using members_okD(2) [OF px_invD(2) [OF assms(1)] assms(2)] by blast
  moreover have "a \<noteq> 0" using members_okD(1) [OF px_invD(2) [OF assms(1)]] n(1) by auto
  ultimately show thesis using that by (auto simp: member_node_ok_def)
qed

lemma unlink_conn_inv:
  assumes "px_inv V X P" and "alloc_ok (m_alloc m)" and "px_M P i = Some a"
  shows "runs (\<lambda>P'. px_inv (V(i := None)) X P' \<and> P' = P\<lparr>px_world := px_world P'\<rparr>) (unlink_conn m a P)"
proof -
  let ?w = "px_world P"
  obtain n where n: "nodes ?w a = Some n" "\<not> n_group n" "member_node_ok (px_G P) (V i) n"
    using px_node [OF assms(1,3)] by metis
  have mo: "members_ok (px_M P) (px_G P) V X (nodes ?w)" by (rule px_invD(2) [OF assms(1)])
  obtain g where g: "n_link n \<noteq> 0 \<Longrightarrow> nodes ?w (n_link n) = Some g \<and> n_group g"
  proof (cases "n_link n = 0")
    case False
    then obtain h where "px_G P h = Some (n_link n)" using n(3) by (auto simp: member_node_ok_def split: option.splits)
    then show thesis using members_okD(4) [OF mo] that by (auto simp: group_node_ok_def)
  qed (use that in blast)
  have "runs (\<lambda>w'. plane_ok w' \<and> members_ok (px_M P) (px_G P) (V(i := None)) X (nodes w') \<and> plain (nodes w') = plain (nodes ?w))
      (unlink (m_alloc m) a ?w)"
    by (rule runs_mono [OF unlink_ok [OF px_invD(1) [OF assms(1)] assms(2) n(1,2), of g]])
       (use g n members_ok_leave [OF mo assms(3) n(1), of g] in \<open>auto simp: plain_iff set_link_node_def split: if_splits\<close>)
  then show ?thesis unfolding unlink_conn_def
    by (rule runs_bind) (use assms(1) in \<open>auto simp: px_inv_def px_M_def px_G_def locals_ok_def intro!: dying_ok_world\<close>)
qed

section \<open>Bridges\<close>

lemma shutdown_async_node [simp]: "\<not> n_group (node_of c) \<Longrightarrow> node_of (snd (shutdown_async ok c)) = node_of c"
  by (auto simp: shutdown_async_def node_of_state split: state.splits)

lemma shutdown_async_sel [simp]:
  "o_link (snd (shutdown_async ok c)) = o_link c" "o_class (snd (shutdown_async ok c)) = o_class c"
  by (auto simp: shutdown_async_def split: state.splits)

lemma bridge_shutdown_async_ok:
  assumes "plane_ok (px_world P)" and "nodes (px_world P) a = Some n" and "\<not> n_group n"
  shows "runs (\<lambda>P'. plane_ok (px_world P') \<and> nodes (px_world P') = nodes (px_world P) \<and>
      P' = P\<lparr>px_world := px_world P', px_mgr := px_mgr P', px_dying := px_dying P'\<rparr> \<and>
      set (px_dying P') \<subseteq> insert a (set (px_dying P))) (bridge_shutdown_async m a P)"
proof -
  obtain c where c: "w_objs (px_world P) a = Some c" "n = node_of c" using assms(2) by (auto simp: nodes_def)
  have "dap_ready (o_link c)" using assms(1) c(1) by (auto simp: plane_ok_def)
  then have "plane_ok (put_obj a (snd (shutdown_async ok c)) (px_world P)) \<and>
      nodes (put_obj a (snd (shutdown_async ok c)) (px_world P)) = nodes (px_world P)" for ok
    using plane_ok_same [OF assms(1) c(1), of "snd (shutdown_async ok c)"] assms(2,3) c(2) by auto
  then show ?thesis using c(1) by (auto simp: bridge_shutdown_async_def Let_def split_def)
qed

lemma delete_bridge_inv:
  assumes "px_inv V X P" and "alloc_ok (m_alloc m)"
  shows "runs (\<lambda>(e, P'). px_inv V X P' \<and> px_M P' = (px_M P)(Inr b := None) \<and> px_G P' = px_G P \<and> px_cfg P' = px_cfg P \<and>
      px_local P' = px_local P \<and> px_sdk P' = px_sdk P \<and> px_groups P' = px_groups P) (delete_bridge m b P)"
proof (cases "reg_map (px_bridges P) b")
  case None
  then have "reg_get b (px_bridges P) = 0" by (simp add: reg.get_zero)
  moreover have "(px_M P)(Inr b := None) = px_M P" using None by (auto simp: fun_eq_iff)
  ultimately show ?thesis using assms(1) by (simp add: delete_bridge_def)
next
  case (Some a)
  then have a: "px_M P (Inr b) = Some a" "reg_get b (px_bridges P) = a" "a \<noteq> 0" using reg.get_Some [OF Some] by auto
  let ?M = "(px_M P)(Inr b := None)"
  let ?Q = "\<lambda>(e, P'). px_inv V X P' \<and> px_M P' = ?M \<and> px_G P' = px_G P \<and> px_cfg P' = px_cfg P \<and>
      px_local P' = px_local P \<and> px_sdk P' = px_sdk P \<and> px_groups P' = px_groups P"
  have "runs ?Q (rbind (unlink_conn m a P) (\<lambda>P.
      rbind (bridge_shutdown_async m a (P\<lparr>px_bridges := snd (reg_remove b (px_bridges P))\<rparr>)) (\<lambda>P. Ret (0, P))))"
  proof (rule runs_bind [OF unlink_conn_inv [OF assms a(1)]])
    fix P1 assume "px_inv (V(Inr b := None)) X P1 \<and> P1 = P\<lparr>px_world := px_world P1\<rparr>"
    then have i1: "px_inv (V(Inr b := None)) X P1" and e1: "P1 = P\<lparr>px_world := px_world P1\<rparr>" by auto
    have M1: "px_M P1 = px_M P" "px_G P1 = px_G P" by (subst e1, simp add: px_M_def px_G_def)+
    let ?P2 = "P1\<lparr>px_bridges := snd (reg_remove b (px_bridges P1))\<rparr>"
    have M2: "px_M ?P2 = ?M" unfolding M1(1) [symmetric]
      by (auto simp: px_M_def reg.rem_look fun_eq_iff split: sum.splits)
    obtain n where n: "nodes (px_world P1) a = Some n" "\<not> n_group n" using px_node [OF i1] a(1) M1(1) by metis
    have "runs (\<lambda>P'. plane_ok (px_world P') \<and> nodes (px_world P') = nodes (px_world ?P2) \<and>
      P' = ?P2\<lparr>px_world := px_world P', px_mgr := px_mgr P', px_dying := px_dying P'\<rparr> \<and>
      set (px_dying P') \<subseteq> insert a (set (px_dying ?P2))) (bridge_shutdown_async m a ?P2)"
      by (rule bridge_shutdown_async_ok) (use n px_invD(1) [OF i1] in auto)
    then show "runs ?Q (rbind (bridge_shutdown_async m a ?P2) (\<lambda>P. Ret (0, P)))"
    proof (rule runs_bind)
      fix P3
      assume "plane_ok (px_world P3) \<and> nodes (px_world P3) = nodes (px_world ?P2) \<and>
        P3 = ?P2\<lparr>px_world := px_world P3, px_mgr := px_mgr P3, px_dying := px_dying P3\<rparr> \<and>
        set (px_dying P3) \<subseteq> insert a (set (px_dying ?P2))"
      then have p3: "plane_ok (px_world P3)" "nodes (px_world P3) = nodes (px_world P1)"
        and e3: "P3 = ?P2\<lparr>px_world := px_world P3, px_mgr := px_mgr P3, px_dying := px_dying P3\<rparr>" and d3: "set (px_dying P3) \<subseteq> insert a (set (px_dying P1))" by auto
      have M3: "px_M P3 = ?M" "px_G P3 = px_G P" unfolding M2 [symmetric] M1(2) [symmetric]
        by (subst e3, simp add: px_M_def px_G_def)+
      have f3: "px_parts P3 = px_parts P1" "px_ids P3 = px_ids P1" "px_sdk P3 = px_sdk P1" "px_local P3 = px_local P1"
        "px_bridges P3 = px_bridges ?P2" "px_groups P3 = px_groups P1" "px_cfg P3 = px_cfg P1"
        by (subst e3, simp)+
      have f1: "px_cfg P1 = px_cfg P" "px_local P1 = px_local P" "px_sdk P1 = px_sdk P" "px_groups P1 = px_groups P"
        by (subst e1, simp)+
      have "members_ok ?M (px_G P) (V(Inr b := None)) X (nodes (px_world P1))"
        by (rule members_ok_drop [of "px_M P" _ _ _ "nodes (px_world P1)"]) (use px_invD(2) [OF i1] a(1) M1 in auto)
      moreover have "dying_ok P3"
      proof -
        have "i = Inr b" if "px_M P i = Some a" for i
          using members_okD(3) [OF px_invD(2) [OF assms(1)] that a(1)] .
        moreover have "a \<in> plain (nodes (px_world P1))" using n by (simp add: plain_iff)
        ultimately show ?thesis using px_invD(7) [OF i1] d3 p3(2) M1 unfolding dying_ok_def M3(1)
          by (auto split: if_splits)
      qed
      ultimately have "px_inv (V(Inr b := None)) X P3"
        using px_invD [OF i1] p3 M3 f3 by (auto simp: px_inv_def locals_ok_def)
      then have "px_inv V X P3" by (rule px_inv_cong) (auto simp: M3 split: if_splits)
      then show "runs ?Q (Ret (0, P3))" using M3 f1 f3 by simp
    qed
  qed
  then show ?thesis using a by (simp add: delete_bridge_def)
qed

text \<open>Making a bridge touches no object that exists; the new one is configured and not linked.\<close>

lemma set_transfer_conn: "set_transfer n s = (success, s') \<Longrightarrow> st_conn s' = set_state configured (st_conn s)"
  by (auto simp: set_transfer_def st_bad_def st_ok_def Let_def split: if_splits)

lemma configure_common_conn: "configure_common M port cfg sid s = (sid', s') \<Longrightarrow> st_conn s' = st_conn s"
  by (auto simp: configure_common_def Let_def mtl_get_session_id_def)

lemma st_configure_conn:
  assumes "st_configure m std b sid s = (success, sid', s')"
  shows "st_conn s' = set_state configured (st_conn s)"
proof (cases std)
  case ST20
  then show ?thesis using assms
    by (auto simp: st_configure_def configure_20_def Let_def st_bad_def set_video_def dest!: configure_common_conn set_transfer_conn
        split: if_splits prod.splits option.splits)
next
  case ST22
  then show ?thesis using assms
    by (auto simp: st_configure_def configure_22_def Let_def st_bad_def set_video_def dest!: configure_common_conn set_transfer_conn
        split: if_splits prod.splits option.splits)
next
  case ST30
  then show ?thesis using assms
    by (auto simp: st_configure_def configure_30_def Let_def st_bad_def dest!: configure_common_conn set_transfer_conn
        split: if_splits prod.splits option.splits)
qed

definition fresh_part :: "part \<Rightarrow> bool" where
  "fresh_part p \<longleftrightarrow> (case p of PLocal _ \<Rightarrow> False | _ \<Rightarrow> True) \<and> o_state (part_conn p) = configured \<and>
     o_link (part_conn p) = dap_init \<and> (\<exists>k. o_class (part_conn p) = COther k) \<and> o_kind (part_conn p) \<noteq> Kundefined"

definition bridge_known :: "BridgeConfig \<Rightarrow> bool" where
  "bridge_known b \<longleftrightarrow> bc_type b = ''rdma'' \<or> bc_type b = ''st2110'' \<and> st_standard_of (bc_transport b) \<noteq> None"

definition outer_only :: "proxy \<Rightarrow> proxy \<Rightarrow> bool" where
  "outer_only P P' \<longleftrightarrow> P' = P\<lparr>px_session_id := px_session_id P', px_mgr := px_mgr P', px_rdma_users := px_rdma_users P', px_fab := px_fab P'\<rparr>"

lemma outer_only_sel:
  assumes "outer_only P P'"
  shows "px_world P' = px_world P" "px_parts P' = px_parts P" "px_ids P' = px_ids P" "px_sdk P' = px_sdk P"
    "px_local P' = px_local P" "px_bridges P' = px_bridges P" "px_groups P' = px_groups P" "px_cfg P' = px_cfg P"
    "px_M P' = px_M P" "px_G P' = px_G P" "px_dying P' = px_dying P"
  using assms by (cases P; cases P'; simp add: outer_only_def px_M_def px_G_def)+

lemma outer_only_inv: "outer_only P P' \<Longrightarrow> px_inv V X P \<Longrightarrow> px_inv V X P'"
  by (simp add: px_inv_def locals_ok_def dying_ok_def outer_only_sel)

lemma outer_only_trans: "outer_only P Q \<Longrightarrow> outer_only Q R \<Longrightarrow> outer_only P R"
  by (cases P; cases Q; cases R) (simp add: outer_only_def)

lemma destroy_part_outer: "outer_only P (destroy_part m p P)"
  by (cases P; cases p) (simp_all add: outer_only_def destroy_part_def split_def Let_def)

lemma make_st_bridge_ok:
  assumes "make_st_bridge m b P = (p, P')"
  shows "outer_only P P'" "p = Unset \<Longrightarrow> st_standard_of (bc_transport b) = None" "p \<noteq> MadeErr 0"
    "p = Made q \<Longrightarrow> m_alloc m (px_world P) \<noteq> 0 \<and> fresh_part q"
proof -
  show "outer_only P P'" "p = Unset \<Longrightarrow> st_standard_of (bc_transport b) = None" "p \<noteq> MadeErr 0" using assms
    by (auto simp: make_st_bridge_def outer_only_def Let_def ENOMEM_def split: option.splits if_splits prod.splits)
  assume "p = Made q"
  then show "m_alloc m (px_world P) \<noteq> 0 \<and> fresh_part q" using assms
    by (auto simp: make_st_bridge_def fresh_part_def Let_def new_st2110_def new_connection_def dest!: st_configure_conn
        split: option.splits if_splits prod.splits)
qed

lemma make_rdma_bridge_ok:
  assumes "make_rdma_bridge m b P = (p, P')"
  shows "outer_only P P'" "p \<noteq> Unset" "p \<noteq> MadeErr 0" "p = Made q \<Longrightarrow> m_alloc m (px_world P) \<noteq> 0 \<and> fresh_part q"
proof -
  show "p \<noteq> Unset" "p \<noteq> MadeErr 0" using assms
    by (auto simp: make_rdma_bridge_def Let_def rdma_configure_def ENOMEM_def split: kind.splits if_splits prod.splits)
  show "outer_only P P'" using assms
    by (cases P) (auto simp: make_rdma_bridge_def Let_def rdma_configure_def outer_only_def split: kind.splits if_splits prod.splits)
  assume "p = Made q"
  then show "m_alloc m (px_world P) \<noteq> 0 \<and> fresh_part q" using assms
    by (auto simp: make_rdma_bridge_def Let_def rdma_configure_def fresh_part_def new_rdma_tx_def new_rdma_rx_def new_rdma_def
        rdma.defs rdma_rx.defs rd_set_state_def new_connection_def split: kind.splits if_splits prod.splits)
qed

lemma fresh_part_async:
  assumes "fresh_part p" and "establish_async ok (part_conn p) = (res, c)"
  shows "dap_ready (o_link c)" "\<exists>k. o_class c = COther k" "\<not> n_group (node_of c)" "n_kind (node_of c) \<noteq> Kundefined"
    "n_link (node_of c) = 0"
proof -
  have c: "c = snd (set_result (if ok then success else error_out_of_memory) (set_state establishing (part_conn p)))"
    using assms by (simp add: establish_async_def fresh_part_def)
  have z: "load dap_init = 0" by (simp add: dap_init_def load_def)
  show "dap_ready (o_link c)" "\<exists>k. o_class c = COther k" "\<not> n_group (node_of c)" "n_kind (node_of c) \<noteq> Kundefined"
    "n_link (node_of c) = 0"
    using assms(1) z by (auto simp: c fresh_part_def node_of_def split: conn_class.splits)
qed

lemma create_bridge_inv:
  assumes "px_inv V X P" and "alloc_ok (m_alloc m)" and "px_M P (Inr i) = None" and "bridge_known b"
  shows "runs (\<lambda>(e, a, P'). px_G P' = px_G P \<and> px_cfg P' = px_cfg P \<and> px_local P' = px_local P \<and> px_sdk P' = px_sdk P \<and> px_groups P' = px_groups P \<and>
      (if e = 0 then px_inv (V(Inr i := None)) X P' \<and> px_M P' = (px_M P)(Inr i \<mapsto> a)
       else px_inv V X P' \<and> px_M P' = px_M P)) (create_bridge m i b P)"
proof -
  let ?a = "m_alloc m (px_world P)"
  obtain p P1 where mk: "(if bc_type b = ''st2110'' then make_st_bridge m b P
      else if bc_type b = ''rdma'' then make_rdma_bridge m b P else (Unset, P)) = (p, P1)" by force
  have o1: "outer_only P P1" and nu: "p \<noteq> Unset" and ne: "p \<noteq> MadeErr 0"
    and fp: "\<And>q. p = Made q \<Longrightarrow> ?a \<noteq> 0 \<and> fresh_part q"
    using mk assms(4) make_st_bridge_ok [of m b P p P1] make_rdma_bridge_ok [of m b P p P1]
    by (auto simp: bridge_known_def split: if_splits)
  have i1: "px_inv V X P1" by (rule outer_only_inv [OF o1 assms(1)])
  show ?thesis
  proof (cases p)
    case (MadeErr e)
    then show ?thesis using mk ne i1 outer_only_sel [OF o1] by (simp add: create_bridge_def)
  next
    case (Made q)
    obtain t tr where st: "ext_call (m_env m) StartAsync (px_mgr P1) = (t, tr)" by force
    obtain res c where es: "establish_async (mg_ret t = 0) (part_conn q) = (res, c)" by force
    let ?P2 = "P1\<lparr>px_mgr := tr\<rparr>"
    have o2: "outer_only P ?P2" using o1 by (cases P; cases P1) (simp add: outer_only_def)
    show ?thesis
    proof (cases "res = success")
      case False
      have "outer_only P (destroy_part m q ?P2)" by (rule outer_only_trans [OF o2 destroy_part_outer])
      then show ?thesis using False Made mk st es outer_only_inv [OF _ assms(1)] outer_only_sel
        by (simp add: create_bridge_def)
    next
      case True
      have a: "?a \<noteq> 0" "fresh_part q" using fp [OF Made] by auto
      note fa = fresh_part_async [OF a(2) es]
      note s2 = outer_only_sel [OF o2]
      let ?P3 = "?P2\<lparr>px_world := put_obj ?a c (px_world ?P2), px_parts := (px_parts ?P2)(?a \<mapsto> part_with c q),
        px_ids := (px_ids ?P2)(?a := i), px_bridges := snd (reg_add i ?a (px_bridges ?P2))\<rparr>"
      have fr: "w_objs (px_world P) ?a = None" "aligned ?a" using alloc_okD [OF assms(2) a(1)] by simp_all
      have w3: "plane_ok (put_obj ?a c (px_world P))" "nodes (put_obj ?a c (px_world P)) = (nodes (px_world P))(?a \<mapsto> node_of c)"
        using plane_ok_fresh [OF px_invD(1) [OF assms(1)] fr(1,2) a(1) fa(1)] fa(2) by auto
      have M3: "px_M ?P3 = (px_M P)(Inr i \<mapsto> ?a)"
        using reg_add_fresh(1) [OF px_invD(5) [OF assms(1)] _ a(1), of i] assms(3) s2
        by (auto simp: px_M_def fun_eq_iff split: sum.splits)
      have G3: "px_G ?P3 = px_G P" using s2 by (simp add: px_G_def)
      have "members_ok (px_M P) (px_G P) (V(Inr i := None)) X (nodes (px_world P))"
        by (rule members_ok_cong [OF px_invD(2) [OF assms(1)]]) (use assms(3) in auto)
      then have "members_ok (px_M ?P3) (px_G ?P3) (V(Inr i := None)) X (nodes (px_world ?P3))"
        unfolding M3 G3 using members_ok_new [of "px_M P" "px_G P" "V(Inr i := None)" X "nodes (px_world P)" "Inr i" ?a "node_of c"]
          assms(3) a(1) fa(3-5) fr(1) w3(2) s2(1) by (simp add: nodes_dom)
      moreover have "locals_ok ?P3"
      proof (rule locals_ok_upd [OF px_invD(3) [OF assms(1)]])
        fix l x assume "reg_map (px_local P) l = Some x"
        then have "px_M P (Inl l) = Some x" by simp
        then have "x \<noteq> ?a" using px_node [OF assms(1)] fr(1) nodes_dom [of "px_world P" ?a] by (metis option.distinct(1))
        then show "px_parts ?P3 x = px_parts P x \<and> px_ids ?P3 x = px_ids P x" using s2 by simp
      qed (use s2 in simp_all)
      moreover have "dying_ok ?P3"
        by (rule dying_ok_upd [OF px_invD(7) [OF assms(1)]])
          (use M3 s2 w3(2) fr(1) in \<open>auto simp: plain_iff nodes_dom [symmetric] split: if_splits\<close>)
      ultimately have "px_inv (V(Inr i := None)) X ?P3"
        using px_invD(4-6) [OF assms(1)] w3(1) a(1) s2 by (simp add: px_inv_def)
      then show ?thesis using True Made mk st es M3 G3 s2 by (simp add: create_bridge_def Let_def)
    qed
  qed (use nu in simp)
qed

section \<open>Local connections\<close>

lemma local_on_shutdown_ok:
  assumes "lc_thread L"
  shows "\<exists>r L' tr'. local_on_shutdown env L tr = Some (r, L', tr') \<and> o_link (lc_conn L') = o_link (lc_conn L) \<and>
    o_class (lc_conn L') = o_class (lc_conn L) \<and> o_kind (lc_conn L') = o_kind (lc_conn L)"
  using assms by (simp add: local_on_shutdown_def Let_def split_def lc_error_def lc_set_state_def)

lemma local_shutdown_ok:
  assumes "plane_ok (px_world P)" and "nodes (px_world P) a = Some n" and "\<not> n_group n"
    and "px_parts P a = Some (PLocal L)" and "lc_thread L"
  shows "runs (\<lambda>P'. plane_ok (px_world P') \<and> nodes (px_world P') = nodes (px_world P) \<and>
      P' = P\<lparr>px_world := px_world P', px_parts := (px_parts P)(a := px_parts P' a), px_shm := px_shm P'\<rparr>) (local_shutdown m a P)"
proof -
  obtain c where c: "w_objs (px_world P) a = Some c" "n = node_of c" using assms(2) by (auto simp: nodes_def)
  obtain r L' tr' where s: "local_on_shutdown (m_shm m) (L\<lparr>lc_conn := set_state closing c\<rparr>) (px_shm P) = Some (r, L', tr')"
    and k: "o_link (lc_conn L') = o_link c" "o_class (lc_conn L') = o_class c" "o_kind (lc_conn L') = o_kind c"
    using local_on_shutdown_ok [of "L\<lparr>lc_conn := set_state closing c\<rparr>" "m_shm m" "px_shm P"] assms(5) by auto
  have "node_of (lc_conn L') = n" using k assms(3) c(2)
    by (auto simp: node_of_def group_outputs_def split: conn_class.splits)
  then have w: "plane_ok (put_obj a (lc_conn L') (px_world P))" "nodes (put_obj a (lc_conn L') (px_world P)) = nodes (px_world P)"
    using plane_ok_same [OF assms(1) c(1), of "lc_conn L'"] assms(1,2) k c(1) by (auto simp: plane_ok_def)
  show ?thesis using c(1) assms(1,4) s w by (cases P) (auto simp: local_shutdown_def fun_upd_idem)
qed

lemma delete_connection_inv:
  assumes "px_inv V X P" and "alloc_ok (m_alloc m)"
  shows "runs (\<lambda>(e, P'). px_inv V X P' \<and> px_bridges P' = px_bridges P \<and> px_groups P' = px_groups P \<and> px_cfg P' = px_cfg P \<and>
      (e = 0 \<longleftrightarrow> reg_map (px_sdk P) u \<noteq> None) \<and>
      (\<forall>a. reg_map (px_sdk P) u = Some a \<longrightarrow> reg_map (px_local P') = (reg_map (px_local P))(px_ids P a := None) \<and>
         reg_map (px_sdk P') = (reg_map (px_sdk P))(u := None) \<and> w_objs (px_world P') a = None) \<and>
      (reg_map (px_sdk P) u = None \<longrightarrow> P' = P)) (delete_connection_sdk m u d P)" (is "runs ?Q _")
proof (cases "reg_map (px_sdk P) u")
  case None
  then show ?thesis using assms(1) by (simp add: delete_connection_sdk_def reg.get_zero)
next
  case (Some a)
  let ?c = "px_ids P a"
  have lok: "locals_ok P" by (rule px_invD(3) [OF assms(1)])
  then have ca: "reg_map (px_local P) ?c = Some a" using Some unfolding locals_ok_def by blast
  then have Mc: "px_M P (Inl ?c) = Some a" by simp
  obtain L where L: "px_parts P a = Some (PLocal L)" "lc_thread L" using lok ca unfolding locals_ok_def by blast
  have inj: "reg_map (px_sdk P) v \<noteq> Some a" if "v \<noteq> u" for v using lok Some that unfolding locals_ok_def by blast
  have a: "reg_get u (px_sdk P) = a" "a \<noteq> 0" using reg.get_Some [OF Some] by auto
  obtain n where "nodes (px_world P) a = Some n" using px_node [OF assms(1) Mc] by metis
  then have live: "w_objs (px_world P) a \<noteq> None" by (auto simp: nodes_def)
  define P0 where "P0 = (if d then P\<lparr>px_mgr := snd (ext_call (m_env m) (UnregisterConnection ?c) (px_mgr P))\<rparr> else P)"
  have f0: "px_world P0 = px_world P" "px_parts P0 = px_parts P" "px_ids P0 = px_ids P" "px_sdk P0 = px_sdk P"
    "px_local P0 = px_local P" "px_bridges P0 = px_bridges P" "px_groups P0 = px_groups P" "px_cfg P0 = px_cfg P"
    "px_dying P0 = px_dying P" by (simp_all add: P0_def)
  have i0: "px_inv V X P0" using assms(1) f0 by (simp add: px_inv_def locals_ok_def dying_ok_def px_M_def px_G_def)
  have M0: "px_M P0 (Inl ?c) = Some a" using Mc f0 by simp
  let ?rest = "\<lambda>P. rbind (local_shutdown m a P) (\<lambda>P. Ret (0 :: int, delete_conn a P))"
  have "runs ?Q (rbind (unlink_conn m a P0) (\<lambda>P1.
      ?rest (P1\<lparr>px_local := snd (reg_remove ?c (px_local P1)), px_sdk := snd (reg_remove u (px_sdk P1))\<rparr>)))"
  proof (rule runs_bind [OF unlink_conn_inv [OF i0 assms(2) M0]])
    fix P1 assume "px_inv (V(Inl ?c := None)) X P1 \<and> P1 = P0\<lparr>px_world := px_world P1\<rparr>"
    then have i1: "px_inv (V(Inl ?c := None)) X P1" and e1: "P1 = P0\<lparr>px_world := px_world P1\<rparr>" by auto
    have f1: "px_parts P1 = px_parts P" "px_ids P1 = px_ids P" "px_sdk P1 = px_sdk P" "px_local P1 = px_local P"
      "px_bridges P1 = px_bridges P" "px_groups P1 = px_groups P" "px_cfg P1 = px_cfg P"
      by (subst e1, simp add: f0)+
    have M1: "px_M P1 (Inl ?c) = Some a" using f1 Mc by simp
    let ?P2 = "P1\<lparr>px_local := snd (reg_remove ?c (px_local P1)), px_sdk := snd (reg_remove u (px_sdk P1))\<rparr>"
    obtain n where n: "nodes (px_world P1) a = Some n" "\<not> n_group n" using px_node [OF i1 M1] by metis
    have "runs (\<lambda>P'. plane_ok (px_world P') \<and> nodes (px_world P') = nodes (px_world ?P2) \<and>
      P' = ?P2\<lparr>px_world := px_world P', px_parts := (px_parts ?P2)(a := px_parts P' a), px_shm := px_shm P'\<rparr>) (local_shutdown m a ?P2)"
      by (rule local_shutdown_ok) (use n px_invD(1) [OF i1] L f1 in auto)
    then show "runs ?Q (?rest ?P2)"
    proof (rule runs_bind)
      fix P3
      assume "plane_ok (px_world P3) \<and> nodes (px_world P3) = nodes (px_world ?P2) \<and>
        P3 = ?P2\<lparr>px_world := px_world P3, px_parts := (px_parts ?P2)(a := px_parts P3 a), px_shm := px_shm P3\<rparr>"
      then have p3: "plane_ok (px_world P3)" "nodes (px_world P3) = nodes (px_world P1)"
        and e3: "P3 = ?P2\<lparr>px_world := px_world P3, px_parts := (px_parts ?P2)(a := px_parts P3 a), px_shm := px_shm P3\<rparr>" by auto
      have f3: "px_ids P3 = px_ids P" "px_sdk P3 = snd (reg_remove u (px_sdk P))" "px_local P3 = snd (reg_remove ?c (px_local P))"
        "px_bridges P3 = px_bridges P" "px_groups P3 = px_groups P" "px_cfg P3 = px_cfg P"
        "px_parts P3 = (px_parts P)(a := px_parts P3 a)" "px_dying P3 = px_dying P1"
        by (subst e3, simp add: f1)+
      have pp: "px_parts P3 b = px_parts P b" if "b \<noteq> a" for b using that by (subst f3(7)) simp
      let ?P4 = "delete_conn a P3"
      have l4: "reg_map (px_local ?P4) = (reg_map (px_local P))(?c := None)" "reg_map (px_sdk ?P4) = (reg_map (px_sdk P))(u := None)"
        using f3 reg.rem_look by (simp_all add: delete_conn_def)
      have M4: "px_M ?P4 = (px_M P1)(Inl ?c := None)" "px_G ?P4 = px_G P1"
        using f3 f1 reg.rem_look by (auto simp: px_M_def px_G_def delete_conn_def fun_eq_iff split: sum.splits)
      have n4: "nodes (px_world ?P4) = (nodes (px_world P1))(a := None)" "plane_ok (px_world ?P4)"
        using delete_obj_ok [OF p3(1)] p3(2) by (simp_all add: delete_conn_def)
      have "members_ok (px_M ?P4) (px_G ?P4) (V(Inl ?c := None)) X (nodes (px_world ?P4))"
        unfolding M4 n4 by (rule members_ok_drop [OF px_invD(2) [OF i1] M1]) auto
      moreover have "locals_ok ?P4"
      proof -
        have xa: "x \<noteq> a" if "reg_map (px_local P) l = Some x" "l \<noteq> ?c" for l x
          using that lok unfolding locals_ok_def by blast
        have xc: "px_ids P x \<noteq> ?c" if v: "reg_map (px_sdk P) v = Some x" "v \<noteq> u" for v x
        proof
          assume "px_ids P x = ?c"
          moreover have "reg_map (px_local P) (px_ids P x) = Some x" using v(1) lok unfolding locals_ok_def by blast
          ultimately have "Some x = Some a" using ca by argo
          then show False using inj [OF v(2)] v(1) by simp
        qed
        have f4: "px_ids ?P4 = px_ids P" "\<And>b. b \<noteq> a \<Longrightarrow> px_parts ?P4 b = px_parts P b"
          by (simp add: delete_conn_def f3(1)) (simp add: delete_conn_def pp)
        show ?thesis unfolding locals_ok_def l4 f4(1)
        proof (intro conjI allI impI)
          fix l x assume "((reg_map (px_local P))(?c := None)) l = Some x"
          then have l: "reg_map (px_local P) l = Some x" "x \<noteq> a" using xa by (auto split: if_splits)
          then show "\<exists>L. px_parts ?P4 x = Some (PLocal L) \<and> lc_thread L" "px_ids P x = l"
            using lok f4(2) unfolding locals_ok_def by auto
        next
          fix v x assume "((reg_map (px_sdk P))(u := None)) v = Some x"
          then have "reg_map (px_sdk P) v = Some x" "v \<noteq> u" by (auto split: if_splits)
          then show "((reg_map (px_local P))(?c := None)) (px_ids P x) = Some x"
            using xc lok unfolding locals_ok_def by (simp add: fun_upd_def)
        next
          fix v v' x
          assume "((reg_map (px_sdk P))(u := None)) v = Some x \<and> ((reg_map (px_sdk P))(u := None)) v' = Some x"
          then show "v = v'" using lok unfolding locals_ok_def by (metis fun_upd_apply option.distinct(1))
        qed
      qed
      moreover have "dying_ok ?P4"
      proof (rule dying_ok_upd [OF px_invD(7) [OF i1]])
        fix x assume "x \<in> set (px_dying P1)" "x \<in> plain (nodes (px_world P1))"
        moreover have "a \<notin> set (px_dying P1)" using px_invD(7) [OF i1] M1 unfolding dying_ok_def by blast
        ultimately show "x \<in> plain (nodes (px_world ?P4))" unfolding n4 by (auto simp: plain_iff)
      qed (use M4 f3(8) in \<open>auto simp: delete_conn_def split: if_splits\<close>)
      ultimately have "px_inv (V(Inl ?c := None)) X ?P4"
        using n4(2) px_invD(4-6) [OF assms(1)] f3 by (simp add: px_inv_def delete_conn_def)
      then have "px_inv V X ?P4" by (rule px_inv_cong) (auto simp: M4 split: if_splits)
      then show "runs ?Q (Ret (0, ?P4))" using l4 f3 Some by (auto simp: delete_conn_def delete_obj_def)
    qed
  qed
  then show ?thesis using a live by (simp add: delete_connection_sdk_def P0_def Let_def)
qed

lemma reg_map_reserve: "map_of r u = None \<Longrightarrow> reg_map ((u, 0) # r) = reg_map r"
  by (auto simp: reg_map_def fun_eq_iff)

lemma reserve_id_ok:
  "reserve_id k m u P = (found, u', P') \<Longrightarrow>
   \<exists>x s. P' = P\<lparr>px_mgr := px_mgr P @ x, px_sdk := s\<rparr> \<and> reg_map s = reg_map (px_sdk P) \<and> (found \<longrightarrow> map_of s u' = Some 0)"
proof (induction k arbitrary: u P)
  case (Suc k)
  obtain r tr where e: "ext_call (m_env m) RandomBytes (px_mgr P) = (r, tr)" by force
  then have tr: "tr = px_mgr P @ [(RandomBytes, r)]" by (auto simp: ext_call_def)
  let ?i = "generate_uuid_v4 (mg_bytes r)"
  show ?case
  proof (cases "map_of (px_sdk P) ?i = None")
    case True
    then have "P' = P\<lparr>px_mgr := tr, px_sdk := (?i, 0) # px_sdk P\<rparr>" "u' = ?i"
      using Suc.prems e by (auto simp: reg_add_def Let_def)
    then show ?thesis using reg_map_reserve [OF True] tr
      by (intro exI [of _ "[(RandomBytes, r)]"] exI [of _ "(?i, 0) # px_sdk P"]) simp
  next
    case False
    then have "reserve_id k m ?i (P\<lparr>px_mgr := tr, px_sdk := px_sdk P\<rparr>) = (found, u', P')"
      using Suc.prems e by (simp add: reg_add_def Let_def)
    from Suc.IH [OF this] tr show ?thesis by auto
  qed
next
  case 0
  then have "P' = P\<lparr>px_mgr := px_mgr P @ [], px_sdk := px_sdk P\<rparr>" "\<not> found" by simp_all
  then show ?case by blast
qed

lemma local_on_establish_frame:
  assumes "local_on_establish env L tr = (r, L', tr')"
  shows "o_link (lc_conn L') = o_link (lc_conn L) \<and> o_class (lc_conn L') = o_class (lc_conn L)"
  using assms by (auto simp: local_on_establish_def Let_def split_def lc_result_def lc_set_state_def split: if_splits)

lemma local_establish_ok:
  assumes "local_establish env L tr = (success, L', tr')"
  shows "lc_thread L' \<and> o_link (lc_conn L') = o_link (lc_conn L) \<and> o_class (lc_conn L') = o_class (lc_conn L) \<and>
    o_kind (lc_conn L') = o_kind (lc_conn L) \<and> o_state (lc_conn L') = suspended"
proof (cases "o_state (lc_conn L) = configured \<or> o_state (lc_conn L) = closed_st")
  case True
  obtain r L1 tr1 where e: "local_on_establish env (lc_set_state establishing L) tr = (r, L1, tr1)" by (metis prod_cases3)
  then have "lc_result r L1 = (success, L')" using assms True by (auto simp: local_establish_def split: prod.splits)
  then have r: "r = success" "L' = L1" by (auto simp: lc_result_def)
  show ?thesis using local_on_establish_state [OF e] local_on_establish_frame [OF e] r by (simp add: lc_set_state_def)
next
  case False
  then show ?thesis using assms by (auto simp: local_establish_def lc_result_def)
qed

text \<open>From now on, the next connection the agent is told of gets an identifier that is not in use.\<close>

definition agent_fresh :: "mgr \<Rightarrow> (member \<Rightarrow> string option) \<Rightarrow> proxy \<Rightarrow> bool" where
  "agent_fresh m V P \<longleftrightarrow> (\<forall>x k c. let r = m_env m (px_mgr P @ x) (RegisterConnection [] k c) in
     mg_ret r = 0 \<longrightarrow> reg_map (px_local P) (mg_id r) = None \<and> V (Inl (mg_id r)) = None)"

lemma ext_call_fst: "ext_call env c tr = (r, tr') \<Longrightarrow> r = env tr c"
  by (simp add: ext_call_def)

lemma reg_replace_look: "a \<noteq> 0 \<Longrightarrow> reg_map (reg_replace u a r) = (reg_map r)(u \<mapsto> a)"
  by (auto simp: reg_map_def reg_replace_def fun_eq_iff update_conv')

text \<open>A new local connection enters the registries.\<close>

lemma register_local_inv:
  assumes "px_inv V X P" and "reg_map (px_local P) cid = None" and "V (Inl cid) = None"
    and "w_objs (px_world P) a = None" and "aligned a" and "a \<noteq> 0" and "reg_map (px_sdk P) u = None"
    and "lc_thread L" and "o_link (lc_conn L) = dap_init" and "o_class (lc_conn L) = COther k" and "o_kind (lc_conn L) \<noteq> Kundefined"
  shows "px_inv V X (P\<lparr>px_shm := tr, px_world := put_obj a (lc_conn L) (px_world P), px_parts := (px_parts P)(a \<mapsto> PLocal L),
         px_ids := (px_ids P)(a := cid), px_conf := (px_conf P)(a := cfg),
         px_sdk := reg_replace u a (px_sdk P), px_local := snd (reg_add cid a (px_local P))\<rparr>)" (is "px_inv V X ?P")
proof -
  have lok: "locals_ok P" by (rule px_invD(3) [OF assms(1)])
  have l: "reg_map (px_local ?P) = (reg_map (px_local P))(cid \<mapsto> a)" "reg_map (px_sdk ?P) = (reg_map (px_sdk P))(u \<mapsto> a)"
    using reg_add_fresh(1) [OF px_invD(4) [OF assms(1)] assms(2,6)] reg_replace_look [OF assms(6)] by simp_all
  have z: "load dap_init = 0" by (simp add: dap_init_def load_def)
  have n: "\<not> n_group (node_of (lc_conn L))" "n_kind (node_of (lc_conn L)) \<noteq> Kundefined" "n_link (node_of (lc_conn L)) = 0"
    using assms(9-11) z by (simp_all add: node_of_def)
  have w: "plane_ok (px_world ?P)" "nodes (px_world ?P) = (nodes (px_world P))(a \<mapsto> node_of (lc_conn L))"
    using plane_ok_fresh [OF px_invD(1) [OF assms(1)] assms(4,5,6), of "lc_conn L"] assms(9,10) by simp_all
  have M: "px_M ?P = (px_M P)(Inl cid \<mapsto> a)" "px_G ?P = px_G P"
    using l(1) by (auto simp: px_M_def px_G_def fun_eq_iff split: sum.splits)
  have "members_ok (px_M ?P) (px_G ?P) V X (nodes (px_world ?P))" unfolding M w
    by (rule members_ok_new [OF px_invD(2) [OF assms(1)]]) (use assms n in \<open>auto simp: nodes_dom\<close>)
  moreover have live: "x \<noteq> a" if "reg_map (px_local P) c = Some x" for c x
  proof -
    have "px_M P (Inl c) = Some x" using that by simp
    then show ?thesis using px_node [OF assms(1)] assms(4) nodes_dom [of "px_world P" a] by (metis option.distinct(1))
  qed
  have sx: "x \<noteq> a" if "reg_map (px_sdk P) v = Some x" for v x
    using that lok live unfolding locals_ok_def by blast
  have "locals_ok ?P" unfolding locals_ok_def l
  proof (intro conjI allI impI)
    fix c x assume c: "((reg_map (px_local P))(cid \<mapsto> a)) c = Some x"
    show "\<exists>L. px_parts ?P x = Some (PLocal L) \<and> lc_thread L" "px_ids ?P x = c"
      using c live [of c x] lok assms(8) unfolding locals_ok_def by (auto split: if_splits)
  next
    fix v x assume v: "((reg_map (px_sdk P))(u \<mapsto> a)) v = Some x"
    show "((reg_map (px_local P))(cid \<mapsto> a)) (px_ids ?P x) = Some x"
    proof (cases "v = u")
      case False
      then have "reg_map (px_sdk P) v = Some x" using v by simp
      then have "x \<noteq> a" "reg_map (px_local P) (px_ids P x) = Some x" using sx lok unfolding locals_ok_def by blast+
      then show ?thesis using assms(2) by auto
    qed (use v in simp)
  next
    fix v v' x assume "((reg_map (px_sdk P))(u \<mapsto> a)) v = Some x \<and> ((reg_map (px_sdk P))(u \<mapsto> a)) v' = Some x"
    then show "v = v'" using sx lok unfolding locals_ok_def by (metis fun_upd_apply option.inject)
  qed
  moreover have "dying_ok ?P"
    by (rule dying_ok_upd [OF px_invD(7) [OF assms(1)]])
      (use M w(2) assms(4) in \<open>auto simp: plain_iff nodes_dom [symmetric] split: if_splits\<close>)
  ultimately show ?thesis using w(1) px_invD(4-6) [OF assms(1)] assms(6) by (simp add: px_inv_def)
qed

lemma sdk_reserved_inv:
  assumes "px_inv V X P" and "reg_map (px_sdk P') = reg_map (px_sdk P)"
    and "P' = P\<lparr>px_mgr := px_mgr P', px_sdk := px_sdk P', px_shm := px_shm P'\<rparr>"
  shows "px_inv V X P'"
proof -
  have f: "px_world P' = px_world P" "px_parts P' = px_parts P" "px_ids P' = px_ids P" "px_local P' = px_local P"
    "px_bridges P' = px_bridges P" "px_groups P' = px_groups P" "px_dying P' = px_dying P" by (subst assms(3), simp)+
  show ?thesis using assms(1,2) f by (simp add: px_inv_def locals_ok_def dying_ok_def px_M_def px_G_def)
qed

text \<open>How a request to create a connection ends: with an error, and then nothing is left of it but calls, or
  with a new local connection in both registries.\<close>

lemma create_connection_cases:
  assumes "create_connection_sdk m hp cfg P = ((e, u, ps, err), P')"
  obtains (error) t1 t2 s where "e \<noteq> 0" "P' = P\<lparr>px_mgr := t1, px_sdk := s, px_shm := t2\<rparr>" "reg_map s = reg_map (px_sdk P)"
  | (created) x q L t1 t2 s a where "e = 0" "a = m_alloc m (px_world P)" "a \<noteq> 0" "reg_map s = reg_map (px_sdk P)"
      "reg_map s u = None" "mg_ret q = 0" "q = m_env m (px_mgr P @ x) (RegisterConnection [] (agent_kind cfg) cfg)"
      "lc_thread L" "o_link (lc_conn L) = dap_init" "o_class (lc_conn L) = COther 2" "o_kind (lc_conn L) \<noteq> Kundefined"
      "o_state (lc_conn L) = suspended"
      "P' = (P\<lparr>px_mgr := t1, px_sdk := s\<rparr>)\<lparr>px_shm := t2, px_world := put_obj a (lc_conn L) (px_world P),
         px_parts := (px_parts P)(a \<mapsto> PLocal L), px_ids := (px_ids P)(a := mg_id q), px_conf := (px_conf P)(a := cfg),
         px_sdk := reg_replace u a s, px_local := snd (reg_add (mg_id q) a (px_local P))\<rparr>"
proof (cases hp)
  case False
  then show thesis using assms error [where ?t1.0 = "px_mgr P" and ?t2.0 = "px_shm P" and s = "px_sdk P"] by (simp add: create_connection_sdk_def)
next
  case True
  obtain found v P1 where r: "reserve_id 5 m [] P = (found, v, P1)" by (metis prod_cases3)
  obtain x s where P1: "P1 = P\<lparr>px_mgr := px_mgr P @ x, px_sdk := s\<rparr>" and s: "reg_map s = reg_map (px_sdk P)"
    and z: "found \<Longrightarrow> map_of s v = Some 0" using reserve_id_ok [OF r] by blast
  let ?s0 = "snd (reg_remove v s)" and ?a = "m_alloc m (px_world P)"
  have v: "reg_map s v = None" if found using z [OF that] by (simp add: reg_map_def)
  have s0: "reg_map ?s0 = reg_map (px_sdk P)" if found using v [OF that] s reg.rem_look by auto
  define L where "L = snd (configure_memif (sdk_memif_ops cfg v) (Some (sdk_memif_ops cfg v))
    (total_size (x_buf_parts cfg)) (ring_size_of cfg) (new_local_for cfg))"
  have cm: "configure_memif (sdk_memif_ops cfg v) (Some (sdk_memif_ops cfg v)) (total_size (x_buf_parts cfg))
    (ring_size_of cfg) (new_local_for cfg) = (success, L)"
    by (simp add: L_def configure_memif_def Let_def)
  have Lc: "o_link (lc_conn L) = dap_init" "o_class (lc_conn L) = COther 2" "o_kind (lc_conn L) \<noteq> Kundefined"
    by (simp_all add: L_def configure_memif_def Let_def lc_set_state_def new_local_for_def new_local_rx_def new_local_tx_def
        new_local_def new_connection_def)
  obtain q tr where ra: "ext_call (m_env m) (RegisterConnection [] (agent_kind cfg) cfg) (px_mgr P @ x) = (q, tr)" by force
  obtain res L' tr' where es: "local_establish (m_shm m) L (px_shm P) = (res, L', tr')" by (metis prod_cases3)
  define P0 where "P0 = P\<lparr>px_mgr := px_mgr P @ x, px_sdk := ?s0\<rparr>"
  define P2 where "P2 = (P\<lparr>px_mgr := tr, px_sdk := s\<rparr>)\<lparr>px_shm := tr', px_world := put_obj ?a (lc_conn L') (px_world P),
         px_parts := (px_parts P)(?a \<mapsto> PLocal L'), px_ids := (px_ids P)(?a := mg_id q), px_conf := (px_conf P)(?a := cfg),
         px_sdk := reg_replace v ?a s, px_local := snd (reg_add (mg_id q) ?a (px_local P))\<rparr>"
  have run: "create_connection_sdk m hp cfg P =
    (if \<not> found then ((-1, v, None, []), P1)
     else if ?a = 0 then ((- ENOMEM, v, None, []), P0)
     else if mg_ret q \<noteq> 0 then ((-1, v, None, mg_err q), P0\<lparr>px_mgr := tr\<rparr>)
     else if res \<noteq> success then ((-1, v, None, mg_err q), P0\<lparr>px_mgr := tr, px_shm := tr'\<rparr>)
     else ((0, v, Some (get_params L'), mg_err q), P2))"
    using True r cm ra es by (simp add: create_connection_sdk_def Let_def P0_def P1 P2_def)
  consider "\<not> found" | "found" "?a = 0" | "found" "?a \<noteq> 0" "mg_ret q \<noteq> 0" | "found" "?a \<noteq> 0" "mg_ret q = 0" "res \<noteq> success"
    | "found" "?a \<noteq> 0" "mg_ret q = 0" "res = success" by blast
  then show thesis
  proof cases
    case 1
    then show thesis using run P1 assms error [where ?t1.0 = "px_mgr P @ x" and ?t2.0 = "px_shm P" and s = s] s by simp
  next
    case 2
    then show thesis using run assms error [where ?t1.0 = "px_mgr P @ x" and ?t2.0 = "px_shm P" and s = ?s0] s0 by (simp add: P0_def ENOMEM_def)
  next
    case 3
    then show thesis using run assms error [where ?t1.0 = tr and ?t2.0 = "px_shm P" and s = ?s0] s0 by (simp add: P0_def)
  next
    case 4
    then show thesis using run assms error [where ?t1.0 = tr and ?t2.0 = tr' and s = ?s0] s0 by (simp add: P0_def)
  next
    case 5
    then have e: "e = 0" "u = v" "P' = P2" using run assms by auto
    show thesis using 5 e v s ext_call_fst [OF ra] Lc local_establish_ok [OF es [unfolded 5(4)]]
      by (intro created [where a = ?a and s = s and q = q and x = x and L = L' and ?t1.0 = tr and ?t2.0 = tr']) (auto simp: P2_def)
  qed
qed

lemma create_connection_inv:
  assumes "px_inv V X P" and "alloc_ok (m_alloc m)" and "agent_fresh m V P"
    and "create_connection_sdk m hp cfg P = ((e, u, ps, err), P')"
  shows "px_inv V X P' \<and> px_bridges P' = px_bridges P \<and> px_groups P' = px_groups P \<and> px_cfg P' = px_cfg P \<and>
    (e = 0 \<longrightarrow> (\<exists>cid a. V (Inl cid) = None \<and> reg_map (px_local P') = (reg_map (px_local P))(cid \<mapsto> a) \<and>
       reg_map (px_sdk P') = (reg_map (px_sdk P))(u \<mapsto> a))) \<and>
    (e \<noteq> 0 \<longrightarrow> px_local P' = px_local P \<and> reg_map (px_sdk P') = reg_map (px_sdk P) \<and> px_world P' = px_world P)"
  using assms(4)
proof (cases rule: create_connection_cases)
  case (error t1 t2 s)
  have "px_inv V X P'" by (rule sdk_reserved_inv [OF assms(1)]) (use error in auto)
  then show ?thesis using error by simp
next
  case (created x q L t1 t2 s a)
  have idf: "reg_map (px_local P) (mg_id q) = None" "V (Inl (mg_id q)) = None"
    using assms(3) created(6,7) by (auto simp: agent_fresh_def Let_def)
  have i1: "px_inv V X (P\<lparr>px_mgr := t1, px_sdk := s\<rparr>)" by (rule sdk_reserved_inv [OF assms(1)]) (use created(4) in auto)
  have "px_inv V X P'" unfolding created(13)
    using register_local_inv [OF i1, where cid = "mg_id q" and a = a and u = u and L = L and k = 2 and tr = t2 and cfg = cfg]
      idf alloc_okD [OF assms(2)] created(2-5,8-11) by simp
  moreover have "reg_map (px_local P') = (reg_map (px_local P))(mg_id q \<mapsto> a)" "reg_map (px_sdk P') = (reg_map (px_sdk P))(u \<mapsto> a)"
    using reg_add_fresh(1) [OF px_invD(4) [OF assms(1)] idf(1) created(3)] reg_replace_look [OF created(3)] created(4)
    by (simp_all add: created(13))
  ultimately show ?thesis using idf(2) created(1,13) by auto
qed

end
