(* ===== verification/Group_Manager.thy ===== *)
theory Group_Manager
  imports Proxy_State
begin

text \<open>
  The group manager of the proxy, media-proxy/src/mesh/manager_multipoint.cc: \<open>apply_config\<close> finds out
  what a new configuration from the agent changes, \<open>reconcile_config\<close> changes groups, links and bridges
  accordingly. The mutexes are left out: the local manager is locked for the whole of
  \<open>reconcile_config\<close>.
\<close>

section \<open>What changes\<close>

record GroupChangeConfig =
  ch_group_id :: string
  ch_added_conn_ids :: "string list"
  ch_deleted_conn_ids :: "string list"
  ch_added_bridge_ids :: "string list"
  ch_deleted_bridge_ids :: "string list"

text \<open>The lambda \<open>fn\<close>: the added and the deleted identifiers.\<close>

definition diff_ids :: "string list \<Rightarrow> string list \<Rightarrow> string list \<times> string list" where
  "diff_ids current_ids new_ids =
     (filter (\<lambda>i. i \<notin> set current_ids) new_ids, filter (\<lambda>i. i \<notin> set new_ids) current_ids)"

definition change_of :: "string \<Rightarrow> GroupConfig \<Rightarrow> GroupConfig \<Rightarrow> GroupChangeConfig" where
  "change_of gid cur new =
     (let (ac, dc) = diff_ids (gc_conn_ids cur) (gc_conn_ids new);
          (ab, db) = diff_ids (gc_bridge_ids cur) (gc_bridge_ids new)
      in \<lparr>ch_group_id = gid, ch_added_conn_ids = ac, ch_deleted_conn_ids = dc, ch_added_bridge_ids = ab,
          ch_deleted_bridge_ids = db\<rparr>)"

definition no_change :: "GroupChangeConfig \<Rightarrow> bool" where
  "no_change cc \<longleftrightarrow> ch_added_conn_ids cc = [] \<and> ch_deleted_conn_ids cc = [] \<and> ch_added_bridge_ids cc = [] \<and>
     ch_deleted_bridge_ids cc = []"

definition updated_changes :: "mp_config \<Rightarrow> mp_config \<Rightarrow> string list \<Rightarrow> GroupChangeConfig list" where
  "updated_changes cfg new_cfg ids = filter (\<lambda>cc. \<not> no_change cc) (List.map_filter (\<lambda>g.
     case (map_of (mp_groups cfg) g, map_of (mp_groups new_cfg) g) of
       (Some c, Some n) \<Rightarrow> Some (change_of g c n) | _ \<Rightarrow> None) ids)"

definition added_changes :: "mp_config \<Rightarrow> string list \<Rightarrow> GroupChangeConfig list" where
  "added_changes new_cfg ids = List.map_filter (\<lambda>g. map_option (\<lambda>n.
     \<lparr>ch_group_id = g, ch_added_conn_ids = gc_conn_ids n, ch_deleted_conn_ids = [],
      ch_added_bridge_ids = gc_bridge_ids n, ch_deleted_bridge_ids = []\<rparr>) (map_of (mp_groups new_cfg) g)) ids"

definition deleted_changes :: "mp_config \<Rightarrow> string list \<Rightarrow> GroupChangeConfig list" where
  "deleted_changes cfg ids = List.map_filter (\<lambda>g. map_option (\<lambda>c.
     \<lparr>ch_group_id = g, ch_added_conn_ids = [], ch_deleted_conn_ids = gc_conn_ids c,
      ch_added_bridge_ids = [], ch_deleted_bridge_ids = gc_bridge_ids c\<rparr>) (map_of (mp_groups cfg) g)) ids"

section \<open>Reconciliation\<close>

fun each :: "('x \<Rightarrow> 's \<Rightarrow> 's run) \<Rightarrow> 'x list \<Rightarrow> 's \<Rightarrow> 's run" where
  "each f [] s = Ret s"
| "each f (x # xs) s = rbind (f x s) (each f xs)"

definition drop_bridge :: "mgr \<Rightarrow> string \<Rightarrow> proxy \<Rightarrow> proxy run" where
  "drop_bridge m b P = rbind (delete_bridge m b P) (\<lambda>(_, P). Ret P)"

text \<open>The body of the loop over the deleted groups.\<close>

definition remove_group :: "mgr \<Rightarrow> GroupChangeConfig \<Rightarrow> proxy \<Rightarrow> proxy run" where
  "remove_group m cc P =
     (let g = reg_get (ch_group_id cc) (px_groups P) in
      if g = 0 then Ret P else
      rbind (retire_group (m_alloc m) g (px_world P)) (\<lambda>w.
      rbind (each (drop_bridge m) (ch_deleted_bridge_ids cc) (P\<lparr>px_world := w\<rparr>)) (\<lambda>P.
      Ret (P\<lparr>px_groups := snd (reg_remove (ch_group_id cc) (px_groups P)), px_world := delete_obj g (px_world P)\<rparr>))))"

definition unlink_local :: "mgr \<Rightarrow> string \<Rightarrow> proxy \<Rightarrow> proxy run" where
  "unlink_local m c P =
     (let a = reg_get c (px_local P) in if a = 0 then Ret P else unlink_conn m a P)"

text \<open>The body of the first loop over the updated groups.\<close>

definition shrink_group :: "mgr \<Rightarrow> GroupChangeConfig \<Rightarrow> proxy \<Rightarrow> proxy run" where
  "shrink_group m cc P =
     (if reg_get (ch_group_id cc) (px_groups P) = 0 then Ret P else
      rbind (each (unlink_local m) (ch_deleted_conn_ids cc) P) (\<lambda>P.
      each (drop_bridge m) (ch_deleted_bridge_ids cc) P))"

definition associate_conn :: "mgr \<Rightarrow> u64 \<Rightarrow> u64 \<Rightarrow> proxy \<Rightarrow> proxy run" where
  "associate_conn m g a P = rbind (associate (m_alloc m) g a (px_world P)) (\<lambda>(_, w). Ret (P\<lparr>px_world := w\<rparr>))"

definition add_conn :: "mgr \<Rightarrow> u64 \<Rightarrow> string \<Rightarrow> proxy \<Rightarrow> proxy run" where
  "add_conn m g c P =
     (let a = reg_get c (px_local P) in if a = 0 then Ret P else associate_conn m g a P)"

definition add_bridge :: "mgr \<Rightarrow> u64 \<Rightarrow> string \<Rightarrow> proxy \<Rightarrow> proxy run" where
  "add_bridge m g b P = (case map_of (mp_bridges (px_cfg P)) b of
      None \<Rightarrow> Ret P
    | Some bc \<Rightarrow> rbind (create_bridge m b bc P) (\<lambda>(err, a, P).
        if err \<noteq> 0 then Ret P else associate_conn m g a P))"

definition extend_group :: "mgr \<Rightarrow> u64 \<Rightarrow> GroupChangeConfig \<Rightarrow> proxy \<Rightarrow> proxy run" where
  "extend_group m g cc P = rbind (each (add_conn m g) (ch_added_conn_ids cc) P) (\<lambda>P.
     each (add_bridge m g) (ch_added_bridge_ids cc) P)"

text \<open>The loop over the added groups, which returns early when there is no memory.\<close>

fun add_groups :: "mgr \<Rightarrow> GroupChangeConfig list \<Rightarrow> proxy \<Rightarrow> (result \<times> proxy) run" where
  "add_groups m [] P = Ret (success, P)"
| "add_groups m (cc # ccs) P =
     (let g = m_alloc m (px_world P) in
      if g = 0 then Ret (error_out_of_memory, P) else
      let (err, gs) = reg_add (ch_group_id cc) g (px_groups P)
      in if err \<noteq> 0 then add_groups m ccs (P\<lparr>px_world := delete_obj g (start_group g (px_world P))\<rparr>) else
      rbind (extend_group m g cc (P\<lparr>px_world := start_group g (px_world P), px_groups := gs,
               px_ids := (px_ids P)(g := ch_group_id cc)\<rparr>))
        (add_groups m ccs))"

text \<open>The body of the last loop over the updated groups.\<close>

definition grow_group :: "mgr \<Rightarrow> GroupChangeConfig \<Rightarrow> proxy \<Rightarrow> proxy run" where
  "grow_group m cc P =
     (let g = reg_get (ch_group_id cc) (px_groups P) in if g = 0 then Ret P else extend_group m g cc P)"

definition reconcile_config ::
  "mgr \<Rightarrow> GroupChangeConfig list \<Rightarrow> GroupChangeConfig list \<Rightarrow> GroupChangeConfig list \<Rightarrow> proxy \<Rightarrow> (result \<times> proxy) run" where
  "reconcile_config m added deleted updated P =
     (if added = [] \<and> deleted = [] \<and> updated = [] then Ret (success, P) else
      rbind (each (remove_group m) deleted P) (\<lambda>P.
      rbind (each (shrink_group m) updated P) (\<lambda>P.
      rbind (add_groups m added P) (\<lambda>(r, P).
      if r \<noteq> success then Ret (r, P) else
      rbind (each (grow_group m) updated P) (\<lambda>P. Ret (success, P))))))"

definition apply_config :: "mgr \<Rightarrow> bool \<Rightarrow> mp_config \<Rightarrow> proxy \<Rightarrow> (result \<times> proxy) run" where
  "apply_config m cancelled new_cfg P =
     (let cfg = px_cfg P;
          current_ids = m_ord m (map fst (mp_groups cfg));
          new_ids = m_ord m (map fst (mp_groups new_cfg));
          added = filter (\<lambda>i. i \<notin> set current_ids) new_ids;
          deleted = filter (\<lambda>i. i \<notin> set new_ids) current_ids;
          common = filter (\<lambda>i. i \<in> set new_ids) current_ids;
          P = P\<lparr>px_cfg := new_cfg\<rparr>
      in if cancelled then Ret (error_context_cancelled, P)
         else reconcile_config m (added_changes new_cfg added) (deleted_changes cfg deleted)
           (updated_changes cfg new_cfg common) P)"

section \<open>One loop at a time\<close>

definition cfg_frame :: "proxy \<Rightarrow> proxy \<Rightarrow> bool" where
  "cfg_frame P P' \<longleftrightarrow> px_cfg P' = px_cfg P \<and> px_local P' = px_local P \<and> px_sdk P' = px_sdk P"

lemma cfg_frame_refl [simp]: "cfg_frame P P" by (simp add: cfg_frame_def)

lemma cfg_frame_trans: "cfg_frame P Q \<Longrightarrow> cfg_frame Q R \<Longrightarrow> cfg_frame P R"
  by (simp add: cfg_frame_def)

lemma restrict_all [simp]: "V |` UNIV = V"
  by (simp add: restrict_map_def)

lemma drop_bridges_inv:
  assumes "px_inv V X P" and "alloc_ok (m_alloc m)"
  shows "runs (\<lambda>P'. px_inv V X P' \<and> px_M P' = px_M P |` (- Inr ` set bs) \<and> px_groups P' = px_groups P \<and> cfg_frame P P')
    (each (drop_bridge m) bs P)"
  using assms(1)
proof (induction bs arbitrary: P)
  case (Cons b bs)
  show ?case
  proof (simp only: each.simps, rule runs_bind)
    show "runs (\<lambda>P'. px_inv V X P' \<and> px_M P' = (px_M P)(Inr b := None) \<and> px_groups P' = px_groups P \<and> cfg_frame P P') (drop_bridge m b P)"
      unfolding drop_bridge_def
      by (rule runs_bind [OF delete_bridge_inv [OF Cons.prems assms(2), of b]]) (auto simp: cfg_frame_def)
  next
    fix P1 assume 1: "px_inv V X P1 \<and> px_M P1 = (px_M P)(Inr b := None) \<and> px_groups P1 = px_groups P \<and> cfg_frame P P1"
    have "(px_M P)(Inr b := None) |` (- Inr ` set bs) = px_M P |` (- Inr ` set (b # bs))"
      by (auto simp: fun_eq_iff restrict_map_def)
    then have M: "px_M P1 |` (- Inr ` set bs) = px_M P |` (- Inr ` set (b # bs))" using 1 by simp
    show "runs (\<lambda>P'. px_inv V X P' \<and> px_M P' = px_M P |` (- Inr ` set (b # bs)) \<and> px_groups P' = px_groups P \<and> cfg_frame P P')
      (each (drop_bridge m) bs P1)"
      by (rule runs_mono [OF Cons.IH]) (use 1 M cfg_frame_trans in metis)+
  qed
qed simp

lemma unlink_locals_inv:
  assumes "px_inv V X P" and "alloc_ok (m_alloc m)"
  shows "runs (\<lambda>P'. px_inv (V |` (- Inl ` set cs)) X P' \<and> px_M P' = px_M P \<and> px_groups P' = px_groups P \<and> cfg_frame P P')
    (each (unlink_local m) cs P)"
  using assms(1)
proof (induction cs arbitrary: V P)
  case (Cons c cs)
  have one: "runs (\<lambda>P'. px_inv (V(Inl c := None)) X P' \<and> px_M P' = px_M P \<and> px_groups P' = px_groups P \<and> cfg_frame P P')
      (unlink_local m c P)"
  proof (cases "reg_map (px_local P) c")
    case None
    have "px_inv (V(Inl c := None)) X P" by (rule px_inv_cong [OF Cons.prems]) (use None in auto)
    then show ?thesis using None by (simp add: unlink_local_def reg.get_zero)
  next
    case (Some a)
    then have a: "px_M P (Inl c) = Some a" "reg_get c (px_local P) = a" "a \<noteq> 0" using reg.get_Some [OF Some] by auto
    have "runs (\<lambda>P'. px_inv (V(Inl c := None)) X P' \<and> px_M P' = px_M P \<and> px_groups P' = px_groups P \<and> cfg_frame P P') (unlink_conn m a P)"
    proof (rule runs_mono [OF unlink_conn_inv [OF Cons.prems assms(2) a(1)]])
      fix P1 assume 1: "px_inv (V(Inl c := None)) X P1 \<and> P1 = P\<lparr>px_world := px_world P1\<rparr>"
      then obtain w where w: "P1 = P\<lparr>px_world := w\<rparr>" by blast
      then show "px_inv (V(Inl c := None)) X P1 \<and> px_M P1 = px_M P \<and> px_groups P1 = px_groups P \<and> cfg_frame P P1"
        using 1 by (auto simp: px_M_def cfg_frame_def)
    qed
    then show ?thesis using a by (simp add: unlink_local_def)
  qed
  show ?case
  proof (simp only: each.simps, rule runs_bind [OF one])
    fix P1 assume 1: "px_inv (V(Inl c := None)) X P1 \<and> px_M P1 = px_M P \<and> px_groups P1 = px_groups P \<and> cfg_frame P P1"
    have V: "V(Inl c := None) |` (- Inl ` set cs) = V |` (- Inl ` set (c # cs))" by (auto simp: fun_eq_iff restrict_map_def)
    show "runs (\<lambda>P'. px_inv (V |` (- Inl ` set (c # cs))) X P' \<and> px_M P' = px_M P \<and> px_groups P' = px_groups P \<and> cfg_frame P P')
      (each (unlink_local m) cs P1)"
      by (rule runs_mono [OF Cons.IH [of "V(Inl c := None)"]]) (use 1 V cfg_frame_trans in metis)+
  qed
qed simp

definition ch_added :: "GroupChangeConfig \<Rightarrow> member set" where
  "ch_added cc = Inl ` set (ch_added_conn_ids cc) \<union> Inr ` set (ch_added_bridge_ids cc)"

definition ch_deleted :: "GroupChangeConfig \<Rightarrow> member set" where
  "ch_deleted cc = Inl ` set (ch_deleted_conn_ids cc) \<union> Inr ` set (ch_deleted_bridge_ids cc)"

lemma shrink_group_inv:
  assumes "px_inv V X P" and "alloc_ok (m_alloc m)" and "px_G P (ch_group_id cc) \<noteq> None"
  shows "runs (\<lambda>P'. px_inv (V |` (- ch_deleted cc)) X P' \<and> px_M P' = px_M P |` (- Inr ` set (ch_deleted_bridge_ids cc)) \<and>
      px_groups P' = px_groups P \<and> cfg_frame P P') (shrink_group m cc P)"
proof -
  let ?V = "V |` (- Inl ` set (ch_deleted_conn_ids cc))"
  have "runs (\<lambda>P'. px_inv (V |` (- ch_deleted cc)) X P' \<and> px_M P' = px_M P |` (- Inr ` set (ch_deleted_bridge_ids cc)) \<and>
      px_groups P' = px_groups P \<and> cfg_frame P P')
    (rbind (each (unlink_local m) (ch_deleted_conn_ids cc) P) (\<lambda>P. each (drop_bridge m) (ch_deleted_bridge_ids cc) P))"
  proof (rule runs_bind [OF unlink_locals_inv [OF assms(1,2)]])
    fix P1 assume 1: "px_inv ?V X P1 \<and> px_M P1 = px_M P \<and> px_groups P1 = px_groups P \<and> cfg_frame P P1"
    show "runs (\<lambda>P'. px_inv (V |` (- ch_deleted cc)) X P' \<and> px_M P' = px_M P |` (- Inr ` set (ch_deleted_bridge_ids cc)) \<and>
      px_groups P' = px_groups P \<and> cfg_frame P P') (each (drop_bridge m) (ch_deleted_bridge_ids cc) P1)"
    proof (rule runs_mono [OF drop_bridges_inv [OF _ assms(2), of ?V X]])
      fix P2 assume 2: "px_inv ?V X P2 \<and> px_M P2 = px_M P1 |` (- Inr ` set (ch_deleted_bridge_ids cc)) \<and>
        px_groups P2 = px_groups P1 \<and> cfg_frame P1 P2"
      then have "px_inv (V |` (- ch_deleted cc)) X P2"
        by (elim conjE) (erule px_inv_cong, auto simp: restrict_map_def ch_deleted_def split: if_splits)
      with 1 2 show "px_inv (V |` (- ch_deleted cc)) X P2 \<and> px_M P2 = px_M P |` (- Inr ` set (ch_deleted_bridge_ids cc)) \<and>
        px_groups P2 = px_groups P \<and> cfg_frame P P2" by (auto elim: cfg_frame_trans)
    qed (use 1 in blast)
  qed
  moreover have "reg_get (ch_group_id cc) (px_groups P) \<noteq> 0" using assms(3) by (simp add: reg.get_zero px_G_def)
  ultimately show ?thesis by (simp add: shrink_group_def)
qed

lemma remove_group_inv:
  assumes "px_inv V {} P" and "alloc_ok (m_alloc m)" and "px_G P (ch_group_id cc) \<noteq> None"
    and "\<And>i. px_M P i \<noteq> None \<Longrightarrow> V i = Some (ch_group_id cc) \<Longrightarrow> i \<in> Inr ` set (ch_deleted_bridge_ids cc)"
  shows "runs (\<lambda>P'. px_inv V {} P' \<and> px_M P' = px_M P |` (- Inr ` set (ch_deleted_bridge_ids cc)) \<and>
      px_G P' = (px_G P)(ch_group_id cc := None) \<and> cfg_frame P P') (remove_group m cc P)" (is "runs ?Q _")
proof -
  let ?gid = "ch_group_id cc"
  obtain g where g: "px_G P ?gid = Some g" using assms(3) by blast
  then have gr: "reg_get ?gid (px_groups P) = g" "g \<noteq> 0" using reg.get_Some [of "px_groups P" ?gid g] by (simp_all add: px_G_def)
  have mo: "members_ok (px_M P) (px_G P) V {} (nodes (px_world P))" by (rule px_invD(2) [OF assms(1)])
  obtain n where n: "nodes (px_world P) g = Some n" "group_node_ok (px_M P) V {} (nodes (px_world P)) ?gid n"
    using members_okD(4) [OF mo g] by blast
  have inp: "n_link n = 0 \<or> n_link n \<in> members (px_M P) V (nodes (px_world P)) ?gid Kreceiver"
    using n(2) by (simp add: group_node_ok_def)
  obtain k where k: "n_link n \<noteq> 0 \<Longrightarrow> nodes (px_world P) (n_link n) = Some k \<and> \<not> n_group k"
  proof (cases "n_link n = 0")
    case False
    then obtain i where "px_M P i = Some (n_link n)" using inp by (auto simp: members_iff)
    then show thesis using px_node [OF assms(1)] that by metis
  qed (use that in blast)
  let ?V = "\<lambda>i. if px_M P i = Some (n_link n) then None else V i"
  let ?N = "(if n_link n = 0 then nodes (px_world P) else (nodes (px_world P))(n_link n \<mapsto> k\<lparr>n_link := 0\<rparr>))
        (g \<mapsto> n\<lparr>n_up := False, n_link := 0, n_outs := []\<rparr>)"
  have same: "?V i = V i" if i: "px_M P i \<noteq> None" "i \<notin> Inr ` set (ch_deleted_bridge_ids cc)" for i
  proof (cases "px_M P i = Some (n_link n)")
    case True
    have "n_link n \<noteq> 0" using True px_node [OF assms(1) True] by metis
    then obtain j where j: "px_M P j = Some (n_link n)" "V j = Some ?gid" using inp by (auto simp: members_iff)
    then have "V i = Some ?gid" using members_okD(3) [OF mo True j(1)] by simp
    then show ?thesis using assms(4) i by blast
  qed simp
  have "runs ?Q (rbind (retire_group (m_alloc m) g (px_world P)) (\<lambda>w.
      rbind (each (drop_bridge m) (ch_deleted_bridge_ids cc) (P\<lparr>px_world := w\<rparr>)) (\<lambda>P.
      Ret (P\<lparr>px_groups := snd (reg_remove ?gid (px_groups P)), px_world := delete_obj g (px_world P)\<rparr>))))"
  proof (rule runs_bind [OF retire_group_ok [OF px_invD(1) [OF assms(1)] assms(2) n(1), of k]])
    fix w assume w: "plane_ok w \<and> nodes w = ?N"
    let ?P1 = "P\<lparr>px_world := w\<rparr>"
    have "members_ok (px_M P) (px_G P) ?V {?gid} (nodes w)"
      using members_ok_retire [OF mo g _ n(1), of k] k w by simp
    moreover have "dying_ok ?P1"
      by (rule dying_ok_world [OF px_invD(7) [OF assms(1)]]) (use w n k in \<open>auto simp: plain_iff group_node_ok_def split: if_splits\<close>)
    ultimately have i1: "px_inv ?V {?gid} ?P1"
      using px_invD [OF assms(1)] w by (simp add: px_inv_def locals_ok_def px_M_def px_G_def)
    show "runs ?Q (rbind (each (drop_bridge m) (ch_deleted_bridge_ids cc) ?P1) (\<lambda>P.
        Ret (P\<lparr>px_groups := snd (reg_remove ?gid (px_groups P)), px_world := delete_obj g (px_world P)\<rparr>)))"
    proof (rule runs_bind [OF drop_bridges_inv [OF i1 assms(2)]])
      fix P2
      assume 2: "px_inv ?V {?gid} P2 \<and> px_M P2 = px_M ?P1 |` (- Inr ` set (ch_deleted_bridge_ids cc)) \<and>
        px_groups P2 = px_groups ?P1 \<and> cfg_frame ?P1 P2"
      then have i2: "px_inv ?V {?gid} P2" by blast
      have M2: "px_M P2 = px_M P |` (- Inr ` set (ch_deleted_bridge_ids cc))" using 2 by (simp add: px_M_def)
      have G2: "px_G P2 = px_G P" using 2 by (simp add: px_G_def)
      let ?P3 = "P2\<lparr>px_groups := snd (reg_remove ?gid (px_groups P2)), px_world := delete_obj g (px_world P2)\<rparr>"
      have none: "?V i \<noteq> Some ?gid" if "px_M P2 i \<noteq> None" for i
        using that assms(4) [of i] by (auto simp: M2 restrict_map_def split: if_splits)
      have G3: "px_G ?P3 = (px_G P)(?gid := None)" using G2 reg.rem_look by (simp add: px_G_def)
      have M3: "px_M ?P3 = px_M P2" by (simp add: px_M_def)
      have "members_ok (px_M P2) ((px_G P)(?gid := None)) ?V ({?gid} - {?gid}) ((nodes (px_world P2))(g := None))"
        using members_ok_remove_group [OF px_invD(2) [OF i2], of ?gid g] none G2 g by simp
      moreover have "dying_ok ?P3"
      proof (rule dying_ok_upd [OF px_invD(7) [OF i2]])
        fix a assume "a \<in> set (px_dying P2)" "a \<in> plain (nodes (px_world P2))"
        moreover obtain x where "nodes (px_world P2) g = Some x" "n_group x"
          using members_okD(4) [OF px_invD(2) [OF i2], of ?gid g] G2 g by (auto simp: group_node_ok_def)
        ultimately show "a \<in> plain (nodes (px_world ?P3))"
          using delete_obj_ok(2) [OF px_invD(1) [OF i2], of g] by (auto simp: plain_iff)
      qed (use M3 in auto)
      ultimately have "px_inv ?V {} ?P3"
        using px_invD [OF i2] delete_obj_ok [OF px_invD(1) [OF i2], of g] G3 M3 by (simp add: px_inv_def locals_ok_def)
      then have "px_inv V {} ?P3" 
      proof (rule px_inv_cong)
        fix i assume "px_M ?P3 i \<noteq> None"
        then show "?V i = V i" using same [of i] by (simp add: M3 M2 restrict_map_def split: if_splits)
      qed
      then show "runs ?Q (Ret ?P3)" using M2 M3 G3 2 by (simp add: cfg_frame_def)
    qed
  qed (use n(2) k in \<open>auto simp: group_node_ok_def\<close>)
  then show ?thesis using gr by (simp add: remove_group_def)
qed

section \<open>Growing\<close>

definition assign :: "string \<Rightarrow> member set \<Rightarrow> (member \<Rightarrow> string option) \<Rightarrow> member \<Rightarrow> string option" where
  "assign g D V i = (if i \<in> D then Some g else V i)"

lemma assign_assign: "assign g D (assign g E V) = assign g (D \<union> E) V"
  by (auto simp: assign_def fun_eq_iff)

lemma assign_empty [simp]: "assign g {} V = V"
  by (simp add: assign_def fun_eq_iff)

lemma associate_conn_inv:
  assumes "px_inv V {} P" and "alloc_ok (m_alloc m)" and "px_M P i = Some a" and "V i = None" and "px_G P gid = Some g"
  shows "runs (\<lambda>P'. px_inv (assign gid {i} V) {} P' \<and> px_M P' = px_M P \<and> px_groups P' = px_groups P \<and> cfg_frame P P')
    (associate_conn m g a P)"
proof -
  have mo: "members_ok (px_M P) (px_G P) V {} (nodes (px_world P))" by (rule px_invD(2) [OF assms(1)])
  obtain n where n: "nodes (px_world P) a = Some n" "\<not> n_group n" "n_kind n \<noteq> Kundefined" using px_node [OF assms(1,3)] by metis
  obtain x where x: "nodes (px_world P) g = Some x" "n_group x" using members_okD(4) [OF mo assms(5)] by (auto simp: group_node_ok_def)
  have V: "V(i \<mapsto> gid) = assign gid {i} V" by (auto simp: assign_def fun_eq_iff)
  show ?thesis unfolding associate_conn_def
  proof (rule runs_bind [OF associate_ok [OF px_invD(1) [OF assms(1)] assms(2) n x]])
    fix y assume y: "case y of (r, w') \<Rightarrow> r = success \<and> plane_ok w' \<and>
      nodes w' = (nodes (px_world P))(a \<mapsto> n\<lparr>n_link := g\<rparr>, g \<mapsto> join_node a (n_kind n) x)"
    then have "members_ok (px_M P) (px_G P) (assign gid {i} V) {} (nodes (snd y))"
      using members_ok_join [OF mo assms(3) n(1) assms(4,5) _ x(1)] by (auto simp: V)
    moreover have "dying_ok (P\<lparr>px_world := snd y\<rparr>)"
      by (rule dying_ok_world [OF px_invD(7) [OF assms(1)]]) (use y n x in \<open>auto simp: plain_iff join_node_def split: if_splits\<close>)
    ultimately show "runs (\<lambda>P'. px_inv (assign gid {i} V) {} P' \<and> px_M P' = px_M P \<and> px_groups P' = px_groups P \<and> cfg_frame P P')
      (case y of (_, w) \<Rightarrow> Ret (P\<lparr>px_world := w\<rparr>))"
      using y px_invD [OF assms(1)] by (auto simp: px_inv_def locals_ok_def px_M_def px_G_def cfg_frame_def)
  qed
qed

lemma add_conns_inv:
  assumes "px_inv V {} P" and "alloc_ok (m_alloc m)" and "px_G P gid = Some g" and "distinct cs"
    and "\<And>c. c \<in> set cs \<Longrightarrow> px_M P (Inl c) \<noteq> None \<Longrightarrow> V (Inl c) = None"
  shows "runs (\<lambda>P'. px_inv (assign gid (Inl ` set cs) V) {} P' \<and> px_M P' = px_M P \<and> px_groups P' = px_groups P \<and> cfg_frame P P')
    (each (add_conn m g) cs P)"
  using assms(1,3-5)
proof (induction cs arbitrary: V P)
  case (Cons c cs)
  let ?V = "assign gid {Inl c} V"
  have one: "runs (\<lambda>P'. px_inv ?V {} P' \<and> px_M P' = px_M P \<and> px_groups P' = px_groups P \<and> cfg_frame P P') (add_conn m g c P)"
  proof (cases "reg_map (px_local P) c")
    case None
    have "px_inv ?V {} P" by (rule px_inv_cong [OF Cons.prems(1)]) (use None in \<open>auto simp: assign_def\<close>)
    then show ?thesis using None by (simp add: add_conn_def reg.get_zero)
  next
    case (Some a)
    then have a: "px_M P (Inl c) = Some a" "reg_get c (px_local P) = a" "a \<noteq> 0" using reg.get_Some [OF Some] by auto
    then show ?thesis using associate_conn_inv [OF Cons.prems(1) assms(2) a(1) _ Cons.prems(2)] Cons.prems(4) by (simp add: add_conn_def)
  qed
  show ?case
  proof (simp only: each.simps, rule runs_bind [OF one])
    fix P1 assume 1: "px_inv ?V {} P1 \<and> px_M P1 = px_M P \<and> px_groups P1 = px_groups P \<and> cfg_frame P P1"
    have V: "assign gid (Inl ` set cs) ?V = assign gid (Inl ` set (c # cs)) V" by (simp add: assign_assign Un_commute)
    have pre: "?V (Inl d) = None" if "d \<in> set cs" "px_M P1 (Inl d) \<noteq> None" for d
    proof -
      have "d \<noteq> c" "d \<in> set (c # cs)" "px_M P (Inl d) \<noteq> None" using that Cons.prems(3) 1 by auto
      then show ?thesis using Cons.prems(4) [of d] by (simp add: assign_def)
    qed
    show "runs (\<lambda>P'. px_inv (assign gid (Inl ` set (c # cs)) V) {} P' \<and> px_M P' = px_M P \<and> px_groups P' = px_groups P \<and> cfg_frame P P')
      (each (add_conn m g) cs P1)"
    proof (rule runs_mono [OF Cons.IH [of ?V P1, OF _ _ _ pre]])
      fix P2
      assume "px_inv (assign gid (Inl ` set cs) ?V) {} P2 \<and> px_M P2 = px_M P1 \<and> px_groups P2 = px_groups P1 \<and> cfg_frame P1 P2"
      then show "px_inv (assign gid (Inl ` set (c # cs)) V) {} P2 \<and> px_M P2 = px_M P \<and> px_groups P2 = px_groups P \<and> cfg_frame P P2"
        using 1 V cfg_frame_trans by metis
    qed (use 1 Cons.prems in \<open>auto simp: px_G_def\<close>)
  qed
qed simp

lemma add_bridge_inv:
  assumes "px_inv V {} P" and "alloc_ok (m_alloc m)" and "px_G P gid = Some g" and "px_M P (Inr b) = None"
    and "\<And>bc. map_of (mp_bridges (px_cfg P)) b = Some bc \<Longrightarrow> bridge_known bc"
  shows "runs (\<lambda>P'. px_inv (assign gid {Inr b} V) {} P' \<and> (\<forall>i. i \<noteq> Inr b \<longrightarrow> px_M P' i = px_M P i) \<and>
      px_groups P' = px_groups P \<and> cfg_frame P P') (add_bridge m g b P)" (is "runs ?Q _")
proof -
  have skip: "px_inv (assign gid {Inr b} V) {} P'" if "px_inv V {} P'" "px_M P' (Inr b) = None" for P'
    by (rule px_inv_cong [OF that(1)]) (use that(2) in \<open>auto simp: assign_def\<close>)
  show ?thesis
  proof (cases "map_of (mp_bridges (px_cfg P)) b")
    case None
    then show ?thesis using skip [OF assms(1,4)] by (simp add: add_bridge_def)
  next
    case (Some bc)
    have "runs ?Q (rbind (create_bridge m b bc P) (\<lambda>(err, a, P). if err \<noteq> 0 then Ret P else associate_conn m g a P))"
    proof (rule runs_bind [OF create_bridge_inv [OF assms(1,2,4) assms(5) [OF Some]]])
      fix y
      assume y: "case y of (e, a, P') \<Rightarrow> px_G P' = px_G P \<and> px_cfg P' = px_cfg P \<and> px_local P' = px_local P \<and> px_sdk P' = px_sdk P \<and> px_groups P' = px_groups P \<and>
        (if e = 0 then px_inv (V(Inr b := None)) {} P' \<and> px_M P' = (px_M P)(Inr b \<mapsto> a)
         else px_inv V {} P' \<and> px_M P' = px_M P)"
      obtain e a P1 where e: "y = (e, a, P1)" by (metis prod_cases3)
      have f: "px_G P1 = px_G P" "px_groups P1 = px_groups P" "cfg_frame P P1" using y e by (auto simp: cfg_frame_def)
      show "runs ?Q (case y of (err, a, P) \<Rightarrow> if err \<noteq> 0 then Ret P else associate_conn m g a P)"
      proof (cases "e = 0")
        case False
        then have "px_inv V {} P1" "px_M P1 = px_M P" using y e by auto
        then show ?thesis using skip [of P1] assms(4) False e f by simp
      next
        case True
        then have i: "px_inv (V(Inr b := None)) {} P1" and M: "px_M P1 = (px_M P)(Inr b \<mapsto> a)" using y e by auto
        have V: "assign gid {Inr b} (V(Inr b := None)) = assign gid {Inr b} V" by (auto simp: assign_def fun_eq_iff)
        have "px_M P1 (Inr b) = Some a" "(V(Inr b := None)) (Inr b) = None" "px_G P1 gid = Some g"
          using fun_cong [OF M, of "Inr b"] f assms(3) by simp_all
        from associate_conn_inv [OF i assms(2) this]
        have "runs (\<lambda>P'. px_inv (assign gid {Inr b} V) {} P' \<and> px_M P' = px_M P1 \<and> px_groups P' = px_groups P1 \<and> cfg_frame P1 P')
          (associate_conn m g a P1)" unfolding V .
        then have "runs ?Q (associate_conn m g a P1)"
          by (rule runs_mono) (use M f in \<open>auto elim: cfg_frame_trans\<close>)
        then show ?thesis using True e by simp
      qed
    qed
    then show ?thesis using Some by (simp add: add_bridge_def)
  qed
qed

definition bridges_known :: "mp_config \<Rightarrow> bool" where
  "bridges_known cfg \<longleftrightarrow> list_all (\<lambda>(b, bc). bridge_known bc) (mp_bridges cfg)"

lemma bridges_knownD: "bridges_known cfg \<Longrightarrow> map_of (mp_bridges cfg) b = Some bc \<Longrightarrow> bridge_known bc"
  by (auto simp: bridges_known_def list_all_iff dest: map_of_SomeD)

lemma add_bridges_inv:
  assumes "px_inv V {} P" and "alloc_ok (m_alloc m)" and "px_G P gid = Some g" and "distinct bs"
    and "\<And>b. b \<in> set bs \<Longrightarrow> px_M P (Inr b) = None" and "bridges_known (px_cfg P)"
  shows "runs (\<lambda>P'. px_inv (assign gid (Inr ` set bs) V) {} P' \<and> (\<forall>i. i \<notin> Inr ` set bs \<longrightarrow> px_M P' i = px_M P i) \<and>
      px_groups P' = px_groups P \<and> cfg_frame P P') (each (add_bridge m g) bs P)"
  using assms(1,3-6)
proof (induction bs arbitrary: V P)
  case (Cons b bs)
  let ?V = "assign gid {Inr b} V"
  have "px_M P (Inr b) = None" using Cons.prems(4) by simp
  note one = add_bridge_inv [OF Cons.prems(1) assms(2) Cons.prems(2) this bridges_knownD [OF Cons.prems(5)]]
  show ?case
  proof (simp only: each.simps, rule runs_bind [OF one])
    fix P1 assume 1: "px_inv ?V {} P1 \<and> (\<forall>i. i \<noteq> Inr b \<longrightarrow> px_M P1 i = px_M P i) \<and> px_groups P1 = px_groups P \<and> cfg_frame P P1"
    have V: "assign gid (Inr ` set bs) ?V = assign gid (Inr ` set (b # bs)) V" by (simp add: assign_assign Un_commute)
    have pre: "px_M P1 (Inr d) = None" if "d \<in> set bs" for d
    proof -
      have "d \<noteq> b" "d \<in> set (b # bs)" using that Cons.prems(3) by auto
      then have "px_M P1 (Inr d) = px_M P (Inr d)" using 1 by blast
      then show ?thesis using Cons.prems(4) \<open>d \<in> set (b # bs)\<close> by simp
    qed
    show "runs (\<lambda>P'. px_inv (assign gid (Inr ` set (b # bs)) V) {} P' \<and> (\<forall>i. i \<notin> Inr ` set (b # bs) \<longrightarrow> px_M P' i = px_M P i) \<and>
        px_groups P' = px_groups P \<and> cfg_frame P P') (each (add_bridge m g) bs P1)"
    proof (rule runs_mono [OF Cons.IH [of ?V P1, OF _ _ _ pre]])
      fix P2
      assume 2: "px_inv (assign gid (Inr ` set bs) ?V) {} P2 \<and> (\<forall>i. i \<notin> Inr ` set bs \<longrightarrow> px_M P2 i = px_M P1 i) \<and>
        px_groups P2 = px_groups P1 \<and> cfg_frame P1 P2"
      have "px_M P2 i = px_M P i" if "i \<notin> Inr ` set (b # bs)" for i
      proof -
        have "i \<noteq> Inr b" "i \<notin> Inr ` set bs" using that by auto
        then show ?thesis using 1 2 by metis
      qed
      then show "px_inv (assign gid (Inr ` set (b # bs)) V) {} P2 \<and> (\<forall>i. i \<notin> Inr ` set (b # bs) \<longrightarrow> px_M P2 i = px_M P i) \<and>
        px_groups P2 = px_groups P \<and> cfg_frame P P2" using 1 2 V cfg_frame_trans by metis
    qed (use 1 Cons.prems in \<open>auto simp: px_G_def cfg_frame_def\<close>)
  qed
qed simp

lemma extend_group_inv:
  assumes "px_inv V {} P" and "alloc_ok (m_alloc m)" and "px_G P (ch_group_id cc) = Some g"
    and "distinct (ch_added_conn_ids cc)" and "distinct (ch_added_bridge_ids cc)"
    and "\<And>i. i \<in> ch_added cc \<Longrightarrow> px_M P i \<noteq> None \<Longrightarrow> V i = None"
    and "\<And>b. b \<in> set (ch_added_bridge_ids cc) \<Longrightarrow> px_M P (Inr b) = None" and "bridges_known (px_cfg P)"
  shows "runs (\<lambda>P'. px_inv (assign (ch_group_id cc) (ch_added cc) V) {} P' \<and>
      (\<forall>i. i \<notin> Inr ` set (ch_added_bridge_ids cc) \<longrightarrow> px_M P' i = px_M P i) \<and> px_groups P' = px_groups P \<and> cfg_frame P P')
    (extend_group m g cc P)" (is "runs ?Q _")
proof -
  let ?gid = "ch_group_id cc" and ?cs = "ch_added_conn_ids cc" and ?bs = "ch_added_bridge_ids cc"
  let ?V = "assign ?gid (Inl ` set ?cs) V"
  have pre: "V (Inl c) = None" if "c \<in> set ?cs" "px_M P (Inl c) \<noteq> None" for c
    using assms(6) that by (auto simp: ch_added_def)
  show ?thesis unfolding extend_group_def
  proof (rule runs_bind [OF add_conns_inv [OF assms(1-4) pre]])
    fix P1 assume 1: "px_inv ?V {} P1 \<and> px_M P1 = px_M P \<and> px_groups P1 = px_groups P \<and> cfg_frame P P1"
    have V: "assign ?gid (Inr ` set ?bs) ?V = assign ?gid (ch_added cc) V" by (simp add: assign_assign ch_added_def Un_commute)
    show "runs ?Q (each (add_bridge m g) ?bs P1)"
    proof (rule runs_mono [OF add_bridges_inv [of ?V P1 m ?gid g ?bs, OF _ assms(2) _ assms(5)]])
      fix P2
      assume "px_inv (assign ?gid (Inr ` set ?bs) ?V) {} P2 \<and> (\<forall>i. i \<notin> Inr ` set ?bs \<longrightarrow> px_M P2 i = px_M P1 i) \<and>
        px_groups P2 = px_groups P1 \<and> cfg_frame P1 P2"
      then show "?Q P2" using 1 V cfg_frame_trans by metis
    qed (use 1 assms(3,7,8) in \<open>auto simp: px_G_def cfg_frame_def\<close>)
  qed
qed

text \<open>Lists of changes: each connection joins at most one group.\<close>

fun assign_all :: "GroupChangeConfig list \<Rightarrow> (member \<Rightarrow> string option) \<Rightarrow> member \<Rightarrow> string option" where
  "assign_all [] V = V"
| "assign_all (cc # ccs) V = assign_all ccs (assign (ch_group_id cc) (ch_added cc) V)"

definition changes_ok :: "GroupChangeConfig list \<Rightarrow> bool" where
  "changes_ok ccs \<longleftrightarrow> distinct (map ch_group_id ccs) \<and>
     (\<forall>cc \<in> set ccs. distinct (ch_added_conn_ids cc) \<and> distinct (ch_added_bridge_ids cc)) \<and>
     (\<forall>cc \<in> set ccs. \<forall>dd \<in> set ccs. \<forall>i. i \<in> ch_added cc \<and> i \<in> ch_added dd \<longrightarrow> ch_group_id cc = ch_group_id dd)"

definition vacant :: "(member \<Rightarrow> string option) \<Rightarrow> proxy \<Rightarrow> GroupChangeConfig list \<Rightarrow> bool" where
  "vacant V P ccs \<longleftrightarrow> (\<forall>cc \<in> set ccs. (\<forall>i \<in> ch_added cc. px_M P i \<noteq> None \<longrightarrow> V i = None) \<and>
     (\<forall>b \<in> set (ch_added_bridge_ids cc). px_M P (Inr b) = None))"

definition added_bridges :: "GroupChangeConfig list \<Rightarrow> member set" where
  "added_bridges ccs = (\<Union>cc \<in> set ccs. Inr ` set (ch_added_bridge_ids cc))"

lemma changes_ok_Cons: "changes_ok (cc # ccs) \<Longrightarrow> changes_ok ccs"
  by (auto simp: changes_ok_def)

lemma changes_disjoint:
  assumes "changes_ok (cc # ccs)" and "dd \<in> set ccs" and "i \<in> ch_added dd"
  shows "i \<notin> ch_added cc"
  using assms by (auto simp: changes_ok_def)

lemma assign_all_append: "assign_all (xs @ ys) V = assign_all ys (assign_all xs V)"
  by (induction xs arbitrary: V) auto

lemma assign_all_out: "(\<And>cc. cc \<in> set ccs \<Longrightarrow> i \<notin> ch_added cc) \<Longrightarrow> assign_all ccs V i = V i"
  by (induction ccs arbitrary: V) (auto simp: assign_def)

lemma assign_all_in:
  "changes_ok ccs \<Longrightarrow> cc \<in> set ccs \<Longrightarrow> i \<in> ch_added cc \<Longrightarrow> assign_all ccs V i = Some (ch_group_id cc)"
proof (induction ccs arbitrary: V)
  case (Cons dd ccs)
  show ?case
  proof (cases "cc \<in> set ccs")
    case True
    then show ?thesis using Cons changes_ok_Cons by auto
  next
    case False
    then have cc: "cc = dd" using Cons.prems(2) by simp
    have "i \<notin> ch_added ee" if "ee \<in> set ccs" for ee
      using changes_disjoint [OF Cons.prems(1) that, of i] Cons.prems(3) cc by blast
    then show ?thesis using cc Cons.prems(3) assign_all_out [of ccs i] by (simp add: assign_def)
  qed
qed simp

lemma vacant_step:
  assumes "vacant V P (cc # ccs)" and "changes_ok (cc # ccs)"
    and "\<And>i. i \<notin> Inr ` set (ch_added_bridge_ids cc) \<Longrightarrow> px_M P' i = px_M P i"
  shows "vacant (assign g (ch_added cc) V) P' ccs"
  unfolding vacant_def
proof (intro ballI conjI impI)
  fix dd i assume d: "dd \<in> set ccs" "i \<in> ch_added dd" "px_M P' i \<noteq> None"
  have "i \<notin> ch_added cc" using changes_disjoint [OF assms(2) d(1,2)] .
  then have "px_M P' i = px_M P i" using assms(3) by (auto simp: ch_added_def)
  then show "assign g (ch_added cc) V i = None" using assms(1) d \<open>i \<notin> ch_added cc\<close> by (auto simp: vacant_def assign_def)
next
  fix dd b assume d: "dd \<in> set ccs" "b \<in> set (ch_added_bridge_ids dd)"
  then have "Inr b \<notin> ch_added cc" using changes_disjoint [OF assms(2) d(1), of "Inr b"] by (auto simp: ch_added_def)
  then have "px_M P' (Inr b) = px_M P (Inr b)" using assms(3) [of "Inr b"] unfolding ch_added_def by blast
  then show "px_M P' (Inr b) = None" using assms(1) d by (auto simp: vacant_def)
qed

lemma vacantD:
  assumes "vacant V P (cc # ccs)"
  shows "\<And>i. i \<in> ch_added cc \<Longrightarrow> px_M P i \<noteq> None \<Longrightarrow> V i = None"
    "\<And>b. b \<in> set (ch_added_bridge_ids cc) \<Longrightarrow> px_M P (Inr b) = None"
  using assms by (simp_all add: vacant_def)

lemma grow_groups_inv:
  assumes "px_inv V {} P" and "alloc_ok (m_alloc m)" and "changes_ok ccs" and "vacant V P ccs" and "bridges_known (px_cfg P)"
    and "\<And>cc. cc \<in> set ccs \<Longrightarrow> px_G P (ch_group_id cc) \<noteq> None"
  shows "runs (\<lambda>P'. px_inv (assign_all ccs V) {} P' \<and> (\<forall>i. i \<notin> added_bridges ccs \<longrightarrow> px_M P' i = px_M P i) \<and>
      px_groups P' = px_groups P \<and> cfg_frame P P') (each (grow_group m) ccs P)"
  using assms(1,3-6)
proof (induction ccs arbitrary: V P)
  case (Cons cc ccs)
  let ?V = "assign (ch_group_id cc) (ch_added cc) V"
  obtain g where g: "px_G P (ch_group_id cc) = Some g" using Cons.prems(5) by force
  then have r: "reg_get (ch_group_id cc) (px_groups P) = g" "g \<noteq> 0"
    using reg.get_Some [of "px_groups P" "ch_group_id cc" g] by (simp_all add: px_G_def)
  have d: "distinct (ch_added_conn_ids cc)" "distinct (ch_added_bridge_ids cc)" using Cons.prems(2) by (simp_all add: changes_ok_def)
  have one: "runs (\<lambda>P'. px_inv ?V {} P' \<and> (\<forall>i. i \<notin> Inr ` set (ch_added_bridge_ids cc) \<longrightarrow> px_M P' i = px_M P i) \<and>
      px_groups P' = px_groups P \<and> cfg_frame P P') (grow_group m cc P)"
    using extend_group_inv [OF Cons.prems(1) assms(2) g d vacantD [OF Cons.prems(3)] Cons.prems(4)] r by (simp add: grow_group_def)
  show ?case
  proof (simp only: each.simps, rule runs_bind [OF one])
    fix P1
    assume 1: "px_inv ?V {} P1 \<and> (\<forall>i. i \<notin> Inr ` set (ch_added_bridge_ids cc) \<longrightarrow> px_M P1 i = px_M P i) \<and>
      px_groups P1 = px_groups P \<and> cfg_frame P P1"
    have v: "vacant ?V P1 ccs" by (rule vacant_step [OF Cons.prems(3,2)]) (use 1 in blast)
    show "runs (\<lambda>P'. px_inv (assign_all (cc # ccs) V) {} P' \<and> (\<forall>i. i \<notin> added_bridges (cc # ccs) \<longrightarrow> px_M P' i = px_M P i) \<and>
      px_groups P' = px_groups P \<and> cfg_frame P P') (each (grow_group m) ccs P1)"
    proof (rule runs_mono [OF Cons.IH [of ?V P1, OF _ changes_ok_Cons [OF Cons.prems(2)] v]])
      fix P2
      assume 2: "px_inv (assign_all ccs ?V) {} P2 \<and> (\<forall>i. i \<notin> added_bridges ccs \<longrightarrow> px_M P2 i = px_M P1 i) \<and>
        px_groups P2 = px_groups P1 \<and> cfg_frame P1 P2"
      have "px_M P2 i = px_M P i" if "i \<notin> added_bridges (cc # ccs)" for i
      proof -
        have "i \<notin> added_bridges ccs" "i \<notin> Inr ` set (ch_added_bridge_ids cc)" using that by (auto simp: added_bridges_def)
        then show ?thesis using 1 2 by metis
      qed
      then show "px_inv (assign_all (cc # ccs) V) {} P2 \<and> (\<forall>i. i \<notin> added_bridges (cc # ccs) \<longrightarrow> px_M P2 i = px_M P i) \<and>
        px_groups P2 = px_groups P \<and> cfg_frame P P2" using 1 2 cfg_frame_trans by (metis assign_all.simps(2))
    qed (use 1 Cons.prems in \<open>auto simp: px_G_def cfg_frame_def\<close>)
  qed
qed (simp add: added_bridges_def)

lemma open_group_inv:
  assumes "px_inv V {} P" and "alloc_ok (m_alloc m)" and "px_G P gid = None" and "m_alloc m (px_world P) = g" and "g \<noteq> 0"
    and "\<And>i. px_M P i \<noteq> None \<Longrightarrow> V i \<noteq> Some gid"
  shows "px_inv V {} (P\<lparr>px_world := start_group g (px_world P), px_groups := snd (reg_add gid g (px_groups P)), px_ids := (px_ids P)(g := gid)\<rparr>)"
      (is "px_inv V {} ?P")
    and "fst (reg_add gid g (px_groups P)) = 0"
    and "reg_map (snd (reg_add gid g (px_groups P))) = (px_G P)(gid \<mapsto> g)"
proof -
  have fr: "w_objs (px_world P) g = None" "aligned g" using alloc_okD [OF assms(2)] assms(4,5) by auto
  show G: "fst (reg_add gid g (px_groups P)) = 0" "reg_map (snd (reg_add gid g (px_groups P))) = (px_G P)(gid \<mapsto> g)"
    using reg_add_fresh [OF px_invD(6) [OF assms(1)] _ assms(5), of gid] assms(3) by (simp_all add: px_G_def)
  have M: "px_M ?P = px_M P" "px_G ?P = (px_G P)(gid \<mapsto> g)" using G by (simp_all add: px_M_def px_G_def)
  note sg = start_group_ok [OF px_invD(1) [OF assms(1)] fr assms(5)]
  have "members_ok (px_M ?P) (px_G ?P) V {} (nodes (px_world ?P))" unfolding M
    using members_ok_group [OF px_invD(2) [OF assms(1)] assms(3) _ _ assms(5)] fr assms(6) sg(2) by (simp add: nodes_dom)
  moreover have "locals_ok ?P"
  proof (rule locals_ok_upd [OF px_invD(3) [OF assms(1)]])
    fix c x assume "reg_map (px_local P) c = Some x"
    then have "px_M P (Inl c) = Some x" by simp
    then have "x \<noteq> g" using px_node [OF assms(1)] fr(1) nodes_dom [of "px_world P" g] by (metis option.distinct(1))
    then show "px_parts ?P x = px_parts P x \<and> px_ids ?P x = px_ids P x" by simp
  qed simp_all
  moreover have "dying_ok ?P"
    by (rule dying_ok_upd [OF px_invD(7) [OF assms(1)]])
      (use M sg(2) fr(1) in \<open>auto simp: plain_iff nodes_dom [symmetric]\<close>)
  ultimately show "px_inv V {} ?P" using px_invD(4-6) [OF assms(1)] sg(1) assms(5) by (simp add: px_inv_def)
qed

lemma add_groups_inv:
  assumes "px_inv V {} P" and "alloc_ok (m_alloc m)" and "changes_ok ccs" and "vacant V P ccs" and "bridges_known (px_cfg P)"
    and "\<And>cc. cc \<in> set ccs \<Longrightarrow> px_G P (ch_group_id cc) = None"
    and "\<And>cc i. cc \<in> set ccs \<Longrightarrow> px_M P i \<noteq> None \<Longrightarrow> V i \<noteq> Some (ch_group_id cc)"
  shows "runs (\<lambda>(r, P'). (r = success \<or> r = error_out_of_memory) \<and> (r = success \<longrightarrow> px_inv (assign_all ccs V) {} P' \<and>
      (\<forall>i. i \<notin> added_bridges ccs \<longrightarrow> px_M P' i = px_M P i) \<and> dom (px_G P') = dom (px_G P) \<union> ch_group_id ` set ccs \<and> cfg_frame P P'))
    (add_groups m ccs P)"
  using assms(1,3-7)
proof (induction ccs arbitrary: V P)
  case (Cons cc ccs)
  let ?gid = "ch_group_id cc" and ?g = "m_alloc m (px_world P)"
  let ?V = "assign ?gid (ch_added cc) V"
  let ?Q = "\<lambda>(r, P'). (r = success \<or> r = error_out_of_memory) \<and> (r = success \<longrightarrow> px_inv (assign_all (cc # ccs) V) {} P' \<and>
      (\<forall>i. i \<notin> added_bridges (cc # ccs) \<longrightarrow> px_M P' i = px_M P i) \<and> dom (px_G P') = dom (px_G P) \<union> ch_group_id ` set (cc # ccs) \<and> cfg_frame P P')"
  show ?case
  proof (cases "?g = 0")
    case False
    have ng: "px_G P ?gid = None" using Cons.prems(5) by simp
    have nv: "V i \<noteq> Some ?gid" if "px_M P i \<noteq> None" for i using Cons.prems(6) that by simp
    let ?P0 = "P\<lparr>px_world := start_group ?g (px_world P), px_groups := snd (reg_add ?gid ?g (px_groups P)), px_ids := (px_ids P)(?g := ?gid)\<rparr>"
    note og = open_group_inv [OF Cons.prems(1) assms(2) ng refl False nv]
    have M0: "px_M ?P0 = px_M P" "px_G ?P0 = (px_G P)(?gid \<mapsto> ?g)" "cfg_frame P ?P0"
      using og(3) by (simp_all add: px_M_def px_G_def cfg_frame_def)
    have g0: "px_G ?P0 ?gid = Some ?g" using M0(2) by simp
    have d: "distinct (ch_added_conn_ids cc)" "distinct (ch_added_bridge_ids cc)" using Cons.prems(2) by (simp_all add: changes_ok_def)
    have v0: "vacant V ?P0 (cc # ccs)" using Cons.prems(3) by (simp only: vacant_def M0)
    have k0: "bridges_known (px_cfg ?P0)" using Cons.prems(4) by simp
    have "runs ?Q (rbind (extend_group m ?g cc ?P0) (add_groups m ccs))"
    proof (rule runs_bind [OF extend_group_inv [OF og(1) assms(2) g0 d vacantD [OF v0] k0]])
      fix P1
      assume 1: "px_inv ?V {} P1 \<and> (\<forall>i. i \<notin> Inr ` set (ch_added_bridge_ids cc) \<longrightarrow> px_M P1 i = px_M ?P0 i) \<and>
        px_groups P1 = px_groups ?P0 \<and> cfg_frame ?P0 P1"
      have G1: "px_G P1 = (px_G P)(?gid \<mapsto> ?g)" using 1 og(3) by (simp add: px_G_def)
      have M1: "px_M P1 i = px_M P i" if "i \<notin> Inr ` set (ch_added_bridge_ids cc)" for i using 1 that M0(1) by simp
      have f1: "cfg_frame P P1" using 1 M0(3) cfg_frame_trans by blast
      have v: "vacant ?V P1 ccs" by (rule vacant_step [OF Cons.prems(3,2) M1])
      have gd: "ch_group_id dd \<noteq> ?gid" if "dd \<in> set ccs" for dd
      proof -
        have "?gid \<notin> ch_group_id ` set ccs" using Cons.prems(2) by (simp add: changes_ok_def)
        then show ?thesis using that by (metis imageI)
      qed
      have pre1: "px_G P1 (ch_group_id dd) = None" if "dd \<in> set ccs" for dd using gd [OF that] Cons.prems(5) that G1 by simp
      have pre2: "?V i \<noteq> Some (ch_group_id dd)" if "dd \<in> set ccs" "px_M P1 i \<noteq> None" for dd i
      proof (cases "i \<in> ch_added cc")
        case False
        then have "px_M P i \<noteq> None" using M1 [of i] that(2) by (auto simp: ch_added_def)
        then show ?thesis using Cons.prems(6) [of dd i] that(1) False by (simp add: assign_def)
      qed (use gd [OF that(1)] in \<open>simp add: assign_def\<close>)
      show "runs ?Q (add_groups m ccs P1)"
      proof (rule runs_mono [OF Cons.IH [of ?V P1, OF _ changes_ok_Cons [OF Cons.prems(2)] v _ pre1 pre2]])
        fix y
        assume y: "case y of (r, P') \<Rightarrow> (r = success \<or> r = error_out_of_memory) \<and> (r = success \<longrightarrow> px_inv (assign_all ccs ?V) {} P' \<and>
          (\<forall>i. i \<notin> added_bridges ccs \<longrightarrow> px_M P' i = px_M P1 i) \<and> dom (px_G P') = dom (px_G P1) \<union> ch_group_id ` set ccs \<and> cfg_frame P1 P')"
        obtain r P2 where e: "y = (r, P2)" by force
        have "px_M P2 i = px_M P i" if "r = success" "i \<notin> added_bridges (cc # ccs)" for i
        proof -
          have "i \<notin> added_bridges ccs" "i \<notin> Inr ` set (ch_added_bridge_ids cc)" using that(2) by (auto simp: added_bridges_def)
          then show ?thesis using M1 y e that(1) by simp
        qed
        moreover have "dom (px_G P2) = dom (px_G P) \<union> ch_group_id ` set (cc # ccs)" if "r = success"
          using y e that G1 by auto
        ultimately show "?Q y" using y e f1 cfg_frame_trans by auto
      qed (use 1 f1 Cons.prems(4) in \<open>auto simp: cfg_frame_def\<close>)
    qed
    then show ?thesis using False og(2) by (simp add: split_def Let_def)
  qed simp
qed (simp add: added_bridges_def)

lemma remove_groups_inv:
  assumes "px_inv V {} P" and "alloc_ok (m_alloc m)" and "distinct (map ch_group_id ccs)"
    and "\<And>cc. cc \<in> set ccs \<Longrightarrow> px_G P (ch_group_id cc) \<noteq> None"
    and "\<And>cc i. cc \<in> set ccs \<Longrightarrow> px_M P i \<noteq> None \<Longrightarrow> V i = Some (ch_group_id cc) \<Longrightarrow> i \<in> Inr ` set (ch_deleted_bridge_ids cc)"
  shows "runs (\<lambda>P'. px_inv V {} P' \<and> px_M P' = px_M P |` (- (\<Union>cc \<in> set ccs. Inr ` set (ch_deleted_bridge_ids cc))) \<and>
      px_G P' = px_G P |` (- ch_group_id ` set ccs) \<and> cfg_frame P P') (each (remove_group m) ccs P)"
  using assms(1,3-5)
proof (induction ccs arbitrary: P)
  case (Cons cc ccs)
  let ?D = "\<lambda>cc. Inr ` set (ch_deleted_bridge_ids cc) :: member set"
  have "px_G P (ch_group_id cc) \<noteq> None" using Cons.prems(3) by simp
  note one = remove_group_inv [OF Cons.prems(1) assms(2) this]
  show ?case
  proof (simp only: each.simps, rule runs_bind [OF one])
    fix P1 assume 1: "px_inv V {} P1 \<and> px_M P1 = px_M P |` (- ?D cc) \<and> px_G P1 = (px_G P)(ch_group_id cc := None) \<and> cfg_frame P P1"
    have M: "px_M P1 |` (- (\<Union>cc \<in> set ccs. ?D cc)) = px_M P |` (- (\<Union>cc \<in> set (cc # ccs). ?D cc))"
      using 1 by (auto simp: fun_eq_iff restrict_map_def)
    have "(px_G P)(ch_group_id cc := None) |` (- ch_group_id ` set ccs) = px_G P |` (- ch_group_id ` set (cc # ccs))"
      by (auto simp: fun_eq_iff restrict_map_def)
    then have G: "px_G P1 |` (- ch_group_id ` set ccs) = px_G P |` (- ch_group_id ` set (cc # ccs))" using 1 by simp
    have pre1: "px_G P1 (ch_group_id dd) \<noteq> None" if "dd \<in> set ccs" for dd
      using Cons.prems(2,3) that 1 by (auto simp: image_iff)
    have pre2: "i \<in> ?D dd" if "dd \<in> set ccs" "px_M P1 i \<noteq> None" "V i = Some (ch_group_id dd)" for dd i
      using Cons.prems(4) [of dd i] that 1 by (auto simp: restrict_map_def split: if_splits)
    show "runs (\<lambda>P'. px_inv V {} P' \<and> px_M P' = px_M P |` (- (\<Union>cc \<in> set (cc # ccs). ?D cc)) \<and>
      px_G P' = px_G P |` (- ch_group_id ` set (cc # ccs)) \<and> cfg_frame P P') (each (remove_group m) ccs P1)"
    proof (rule runs_mono [OF Cons.IH [of P1, OF _ _ pre1 pre2]])
      fix P2 assume "px_inv V {} P2 \<and> px_M P2 = px_M P1 |` (- (\<Union>cc \<in> set ccs. ?D cc)) \<and>
        px_G P2 = px_G P1 |` (- ch_group_id ` set ccs) \<and> cfg_frame P1 P2"
      then show "px_inv V {} P2 \<and> px_M P2 = px_M P |` (- (\<Union>cc \<in> set (cc # ccs). ?D cc)) \<and>
        px_G P2 = px_G P |` (- ch_group_id ` set (cc # ccs)) \<and> cfg_frame P P2" using 1 M G cfg_frame_trans by metis
    qed (use 1 Cons.prems(2) in auto)
  qed (use Cons.prems(4) in simp)
qed simp

lemma shrink_groups_inv:
  assumes "px_inv V {} P" and "alloc_ok (m_alloc m)" and "\<And>cc. cc \<in> set ccs \<Longrightarrow> px_G P (ch_group_id cc) \<noteq> None"
  shows "runs (\<lambda>P'. px_inv (V |` (- (\<Union>cc \<in> set ccs. ch_deleted cc))) {} P' \<and>
      px_M P' = px_M P |` (- (\<Union>cc \<in> set ccs. Inr ` set (ch_deleted_bridge_ids cc))) \<and> px_G P' = px_G P \<and> cfg_frame P P')
    (each (shrink_group m) ccs P)"
  using assms(1,3)
proof (induction ccs arbitrary: V P)
  case (Cons cc ccs)
  let ?D = "\<lambda>cc. Inr ` set (ch_deleted_bridge_ids cc) :: member set"
  have "px_G P (ch_group_id cc) \<noteq> None" using Cons.prems(2) by simp
  note one = shrink_group_inv [OF Cons.prems(1) assms(2) this]
  show ?case
  proof (simp only: each.simps, rule runs_bind [OF one])
    fix P1 assume 1: "px_inv (V |` (- ch_deleted cc)) {} P1 \<and> px_M P1 = px_M P |` (- ?D cc) \<and> px_groups P1 = px_groups P \<and> cfg_frame P P1"
    have M: "px_M P1 |` (- (\<Union>cc \<in> set ccs. ?D cc)) = px_M P |` (- (\<Union>cc \<in> set (cc # ccs). ?D cc))"
      using 1 by (auto simp: fun_eq_iff restrict_map_def)
    have V: "V |` (- ch_deleted cc) |` (- (\<Union>cc \<in> set ccs. ch_deleted cc)) = V |` (- (\<Union>cc \<in> set (cc # ccs). ch_deleted cc))"
      by (auto simp: fun_eq_iff restrict_map_def)
    have G: "px_G P1 = px_G P" using 1 by (simp add: px_G_def)
    show "runs (\<lambda>P'. px_inv (V |` (- (\<Union>cc \<in> set (cc # ccs). ch_deleted cc))) {} P' \<and>
      px_M P' = px_M P |` (- (\<Union>cc \<in> set (cc # ccs). ?D cc)) \<and> px_G P' = px_G P \<and> cfg_frame P P') (each (shrink_group m) ccs P1)"
    proof (rule runs_mono [OF Cons.IH [of "V |` (- ch_deleted cc)" P1]])
      fix P2 assume "px_inv (V |` (- ch_deleted cc) |` (- (\<Union>cc \<in> set ccs. ch_deleted cc))) {} P2 \<and>
        px_M P2 = px_M P1 |` (- (\<Union>cc \<in> set ccs. ?D cc)) \<and> px_G P2 = px_G P1 \<and> cfg_frame P1 P2"
      then show "px_inv (V |` (- (\<Union>cc \<in> set (cc # ccs). ch_deleted cc))) {} P2 \<and>
        px_M P2 = px_M P |` (- (\<Union>cc \<in> set (cc # ccs). ?D cc)) \<and> px_G P2 = px_G P \<and> cfg_frame P P2"
        using 1 M G V cfg_frame_trans by metis
    qed (use 1 G Cons.prems(2) in auto)
  qed
qed simp

section \<open>Configurations\<close>

definition ids_of :: "GroupConfig \<Rightarrow> member set" where
  "ids_of gc = Inl ` set (gc_conn_ids gc) \<union> Inr ` set (gc_bridge_ids gc)"

text \<open>The group a configuration puts a connection or bridge into.\<close>

definition owner :: "mp_config \<Rightarrow> member \<Rightarrow> string option" where
  "owner cfg i = map_option fst (find (\<lambda>(g, gc). i \<in> ids_of gc) (mp_groups cfg))"

text \<open>What the agent sends: every connection or bridge is in one group, listed once, and the bridges are
  of the types the proxy has.\<close>

definition cfg_ok :: "mp_config \<Rightarrow> bool" where
  "cfg_ok cfg \<longleftrightarrow> distinct (map fst (mp_groups cfg)) \<and>
     (\<forall>(g, gc) \<in> set (mp_groups cfg). distinct (gc_conn_ids gc) \<and> distinct (gc_bridge_ids gc)) \<and>
     (\<forall>(g, gc) \<in> set (mp_groups cfg). \<forall>(h, hc) \<in> set (mp_groups cfg). g \<noteq> h \<longrightarrow> ids_of gc \<inter> ids_of hc = {}) \<and>
     bridges_known cfg"

lemma cfg_group_iff: "cfg_ok cfg \<Longrightarrow> map_of (mp_groups cfg) g = Some gc \<longleftrightarrow> (g, gc) \<in> set (mp_groups cfg)"
  by (simp add: cfg_ok_def map_of_eq_Some_iff)

lemma cfg_unique:
  assumes "cfg_ok cfg" and "map_of (mp_groups cfg) g = Some gc" and "map_of (mp_groups cfg) h = Some hc"
    and "i \<in> ids_of gc" and "i \<in> ids_of hc"
  shows "g = h"
proof (rule ccontr)
  assume "g \<noteq> h"
  moreover have "(g, gc) \<in> set (mp_groups cfg)" "(h, hc) \<in> set (mp_groups cfg)" using assms(2,3) cfg_group_iff [OF assms(1)] by auto
  ultimately have "ids_of gc \<inter> ids_of hc = {}" using assms(1) unfolding cfg_ok_def by fast
  then show False using assms(4,5) by blast
qed

lemma find_mem: "find Q xs = Some x \<Longrightarrow> x \<in> set xs \<and> Q x"
  by (auto simp: find_Some_iff)

lemma owner_iff:
  assumes "cfg_ok cfg"
  shows "owner cfg i = Some g \<longleftrightarrow> (\<exists>gc. map_of (mp_groups cfg) g = Some gc \<and> i \<in> ids_of gc)"
proof
  assume "owner cfg i = Some g"
  then obtain gc where "find (\<lambda>(g, gc). i \<in> ids_of gc) (mp_groups cfg) = Some (g, gc)" by (auto simp: owner_def)
  from find_mem [OF this] have "(g, gc) \<in> set (mp_groups cfg)" "i \<in> ids_of gc" by auto
  then show "\<exists>gc. map_of (mp_groups cfg) g = Some gc \<and> i \<in> ids_of gc" using cfg_group_iff [OF assms] by blast
next
  assume "\<exists>gc. map_of (mp_groups cfg) g = Some gc \<and> i \<in> ids_of gc"
  then obtain gc where gc: "map_of (mp_groups cfg) g = Some gc" "i \<in> ids_of gc" by blast
  then have "find (\<lambda>(g, gc). i \<in> ids_of gc) (mp_groups cfg) \<noteq> None"
    using cfg_group_iff [OF assms] by (auto simp: find_None_iff)
  then obtain h hc where h: "find (\<lambda>(g, gc). i \<in> ids_of gc) (mp_groups cfg) = Some (h, hc)" by auto
  from find_mem [OF this] have "(h, hc) \<in> set (mp_groups cfg)" "i \<in> ids_of hc" by auto
  then have "h = g" using cfg_unique [OF assms _ gc(1)] gc(2) cfg_group_iff [OF assms] by blast
  then show "owner cfg i = Some g" using h by (simp add: owner_def)
qed

lemma owner_None_iff: "owner cfg i = None \<longleftrightarrow> (\<forall>(g, gc) \<in> set (mp_groups cfg). i \<notin> ids_of gc)"
  by (auto simp: owner_def find_None_iff)

definition ord_ok :: "mgr \<Rightarrow> bool" where
  "ord_ok m \<longleftrightarrow> (\<forall>xs. mset (m_ord m xs) = mset xs)"

lemma ord_okD:
  assumes "ord_ok m"
  shows "set (m_ord m xs) = set xs" "distinct (m_ord m xs) = distinct xs"
proof -
  have "mset (m_ord m xs) = mset xs" using assms by (simp add: ord_ok_def)
  then show "set (m_ord m xs) = set xs" "distinct (m_ord m xs) = distinct xs"
    by (metis set_mset_mset, metis mset_eq_imp_distinct_iff)
qed

text \<open>The three lists \<open>apply_config\<close> computes, for distinct names in any order.\<close>

lemma deleted_changes_iff:
  "cc \<in> set (deleted_changes cfg ids) \<longleftrightarrow> (\<exists>g gc. g \<in> set ids \<and> map_of (mp_groups cfg) g = Some gc \<and>
     cc = \<lparr>ch_group_id = g, ch_added_conn_ids = [], ch_deleted_conn_ids = gc_conn_ids gc, ch_added_bridge_ids = [],
       ch_deleted_bridge_ids = gc_bridge_ids gc\<rparr>)"
  by (auto simp: deleted_changes_def List.map_filter_def image_iff)

lemma added_changes_iff:
  "cc \<in> set (added_changes cfg ids) \<longleftrightarrow> (\<exists>g gc. g \<in> set ids \<and> map_of (mp_groups cfg) g = Some gc \<and>
     cc = \<lparr>ch_group_id = g, ch_added_conn_ids = gc_conn_ids gc, ch_deleted_conn_ids = [],
       ch_added_bridge_ids = gc_bridge_ids gc, ch_deleted_bridge_ids = []\<rparr>)"
  by (auto simp: added_changes_def List.map_filter_def image_iff)

lemma updated_changes_iff:
  "cc \<in> set (updated_changes cfg new ids) \<longleftrightarrow> (\<exists>g c n. g \<in> set ids \<and> map_of (mp_groups cfg) g = Some c \<and>
     map_of (mp_groups new) g = Some n \<and> cc = change_of g c n \<and> \<not> no_change cc)"
  by (auto simp: updated_changes_def List.map_filter_def image_iff split: option.splits) blast+

lemma map_filter_ids:
  assumes "\<And>g cc. f g = Some cc \<Longrightarrow> ch_group_id cc = g" and "distinct ids"
  shows "distinct (map ch_group_id (List.map_filter f ids))"
proof -
  have "map ch_group_id (List.map_filter f ids) = filter (\<lambda>g. f g \<noteq> None) ids"
    using assms(1) by (induction ids) (auto simp: List.map_filter_def)
  then show ?thesis using assms(2) by simp
qed

lemma change_of_sel [simp]:
  "ch_group_id (change_of g c n) = g"
  "set (ch_added_conn_ids (change_of g c n)) = set (gc_conn_ids n) - set (gc_conn_ids c)"
  "set (ch_deleted_conn_ids (change_of g c n)) = set (gc_conn_ids c) - set (gc_conn_ids n)"
  "set (ch_added_bridge_ids (change_of g c n)) = set (gc_bridge_ids n) - set (gc_bridge_ids c)"
  "set (ch_deleted_bridge_ids (change_of g c n)) = set (gc_bridge_ids c) - set (gc_bridge_ids n)"
  by (auto simp: change_of_def diff_ids_def Let_def)

lemma change_of_sets:
  "ch_added (change_of g c n) = ids_of n - ids_of c" "ch_deleted (change_of g c n) = ids_of c - ids_of n"
  by (auto simp: ch_added_def ch_deleted_def ids_of_def)

lemma changes_ids_distinct:
  assumes "distinct ids"
  shows "distinct (map ch_group_id (deleted_changes cfg ids))" "distinct (map ch_group_id (added_changes cfg ids))"
    "distinct (map ch_group_id (updated_changes cfg new ids))"
proof -
  show "distinct (map ch_group_id (deleted_changes cfg ids))"
    unfolding deleted_changes_def by (rule map_filter_ids [OF _ assms]) auto
  show "distinct (map ch_group_id (added_changes cfg ids))"
    unfolding added_changes_def by (rule map_filter_ids [OF _ assms]) auto
  have "distinct (map ch_group_id (List.map_filter (\<lambda>g. case (map_of (mp_groups cfg) g, map_of (mp_groups new) g) of
       (Some c, Some n) \<Rightarrow> Some (change_of g c n) | _ \<Rightarrow> None) ids))"
    by (rule map_filter_ids [OF _ assms]) (auto split: option.splits)
  then show "distinct (map ch_group_id (updated_changes cfg new ids))"
    unfolding updated_changes_def by (rule distinct_map_filter)
qed

section \<open>The new configuration is realised\<close>

text \<open>The state after an earlier configuration: every group it names exists and no other; registered
  connections and bridges are linked to the group they belong to, and the others to none; there is
  no bridge it does not name.\<close>

definition proxy_ok :: "proxy \<Rightarrow> bool" where
  "proxy_ok P \<longleftrightarrow> px_inv (owner (px_cfg P)) {} P \<and> cfg_ok (px_cfg P) \<and>
     (\<forall>g. px_G P g \<noteq> None \<longleftrightarrow> map_of (mp_groups (px_cfg P)) g \<noteq> None) \<and>
     (\<forall>b. px_M P (Inr b) \<noteq> None \<longrightarrow> owner (px_cfg P) (Inr b) \<noteq> None)"

text \<open>No local connection is registered whose group disappears.\<close>

definition no_orphans :: "proxy \<Rightarrow> mp_config \<Rightarrow> bool" where
  "no_orphans P new \<longleftrightarrow> (\<forall>(g, gc) \<in> set (mp_groups (px_cfg P)). map_of (mp_groups new) g = None \<longrightarrow>
     (\<forall>c \<in> set (gc_conn_ids gc). reg_map (px_local P) c = None))"

text \<open>The three lists are the ones \<open>apply_config\<close> computes.\<close>

definition config_change ::
  "mp_config \<Rightarrow> mp_config \<Rightarrow> GroupChangeConfig list \<Rightarrow> GroupChangeConfig list \<Rightarrow> GroupChangeConfig list \<Rightarrow> bool" where
  "config_change old new added deleted updated \<longleftrightarrow> cfg_ok old \<and> cfg_ok new \<and>
     (\<forall>cc. cc \<in> set deleted \<longleftrightarrow> (\<exists>g gc. map_of (mp_groups old) g = Some gc \<and> map_of (mp_groups new) g = None \<and>
        cc = \<lparr>ch_group_id = g, ch_added_conn_ids = [], ch_deleted_conn_ids = gc_conn_ids gc, ch_added_bridge_ids = [],
          ch_deleted_bridge_ids = gc_bridge_ids gc\<rparr>)) \<and>
     (\<forall>cc. cc \<in> set added \<longleftrightarrow> (\<exists>g gc. map_of (mp_groups new) g = Some gc \<and> map_of (mp_groups old) g = None \<and>
        cc = \<lparr>ch_group_id = g, ch_added_conn_ids = gc_conn_ids gc, ch_deleted_conn_ids = [],
          ch_added_bridge_ids = gc_bridge_ids gc, ch_deleted_bridge_ids = []\<rparr>)) \<and>
     (\<forall>cc. cc \<in> set updated \<longleftrightarrow> (\<exists>g c n. map_of (mp_groups old) g = Some c \<and>
        map_of (mp_groups new) g = Some n \<and> cc = change_of g c n \<and> \<not> no_change cc)) \<and>
     distinct (map ch_group_id added) \<and> distinct (map ch_group_id deleted) \<and> distinct (map ch_group_id updated)"

lemma change_facts:
  assumes "config_change old new added deleted updated"
  shows "cfg_ok old" "cfg_ok new"
    and "cc \<in> set deleted \<longleftrightarrow> (\<exists>g gc. map_of (mp_groups old) g = Some gc \<and> map_of (mp_groups new) g = None \<and>
        cc = \<lparr>ch_group_id = g, ch_added_conn_ids = [], ch_deleted_conn_ids = gc_conn_ids gc, ch_added_bridge_ids = [],
          ch_deleted_bridge_ids = gc_bridge_ids gc\<rparr>)"
    and "cc \<in> set added \<longleftrightarrow> (\<exists>g gc. map_of (mp_groups new) g = Some gc \<and> map_of (mp_groups old) g = None \<and>
        cc = \<lparr>ch_group_id = g, ch_added_conn_ids = gc_conn_ids gc, ch_deleted_conn_ids = [],
          ch_added_bridge_ids = gc_bridge_ids gc, ch_deleted_bridge_ids = []\<rparr>)"
    and "cc \<in> set updated \<longleftrightarrow> (\<exists>g c n. map_of (mp_groups old) g = Some c \<and>
        map_of (mp_groups new) g = Some n \<and> cc = change_of g c n \<and> \<not> no_change cc)"
    and "distinct (map ch_group_id added)" "distinct (map ch_group_id deleted)" "distinct (map ch_group_id updated)"
  using assms unfolding config_change_def by simp_all

lemma no_change_empty: "no_change cc \<Longrightarrow> ch_added cc = {} \<and> ch_deleted cc = {}"
  by (simp add: no_change_def ch_added_def ch_deleted_def)

lemma change_lists_distinct:
  assumes chg: "config_change old new added deleted updated" and "cc \<in> set (added @ updated)"
  shows "distinct (ch_added_conn_ids cc) \<and> distinct (ch_added_bridge_ids cc)"
proof -
  note f = change_facts [OF chg]
  have d: "distinct (gc_conn_ids gc) \<and> distinct (gc_bridge_ids gc)" if "map_of (mp_groups new) g = Some gc" for g gc
    using that f(2) unfolding cfg_group_iff [OF f(2)] by (auto simp: cfg_ok_def)
  show ?thesis using assms(2-) d by (auto simp: f(4) f(5) change_of_def diff_ids_def Let_def)
qed

text \<open>What a change adds, the new configuration puts into that group.\<close>

lemma added_owner:
  assumes chg: "config_change old new added deleted updated" and "cc \<in> set (added @ updated)" and "i \<in> ch_added cc"
  shows "owner new i = Some (ch_group_id cc)"
  using assms(2-) unfolding owner_iff [OF change_facts(2) [OF chg]]
  by (auto simp: change_facts(4) [OF chg] change_facts(5) [OF chg] change_of_sets ids_of_def ch_added_def)

lemma added_not_old:
  assumes chg: "config_change old new added deleted updated" and "cc \<in> set (added @ updated)" and "i \<in> ch_added cc" and "owner old i = Some g"
  shows "g \<noteq> ch_group_id cc"
proof
  note f = change_facts [OF chg]
  assume e: "g = ch_group_id cc"
  then obtain c where c: "map_of (mp_groups old) (ch_group_id cc) = Some c" "i \<in> ids_of c"
    using assms(4) owner_iff [OF f(1)] by auto
  then have "cc \<notin> set added" by (auto simp: f(4))
  then have "cc \<in> set updated" using assms(2) by simp
  then show False using assms(3) c by (auto simp: f(5) change_of_sets)
qed

lemma changes_are_ok:
  assumes chg: "config_change old new added deleted updated"
  shows "changes_ok (added @ updated)"
proof -
  note f = change_facts [OF chg]
  have "ch_group_id ` set added \<inter> ch_group_id ` set updated = {}"
    by (auto simp: f(4) f(5))
  then have "distinct (map ch_group_id (added @ updated))" using f(6-8) by auto
  moreover have "ch_group_id cc = ch_group_id dd"
    if "cc \<in> set (added @ updated)" "dd \<in> set (added @ updated)" "i \<in> ch_added cc" "i \<in> ch_added dd" for cc dd i
    using added_owner [OF chg that(1,3)] added_owner [OF chg that(2,4)] by simp
  ultimately show ?thesis using change_lists_distinct [OF chg] unfolding changes_ok_def by blast
qed

lemma kept_owner:
  assumes chg: "config_change old new added deleted updated" and "\<And>cc. cc \<in> set (added @ updated) \<Longrightarrow> i \<notin> ch_added cc" and "owner new i = Some g"
  shows "owner old i = Some g \<and> (\<forall>cc \<in> set updated. i \<notin> ch_deleted cc)"
proof -
  note f = change_facts [OF chg]
  obtain n where n: "map_of (mp_groups new) g = Some n" "i \<in> ids_of n" using assms(3) owner_iff [OF f(2)] by auto
  obtain c where c: "map_of (mp_groups old) g = Some c"
  proof (cases "map_of (mp_groups old) g")
    case None
    then have "\<lparr>ch_group_id = g, ch_added_conn_ids = gc_conn_ids n, ch_deleted_conn_ids = [],
       ch_added_bridge_ids = gc_bridge_ids n, ch_deleted_bridge_ids = []\<rparr> \<in> set added" using n(1) f(4) by blast
    then have "i \<notin> ids_of n" using assms(2) by (force simp: ch_added_def ids_of_def)
    then show thesis using n(2) by blast
  qed blast
  have ic: "i \<in> ids_of c"
  proof (rule ccontr)
    assume "i \<notin> ids_of c"
    then have i: "i \<in> ch_added (change_of g c n)" using n(2) by (simp add: change_of_sets)
    then have "\<not> no_change (change_of g c n)" using no_change_empty by blast
    then have "change_of g c n \<in> set updated" using c n(1) f(5) by blast
    then show False using assms(2) i by auto
  qed
  then have "owner old i = Some g" using c owner_iff [OF f(1)] by blast
  moreover have "i \<notin> ch_deleted cc" if cc: "cc \<in> set updated" for cc
  proof -
    obtain h c' n' where h: "map_of (mp_groups old) h = Some c'" "map_of (mp_groups new) h = Some n'" "cc = change_of h c' n'"
      using cc f(5) by blast
    show ?thesis
    proof
      assume d: "i \<in> ch_deleted cc"
      then have "i \<in> ids_of c'" "i \<notin> ids_of n'" using h(3) by (auto simp: change_of_sets)
      then have "h = g" using cfg_unique [OF f(1) h(1) c _ ic] by blast
      then show False using h(2) n \<open>i \<notin> ids_of n'\<close> by simp
    qed
  qed
  ultimately show ?thesis by blast
qed

lemma not_deleted_owner:
  assumes chg: "config_change old new added deleted updated" and "owner old i = Some g" and "map_of (mp_groups new) g \<noteq> None" and "\<And>cc. cc \<in> set updated \<Longrightarrow> i \<notin> ch_deleted cc"
  shows "owner new i = Some g"
proof -
  note f = change_facts [OF chg]
  obtain c where c: "map_of (mp_groups old) g = Some c" "i \<in> ids_of c" using assms(2) owner_iff [OF f(1)] by auto
  obtain n where n: "map_of (mp_groups new) g = Some n" using assms(3) by blast
  have "i \<in> ids_of n"
  proof (rule ccontr)
    assume "i \<notin> ids_of n"
    then have i: "i \<in> ch_deleted (change_of g c n)" using c(2) by (simp add: change_of_sets)
    then have "\<not> no_change (change_of g c n)" using no_change_empty by blast
    then have "change_of g c n \<in> set updated" using c n(1) f(5) by blast
    then show False using assms(4) i by blast
  qed
  then show ?thesis using n owner_iff [OF f(2)] by blast
qed

text \<open>The final membership is that of the new configuration, for whatever is in no deleted group.\<close>

lemma final_owner:
  assumes chg: "config_change old new added deleted updated" and "\<And>g. owner old i = Some g \<Longrightarrow> map_of (mp_groups new) g \<noteq> None"
  shows "assign_all (added @ updated) (owner old |` (- (\<Union>cc \<in> set updated. ch_deleted cc))) i = owner new i"
proof (cases "\<exists>cc \<in> set (added @ updated). i \<in> ch_added cc")
  note f = change_facts [OF chg]
  case True
  then obtain cc where cc: "cc \<in> set (added @ updated)" "i \<in> ch_added cc" by blast
  then show ?thesis using assign_all_in [OF changes_are_ok [OF chg] cc] added_owner [OF chg cc] by simp
next
  case False
  then have out: "i \<notin> ch_added cc" if "cc \<in> set (added @ updated)" for cc using that by blast
  have a: "assign_all (added @ updated) V i = V i" for V by (rule assign_all_out) (rule out)
  show ?thesis
  proof (cases "owner new i")
    case (Some g)
    then show ?thesis using kept_owner [OF chg out Some] a by (simp add: restrict_map_def)
  next
    case None
    have "(owner old |` (- (\<Union>cc \<in> set updated. ch_deleted cc))) i = None"
    proof (cases "owner old i")
      case (Some g)
      then have "\<exists>cc \<in> set updated. i \<in> ch_deleted cc" using not_deleted_owner [OF chg Some assms(2) [OF Some]] None by auto
      then show ?thesis by (auto simp: restrict_map_def)
    qed (simp add: restrict_map_def)
    then show ?thesis using None a by simp
  qed
qed

lemma apply_config_change:
  assumes "cfg_ok old" and "cfg_ok new" and "ord_ok m"
  shows "config_change old new
    (added_changes new (filter (\<lambda>i. i \<notin> set (m_ord m (map fst (mp_groups old)))) (m_ord m (map fst (mp_groups new)))))
    (deleted_changes old (filter (\<lambda>i. i \<notin> set (m_ord m (map fst (mp_groups new)))) (m_ord m (map fst (mp_groups old)))))
    (updated_changes old new (filter (\<lambda>i. i \<in> set (m_ord m (map fst (mp_groups new)))) (m_ord m (map fst (mp_groups old)))))"
proof -
  have d: "distinct (m_ord m (map fst (mp_groups old)))" "distinct (m_ord m (map fst (mp_groups new)))"
    using assms(1,2) ord_okD [OF assms(3)] by (simp_all add: cfg_ok_def)
  have s: "g \<in> set (m_ord m (map fst (mp_groups cfg))) \<longleftrightarrow> map_of (mp_groups cfg) g \<noteq> None" for g cfg
    using ord_okD(1) [OF assms(3)] by (auto simp: map_of_eq_None_iff)
  show ?thesis
    unfolding config_change_def using assms(1,2) changes_ids_distinct d
    by (auto simp: deleted_changes_iff added_changes_iff updated_changes_iff s)
qed

text \<open>After the deletions, everything that will be added is free.\<close>

lemma removed_vacant:
  assumes chg: "config_change old new added deleted updated" and "proxy_ok P" and "px_cfg P = old" and "no_orphans P new"
    and "px_M P' = px_M P |` (- (\<Union>cc \<in> set deleted. Inr ` set (ch_deleted_bridge_ids cc))) |`
      (- (\<Union>cc \<in> set updated. Inr ` set (ch_deleted_bridge_ids cc)))"
  shows "\<And>i g. px_M P' i \<noteq> None \<Longrightarrow> owner old i = Some g \<Longrightarrow> map_of (mp_groups new) g \<noteq> None"
    and "vacant (owner old |` (- (\<Union>cc \<in> set updated. ch_deleted cc))) P' (added @ updated)"
proof -
  note f = change_facts [OF chg]
  show kept: "map_of (mp_groups new) g \<noteq> None" if i: "px_M P' i \<noteq> None" "owner old i = Some g" for i g
  proof
    assume n: "map_of (mp_groups new) g = None"
    obtain c where c: "map_of (mp_groups old) g = Some c" "i \<in> ids_of c" using i(2) owner_iff [OF f(1)] by auto
    have "px_M P i \<noteq> None" and nb: "i \<notin> (\<Union>cc \<in> set deleted. Inr ` set (ch_deleted_bridge_ids cc))"
      using i(1) assms(5) by (auto simp: restrict_map_def split: if_splits)
    then show False
    proof (cases i)
      case (Inl l)
      then have "l \<in> set (gc_conn_ids c)" using c(2) by (auto simp: ids_of_def)
      moreover have "(g, c) \<in> set (mp_groups (px_cfg P))" using c(1) assms(3) cfg_group_iff [OF f(1)] by simp
      ultimately have "reg_map (px_local P) l = None" using assms(4) n unfolding no_orphans_def by fast
      then show False using \<open>px_M P i \<noteq> None\<close> Inl by simp
    next
      case (Inr b)
      then have b: "b \<in> set (gc_bridge_ids c)" using c(2) by (auto simp: ids_of_def)
      let ?cc = "\<lparr>ch_group_id = g, ch_added_conn_ids = [], ch_deleted_conn_ids = gc_conn_ids c, ch_added_bridge_ids = [],
          ch_deleted_bridge_ids = gc_bridge_ids c\<rparr>"
      have d: "?cc \<in> set deleted" unfolding f(3) by (intro exI [of _ g] exI [of _ c] conjI c(1) n refl)
      have "i \<in> Inr ` set (ch_deleted_bridge_ids ?cc)" using b Inr by simp
      with d have "i \<in> (\<Union>cc \<in> set deleted. Inr ` set (ch_deleted_bridge_ids cc))" by (rule UN_I)
      then show False using nb by simp
    qed
  qed
  have gone: "(owner old |` (- (\<Union>cc \<in> set updated. ch_deleted cc))) i = None"
    if cc: "cc \<in> set (added @ updated)" "i \<in> ch_added cc" and r: "px_M P' i \<noteq> None" for cc i
  proof (cases "owner old i")
    case (Some g)
    have "owner new i = Some (ch_group_id cc)" by (rule added_owner [OF chg cc])
    moreover have "g \<noteq> ch_group_id cc" by (rule added_not_old [OF chg cc Some])
    ultimately have "\<exists>dd \<in> set updated. i \<in> ch_deleted dd"
      using not_deleted_owner [OF chg Some kept [OF r Some]] by auto
    then show ?thesis by (auto simp: restrict_map_def)
  qed (simp add: restrict_map_def)
  show "vacant (owner old |` (- (\<Union>cc \<in> set updated. ch_deleted cc))) P' (added @ updated)"
    unfolding vacant_def
  proof (intro ballI conjI impI)
    fix cc b assume cc: "cc \<in> set (added @ updated)" "b \<in> set (ch_added_bridge_ids cc)"
    show "px_M P' (Inr b) = None"
    proof (rule ccontr)
      assume r: "px_M P' (Inr b) \<noteq> None"
      have "Inr b \<in> ch_added cc" using cc(2) by (simp add: ch_added_def)
      then have "(owner old |` (- (\<Union>cc \<in> set updated. ch_deleted cc))) (Inr b) = None" using gone [OF cc(1) _ r] by simp
      moreover have "px_M P (Inr b) \<noteq> None" using r unfolding assms(5) restrict_map_def by (auto split: if_splits)
      then have "owner old (Inr b) \<noteq> None" using assms(2,3) unfolding proxy_ok_def by blast
      ultimately have "\<exists>dd \<in> set updated. Inr b \<in> ch_deleted dd" by (auto simp: restrict_map_def split: if_splits)
      then have "Inr b \<in> (\<Union>cc \<in> set updated. Inr ` set (ch_deleted_bridge_ids cc))" by (auto simp: ch_deleted_def)
      then have "px_M P' (Inr b) = None" unfolding assms(5) by (intro restrict_out) blast
      then show False using r by blast
    qed
  qed (rule gone)
qed

lemma changes_ok_append:
  assumes "changes_ok (xs @ ys)"
  shows "changes_ok xs" "changes_ok ys" "cc \<in> set xs \<Longrightarrow> dd \<in> set ys \<Longrightarrow> i \<in> ch_added dd \<Longrightarrow> i \<notin> ch_added cc"
proof -
  show "changes_ok xs" "changes_ok ys" using assms by (auto simp: changes_ok_def)
  assume a: "cc \<in> set xs" "dd \<in> set ys" "i \<in> ch_added dd"
  have "ch_group_id cc \<noteq> ch_group_id dd" using assms a(1,2) unfolding changes_ok_def by (auto simp: image_iff)
  moreover have "cc \<in> set (xs @ ys)" "dd \<in> set (xs @ ys)" using a by auto
  ultimately show "i \<notin> ch_added cc" using assms a(3) unfolding changes_ok_def by blast
qed

lemma vacant_append:
  assumes "vacant V P (xs @ ys)" and "changes_ok (xs @ ys)" and "\<And>i. i \<notin> added_bridges xs \<Longrightarrow> px_M P' i = px_M P i"
  shows "vacant V P xs" "vacant (assign_all xs V) P' ys"
proof -
  show "vacant V P xs" using assms(1) unfolding vacant_def by (metis Un_iff set_append)
  have out: "i \<notin> ch_added cc" if "cc \<in> set xs" "dd \<in> set ys" "i \<in> ch_added dd" for cc dd i
    using changes_ok_append(3) [OF assms(2) that] .
  have M: "px_M P' i = px_M P i" if "dd \<in> set ys" "i \<in> ch_added dd" for dd i
    using assms(3) [of i] out [OF _ that] by (auto simp: added_bridges_def ch_added_def)
  have A: "assign_all xs V i = V i" if "dd \<in> set ys" "i \<in> ch_added dd" for dd i
    by (rule assign_all_out) (rule out [OF _ that])
  have "Inr b \<in> ch_added dd" if "b \<in> set (ch_added_bridge_ids dd)" for b dd using that by (simp add: ch_added_def)
  then show "vacant (assign_all xs V) P' ys" using assms(1) M A unfolding vacant_def by (metis Un_iff set_append)
qed

text \<open>The second half of the work: groups are created and filled.\<close>

lemma rebuild_ok:
  fixes old new :: mp_config
  defines "V2 \<equiv> \<lambda>updated. owner old |` (- (\<Union>cc \<in> set updated. ch_deleted cc))"
  assumes chg: "config_change old new added deleted updated" and al: "alloc_ok (m_alloc m)" and inv: "px_inv (V2 updated) {} P"
    and cfg: "px_cfg P = new" and vac: "vacant (V2 updated) P (added @ updated)"
    and kept: "\<And>i g. px_M P i \<noteq> None \<Longrightarrow> owner old i = Some g \<Longrightarrow> map_of (mp_groups new) g \<noteq> None"
    and br: "\<And>b. px_M P (Inr b) \<noteq> None \<Longrightarrow> V2 updated (Inr b) \<noteq> None"
    and G: "\<And>g. px_G P g \<noteq> None \<longleftrightarrow> map_of (mp_groups old) g \<noteq> None \<and> map_of (mp_groups new) g \<noteq> None"
  shows "runs (\<lambda>(r, P'). (r = success \<or> r = error_out_of_memory) \<and>
      (r = success \<longrightarrow> proxy_ok P' \<and> px_cfg P' = new \<and> px_local P' = px_local P))
    (rbind (add_groups m added P) (\<lambda>(r, P).
      if r \<noteq> success then Ret (r, P) else rbind (each (grow_group m) updated P) (\<lambda>P. Ret (success, P))))" (is "runs ?Q _")
proof -
  note f = change_facts [OF chg]
  have ok: "changes_ok (added @ updated)" by (rule changes_are_ok [OF chg])
  have bk: "bridges_known (px_cfg P)" using f(2) cfg by (simp add: cfg_ok_def)
  have dg: "dom (px_G P) = dom (map_of (mp_groups old)) \<inter> dom (map_of (mp_groups new))" using G by (auto simp: dom_def)
  have ag: "ch_group_id ` set added = dom (map_of (mp_groups new)) - dom (map_of (mp_groups old))"
    by (force simp: f(4) image_iff)
  have vo: "owner old i = Some g" if "V2 updated i = Some g" for i g using that by (auto simp: V2_def restrict_map_def split: if_splits)
  show ?thesis
  proof (rule runs_bind [OF add_groups_inv [OF inv al changes_ok_append(1) [OF ok] _ bk]])
    show "vacant (V2 updated) P added" using vacant_append(1) [OF vac ok] by blast
  next
    fix cc assume "cc \<in> set added"
    then have "map_of (mp_groups old) (ch_group_id cc) = None" unfolding f(4) by auto
    then show "px_G P (ch_group_id cc) = None" using G by blast
  next
    fix cc i assume "cc \<in> set added" "px_M P i \<noteq> None"
    then have "map_of (mp_groups old) (ch_group_id cc) = None" unfolding f(4) by auto
    then have "owner old i \<noteq> Some (ch_group_id cc)" using owner_iff [OF f(1)] by simp
    then show "V2 updated i \<noteq> Some (ch_group_id cc)" using vo by blast
  next
    fix y
    assume y: "case y of (r, P') \<Rightarrow> (r = success \<or> r = error_out_of_memory) \<and>
      (r = success \<longrightarrow> px_inv (assign_all added (V2 updated)) {} P' \<and> (\<forall>i. i \<notin> added_bridges added \<longrightarrow> px_M P' i = px_M P i) \<and>
        dom (px_G P') = dom (px_G P) \<union> ch_group_id ` set added \<and> cfg_frame P P')"
    obtain r P3 where e: "y = (r, P3)" by force
    show "runs ?Q (case y of (r, P) \<Rightarrow> if r \<noteq> success then Ret (r, P) else rbind (each (grow_group m) updated P) (\<lambda>P. Ret (success, P)))"
    proof (cases "r = success")
      case False
      then show ?thesis using y e by simp
    next
      case True
      have i3: "px_inv (assign_all added (V2 updated)) {} P3" and M3: "\<And>i. i \<notin> added_bridges added \<Longrightarrow> px_M P3 i = px_M P i"
        and G3: "dom (px_G P3) = dom (map_of (mp_groups new))" and f3: "cfg_frame P P3"
        using y e True dg ag by auto
      have v3: "vacant (assign_all added (V2 updated)) P3 updated" by (rule vacant_append(2) [OF vac ok M3])
      have "runs ?Q (rbind (each (grow_group m) updated P3) (\<lambda>P. Ret (success, P)))"
      proof (rule runs_bind [OF grow_groups_inv [OF i3 al changes_ok_append(2) [OF ok] v3]])
        show "bridges_known (px_cfg P3)" using bk f3 by (simp add: cfg_frame_def)
      next
        fix cc assume "cc \<in> set updated"
        then have "ch_group_id cc \<in> dom (px_G P3)" using G3 f(5) by auto
        then show "px_G P3 (ch_group_id cc) \<noteq> None" by blast
      next
        fix P4
        assume 4: "px_inv (assign_all updated (assign_all added (V2 updated))) {} P4 \<and>
          (\<forall>i. i \<notin> added_bridges updated \<longrightarrow> px_M P4 i = px_M P3 i) \<and> px_groups P4 = px_groups P3 \<and> cfg_frame P3 P4"
        then have f4: "cfg_frame P P4" using f3 cfg_frame_trans by blast
        have fin: "assign_all (added @ updated) (V2 updated) i = owner new i \<and> (\<forall>b. i = Inr b \<longrightarrow> owner new i \<noteq> None)"
          if r4: "px_M P4 i \<noteq> None" for i
        proof (cases "\<exists>cc \<in> set (added @ updated). i \<in> ch_added cc")
          case True
          then obtain cc where cc: "cc \<in> set (added @ updated)" "i \<in> ch_added cc" by blast
          then show ?thesis using assign_all_in [OF ok cc] added_owner [OF chg cc] by auto
        next
          case False
          then have "i \<notin> added_bridges added" "i \<notin> added_bridges updated" by (auto simp: added_bridges_def ch_added_def)
          then have r: "px_M P i \<noteq> None" using r4 4 M3 by metis
          then have "assign_all (added @ updated) (V2 updated) i = owner new i"
            unfolding V2_def using final_owner [OF chg, of i] kept by blast
          moreover have "assign_all (added @ updated) (V2 updated) i = V2 updated i"
            using False by (intro assign_all_out) blast
          ultimately show ?thesis using br r by metis
        qed
        have "px_inv (assign_all (added @ updated) (V2 updated)) {} P4" using 4 by (simp add: assign_all_append)
        then have "px_inv (owner new) {} P4" by (rule px_inv_cong) (use fin in blast)
        moreover have "dom (px_G P4) = dom (map_of (mp_groups new))" using 4 G3 by (simp add: px_G_def)
        ultimately have "proxy_ok P4" using f(2) f4 cfg fin unfolding proxy_ok_def cfg_frame_def by (metis domIff)
        then show "runs ?Q (Ret (success, P4))" using f4 cfg by (simp add: cfg_frame_def)
      qed
      then show ?thesis using True e by simp
    qed
  qed
qed

lemma reconcile_ok:
  assumes chg: "config_change old new added deleted updated" and "alloc_ok (m_alloc m)" and "proxy_ok P" and "px_cfg P = old"
    and "no_orphans P new"
  shows "runs (\<lambda>(r, P'). (r = success \<or> r = error_out_of_memory) \<and>
      (r = success \<longrightarrow> proxy_ok P' \<and> px_cfg P' = new \<and> px_local P' = px_local P))
    (reconcile_config m added deleted updated (P\<lparr>px_cfg := new\<rparr>))" (is "runs ?Q _")
proof -
  note f = change_facts [OF chg]
  let ?P = "P\<lparr>px_cfg := new\<rparr>"
  let ?V = "owner old" and ?V2 = "owner old |` (- (\<Union>cc \<in> set updated. ch_deleted cc))"
  have M0: "px_M ?P = px_M P" "px_G ?P = px_G P" by (simp_all add: px_M_def px_G_def)
  have i0: "px_inv ?V {} ?P" using assms(3,4) by (simp add: proxy_ok_def px_inv_def locals_ok_def dying_ok_def px_M_def px_G_def)
  have G0: "px_G P g \<noteq> None \<longleftrightarrow> map_of (mp_groups old) g \<noteq> None" for g using assms(3,4) by (simp add: proxy_ok_def)
  show ?thesis
  proof (cases "added = [] \<and> deleted = [] \<and> updated = []")
    case True
    have same: "owner new i = owner old i" if "px_M P i \<noteq> None" for i
    proof -
      have "map_of (mp_groups new) g \<noteq> None" if "owner old i = Some g" for g
        using that owner_iff [OF f(1)] f(3) True by fastforce
      then show ?thesis using final_owner [OF chg, of i] True by simp
    qed
    have "px_G P g \<noteq> None \<longleftrightarrow> map_of (mp_groups new) g \<noteq> None" for g
      using G0 [of g] f(3,4) True by fastforce
    moreover have "px_inv (owner new) {} ?P" by (rule px_inv_cong [OF i0]) (use same M0 in simp)
    moreover have "owner new (Inr b) \<noteq> None" if "px_M P (Inr b) \<noteq> None" for b
      using same [OF that] assms(3,4) that by (simp add: proxy_ok_def)
    ultimately show ?thesis using True f(2) M0 by (simp add: reconcile_config_def proxy_ok_def)
  next
    case False
    have "runs ?Q (rbind (each (remove_group m) deleted ?P) (\<lambda>P.
      rbind (each (shrink_group m) updated P) (\<lambda>P.
      rbind (add_groups m added P) (\<lambda>(r, P).
      if r \<noteq> success then Ret (r, P) else rbind (each (grow_group m) updated P) (\<lambda>P. Ret (success, P))))))"
    proof (rule runs_bind [OF remove_groups_inv [OF i0 assms(2) f(7)]])
      fix cc assume "cc \<in> set deleted"
      then show "px_G ?P (ch_group_id cc) \<noteq> None" using G0 f(3) M0 by auto
    next
      fix cc i
      assume a: "cc \<in> set deleted" "px_M ?P i \<noteq> None" "?V i = Some (ch_group_id cc)"
      then obtain c where c: "map_of (mp_groups old) (ch_group_id cc) = Some c" "i \<in> ids_of c" using owner_iff [OF f(1)] by auto
      moreover have n: "map_of (mp_groups new) (ch_group_id cc) = None" "ch_deleted_bridge_ids cc = gc_bridge_ids c"
        using a(1) f(3) c(1) by auto
      moreover have "i \<noteq> Inl l" for l
      proof
        assume l: "i = Inl l"
        then have "l \<in> set (gc_conn_ids c)" using c(2) by (auto simp: ids_of_def)
        moreover have "(ch_group_id cc, c) \<in> set (mp_groups (px_cfg P))" using c(1) assms(4) cfg_group_iff [OF f(1)] by simp
        ultimately have "reg_map (px_local P) l = None" using assms(5) n(1) unfolding no_orphans_def by fast
        then show False using a(2) l M0 by simp
      qed
      ultimately show "i \<in> Inr ` set (ch_deleted_bridge_ids cc)" by (auto simp: ids_of_def)
    next
      fix P1
      assume 1: "px_inv ?V {} P1 \<and> px_M P1 = px_M ?P |` (- (\<Union>cc \<in> set deleted. Inr ` set (ch_deleted_bridge_ids cc))) \<and>
        px_G P1 = px_G ?P |` (- ch_group_id ` set deleted) \<and> cfg_frame ?P P1"
      have G1: "px_G P1 g \<noteq> None \<longleftrightarrow> map_of (mp_groups old) g \<noteq> None \<and> map_of (mp_groups new) g \<noteq> None" for g
      proof -
        have "g \<in> ch_group_id ` set deleted \<longleftrightarrow> map_of (mp_groups old) g \<noteq> None \<and> map_of (mp_groups new) g = None"
          by (force simp: f(3) image_iff)
        then show ?thesis using 1 M0 G0 [of g] by (auto simp: restrict_map_def)
      qed
      have i1: "px_inv ?V {} P1" using 1 by blast
      show "runs ?Q (rbind (each (shrink_group m) updated P1) (\<lambda>P. rbind (add_groups m added P) (\<lambda>(r, P).
        if r \<noteq> success then Ret (r, P) else rbind (each (grow_group m) updated P) (\<lambda>P. Ret (success, P)))))"
      proof (rule runs_bind [OF shrink_groups_inv [OF i1 assms(2)]])
        fix cc assume "cc \<in> set updated"
        then show "px_G P1 (ch_group_id cc) \<noteq> None" using G1 f(5) by auto
      next
        fix P2
        assume 2: "px_inv ?V2 {} P2 \<and> px_M P2 = px_M P1 |` (- (\<Union>cc \<in> set updated. Inr ` set (ch_deleted_bridge_ids cc))) \<and>
          px_G P2 = px_G P1 \<and> cfg_frame P1 P2"
        have cfg2: "px_cfg P2 = new" "px_local P2 = px_local P" using 1 2 by (auto simp: cfg_frame_def)
        have M2: "px_M P2 = px_M P |` (- (\<Union>cc \<in> set deleted. Inr ` set (ch_deleted_bridge_ids cc))) |`
          (- (\<Union>cc \<in> set updated. Inr ` set (ch_deleted_bridge_ids cc)))" using 1 2 M0 by simp
        note rv = removed_vacant [OF chg assms(3,4,5) M2]
        have i2: "px_inv ?V2 {} P2" using 2 by blast
        have br: "?V2 (Inr b) \<noteq> None" if "px_M P2 (Inr b) \<noteq> None" for b
        proof -
          have r: "px_M P (Inr b) \<noteq> None" "Inr b \<notin> (\<Union>cc \<in> set updated. Inr ` set (ch_deleted_bridge_ids cc))"
            using that unfolding M2 restrict_map_def by (auto split: if_splits)
          then have "owner old (Inr b) \<noteq> None" using assms(3,4) unfolding proxy_ok_def by blast
          moreover have "Inr b \<notin> (\<Union>cc \<in> set updated. ch_deleted cc)" using r(2) by (auto simp: ch_deleted_def)
          ultimately show ?thesis by (simp add: restrict_map_def)
        qed
        have G2: "px_G P2 g \<noteq> None \<longleftrightarrow> map_of (mp_groups old) g \<noteq> None \<and> map_of (mp_groups new) g \<noteq> None" for g
          using 2 G1 by simp
        show "runs ?Q (rbind (add_groups m added P2) (\<lambda>(r, P).
          if r \<noteq> success then Ret (r, P) else rbind (each (grow_group m) updated P) (\<lambda>P. Ret (success, P))))"
          using rebuild_ok [OF chg assms(2) i2 cfg2(1) rv(2) rv(1) br G2] unfolding cfg2(2) .
      qed
    qed
    then show ?thesis using False by (auto simp: reconcile_config_def)
  qed
qed

lemma apply_config_ok:
  assumes "proxy_ok P" and "cfg_ok new" and "no_orphans P new" and "alloc_ok (m_alloc m)" and "ord_ok m"
  shows "runs (\<lambda>(r, P'). (r = success \<or> r = error_out_of_memory) \<and>
      (r = success \<longrightarrow> proxy_ok P' \<and> px_cfg P' = new \<and> px_local P' = px_local P)) (apply_config m False new P)"
proof -
  have "cfg_ok (px_cfg P)" using assms(1) by (simp add: proxy_ok_def)
  from reconcile_ok [OF apply_config_change [OF this assms(2,5)] assms(4,1) refl assms(3)]
  show ?thesis by (simp add: apply_config_def Let_def)
qed

text \<open>
  C11. The group manager realises every well-formed configuration the agent sends. In a state that realises the old
  configuration, and if no local connection is registered whose group disappears, \<open>apply_config\<close>
  follows no dangling pointer, whatever order the hash maps are traversed in and whatever bridges
  cannot be created; it answers success or that there is no memory for a group. On success the
  state realises the new configuration: its groups exist and no others, each registered connection and
  each bridge is linked to its group and to no other, the outputs of a group are its transmitters, each
  once, and its input, if any, is one of its receivers.
\<close>

theorem apply_config_realises:
  assumes "proxy_ok P" and "cfg_ok new" and "no_orphans P new" and "alloc_ok (m_alloc m)" and "ord_ok m"
  shows "runs (\<lambda>(r, P'). (r = success \<or> r = error_out_of_memory) \<and>
      (r = success \<longrightarrow> proxy_ok P' \<and> px_cfg P' = new \<and> px_local P' = px_local P)) (apply_config m False new P)"
  using apply_config_ok [OF assms] .

end
