(* ===== verification/Proxy_Life.thy ===== *)
theory Proxy_Life
  imports Group_Manager
begin

text \<open>
  The managers together: any sequence of requests of applications and configurations of the agent,
  as a step relation on the proxy, with what always holds; what happens when the order in which the
  agent works is different; the threads of the bridges; shutdown.
\<close>

section \<open>Where a deleted group leaves its connections\<close>

lemma unlink_dangling:
  assumes "plane_ok w" and "nodes w a = Some n" and "n_link n \<noteq> 0" and "nodes w (n_link n) = None"
  shows "unlink alloc a w = Crash"
proof -
  obtain c where c: "w_objs w a = Some c" "n = node_of c" using assms(2) by (auto simp: nodes_def)
  then have "load (o_link c) = n_link n" by (simp add: node_of_def)
  moreover have "w_objs w (n_link n) = None" using assms(4) by (simp add: nodes_dom)
  ultimately show ?thesis using assms(3) c(1) by (simp add: unlink_def vset_link_def Let_def)
qed

lemma removed_group_dangles:
  assumes "px_inv V {} P" and "alloc_ok (m_alloc m)" and "px_G P (ch_group_id cc) = Some g"
    and "px_M P (Inl c) = Some a" and "V (Inl c) = Some (ch_group_id cc)" and "nodes (px_world P) a = Some n"
    and "n_kind n = Ktransmitter"
  shows "runs (\<lambda>P'. plane_ok (px_world P') \<and> px_sdk P' = px_sdk P \<and> px_local P' = px_local P \<and>
      (\<exists>n'. nodes (px_world P') a = Some n' \<and> n_link n' = g) \<and> nodes (px_world P') g = None) (remove_group m cc P)"
    (is "runs ?Q _")
proof -
  let ?gid = "ch_group_id cc"
  have gr: "reg_get ?gid (px_groups P) = g" "g \<noteq> 0"
    using reg.get_Some [of "px_groups P" ?gid g] assms(3) by (simp_all add: px_G_def)
  have mo: "members_ok (px_M P) (px_G P) V {} (nodes (px_world P))" by (rule px_invD(2) [OF assms(1)])
  obtain x where x: "nodes (px_world P) g = Some x" "group_node_ok (px_M P) V {} (nodes (px_world P)) ?gid x"
    using members_okD(4) [OF mo assms(3)] by blast
  have inp: "n_link x = 0 \<or> n_link x \<in> members (px_M P) V (nodes (px_world P)) ?gid Kreceiver"
    using x(2) by (simp add: group_node_ok_def)
  have na: "n_link x \<noteq> a"
  proof
    assume "n_link x = a"
    moreover have "a \<noteq> 0" using px_node [OF assms(1,4)] by metis
    ultimately show False using inp assms(6,7) by (auto simp: members_iff kind_at_def)
  qed
  obtain k where k: "n_link x \<noteq> 0 \<Longrightarrow> nodes (px_world P) (n_link x) = Some k \<and> \<not> n_group k"
  proof (cases "n_link x = 0")
    case False
    then obtain i where "px_M P i = Some (n_link x)" using inp by (auto simp: members_iff)
    then show thesis using px_node [OF assms(1)] that by metis
  qed (use that in blast)
  let ?V = "\<lambda>i. if px_M P i = Some (n_link x) then None else V i"
  have "runs ?Q (rbind (retire_group (m_alloc m) g (px_world P)) (\<lambda>w.
      rbind (each (drop_bridge m) (ch_deleted_bridge_ids cc) (P\<lparr>px_world := w\<rparr>)) (\<lambda>P.
      Ret (P\<lparr>px_groups := snd (reg_remove ?gid (px_groups P)), px_world := delete_obj g (px_world P)\<rparr>))))"
  proof (rule runs_bind [OF retire_group_ok [OF px_invD(1) [OF assms(1)] assms(2) x(1), of k]])
    fix w assume w: "plane_ok w \<and> nodes w = (if n_link x = 0 then nodes (px_world P) else (nodes (px_world P))(n_link x \<mapsto> k\<lparr>n_link := 0\<rparr>))
        (g \<mapsto> x\<lparr>n_up := False, n_link := 0, n_outs := []\<rparr>)"
    let ?P1 = "P\<lparr>px_world := w\<rparr>"
    have "members_ok (px_M P) (px_G P) ?V {?gid} (nodes w)"
      using members_ok_retire [OF mo assms(3) _ x(1), of k] k w by simp
    moreover have "dying_ok ?P1"
      by (rule dying_ok_world [OF px_invD(7) [OF assms(1)]]) (use w x k in \<open>auto simp: plain_iff group_node_ok_def split: if_splits\<close>)
    ultimately have i1: "px_inv ?V {?gid} ?P1"
      using px_invD [OF assms(1)] w by (simp add: px_inv_def locals_ok_def px_M_def px_G_def)
    show "runs ?Q (rbind (each (drop_bridge m) (ch_deleted_bridge_ids cc) ?P1) (\<lambda>P.
        Ret (P\<lparr>px_groups := snd (reg_remove ?gid (px_groups P)), px_world := delete_obj g (px_world P)\<rparr>)))"
    proof (rule runs_bind [OF drop_bridges_inv [OF i1 assms(2)]])
      fix P2
      assume 2: "px_inv ?V {?gid} P2 \<and> px_M P2 = px_M ?P1 |` (- Inr ` set (ch_deleted_bridge_ids cc)) \<and>
        px_groups P2 = px_groups ?P1 \<and> cfg_frame ?P1 P2"
      then have i2: "px_inv ?V {?gid} P2" by blast
      have "px_local P2 = px_local P" using 2 by (simp add: cfg_frame_def)
      then have M2: "px_M P2 (Inl c) = Some a" using assms(4) by simp
      have G2: "px_G P2 = px_G P" using 2 by (simp add: px_G_def)
      have "?V (Inl c) = Some ?gid" using na assms(4,5) by simp
      then obtain n' where n': "nodes (px_world P2) a = Some n'" "n_link n' = g"
        using px_node [OF i2 M2] G2 assms(3) by (auto simp: member_node_ok_def)
      have "a \<noteq> g" by (rule member_not_group [OF mo assms(4,3)])
      then show "runs ?Q (Ret (P2\<lparr>px_groups := snd (reg_remove ?gid (px_groups P2)), px_world := delete_obj g (px_world P2)\<rparr>))"
        using 2 n' delete_obj_ok [OF px_invD(1) [OF i2], of g] by (simp add: cfg_frame_def)
    qed
  qed (use x(2) k in \<open>auto simp: group_node_ok_def\<close>)
  then show ?thesis using gr by (simp add: remove_group_def)
qed


section \<open>Cancelled configurations\<close>

text \<open>
  A configuration that arrives while the context is cancelled is recorded but not applied, and when
  the agent sends it again there is nothing to do: the groups stay as they were.
\<close>

theorem cancelled_config_lost:
  assumes "cfg_ok new" and "ord_ok m"
  shows "\<exists>P'. apply_config m True new P = Ret (error_context_cancelled, P') \<and> P' = P\<lparr>px_cfg := new\<rparr> \<and>
    apply_config m False new P' = Ret (success, P')"
proof -
  note f = change_facts [OF apply_config_change [OF assms(1,1,2)]]
  have "change_of g n n = \<lparr>ch_group_id = g, ch_added_conn_ids = [], ch_deleted_conn_ids = [], ch_added_bridge_ids = [],
      ch_deleted_bridge_ids = []\<rparr>" for g n by (simp add: change_of_def diff_ids_def)
  then have "updated_changes new new ids = []" for ids
    by (auto simp: updated_changes_def List.map_filter_def no_change_def filter_empty_conv split: option.splits)
  moreover have "filter (\<lambda>i. i \<notin> set xs) xs = []" for xs :: "string list" by (simp add: filter_empty_conv)
  moreover have "added_changes new [] = []" "deleted_changes new [] = []"
    by (simp_all add: added_changes_def deleted_changes_def List.map_filter_def)
  ultimately have "apply_config m False new (P\<lparr>px_cfg := new\<rparr>) = Ret (success, P\<lparr>px_cfg := new\<rparr>)"
    by (simp add: apply_config_def reconcile_config_def Let_def)
  then show ?thesis by (simp add: apply_config_def Let_def)
qed

section \<open>Every connection of an application at once\<close>

text \<open>What \<open>delete_connection_sdk\<close> keeps.\<close>

definition sdk_frame :: "proxy \<Rightarrow> proxy \<Rightarrow> bool" where
  "sdk_frame P P' \<longleftrightarrow> px_bridges P' = px_bridges P \<and> px_groups P' = px_groups P \<and> px_cfg P' = px_cfg P"

lemma sdk_frame_refl [simp]: "sdk_frame P P" by (simp add: sdk_frame_def)

lemma sdk_frame_trans: "sdk_frame P Q \<Longrightarrow> sdk_frame Q R \<Longrightarrow> sdk_frame P R" by (simp add: sdk_frame_def)

lemma delete_connection_sdk_map:
  assumes "px_inv V X P" and "alloc_ok (m_alloc m)"
  shows "runs (\<lambda>(e, P'). px_inv V X P' \<and> sdk_frame P P' \<and> reg_map (px_sdk P') = (reg_map (px_sdk P))(u := None))
    (delete_connection_sdk m u d P)"
  by (rule runs_mono [OF delete_connection_inv [OF assms]]) (cases "reg_map (px_sdk P) u", auto simp: sdk_frame_def)

lemma delete_conns_inv:
  assumes "px_inv V X P" and "alloc_ok (m_alloc m)"
  shows "runs (\<lambda>P'. px_inv V X P' \<and> sdk_frame P P' \<and> reg_map (px_sdk P') = reg_map (px_sdk P) |` (- set us)) (delete_conns m us P)"
  using assms(1)
proof (induction us arbitrary: P)
  case (Cons u us)
  show ?case
  proof (simp only: delete_conns.simps, rule runs_bind [OF delete_connection_sdk_map [OF Cons.prems assms(2), of u True]], clarify)
    fix e P1 assume 1: "px_inv V X P1" "sdk_frame P P1" "reg_map (px_sdk P1) = (reg_map (px_sdk P))(u := None)"
    show "runs (\<lambda>P'. px_inv V X P' \<and> sdk_frame P P' \<and> reg_map (px_sdk P') = reg_map (px_sdk P) |` (- set (u # us))) (delete_conns m us P1)"
      by (rule runs_mono [OF Cons.IH [OF 1(1)]])
        (use 1(2,3) sdk_frame_trans in \<open>auto simp: restrict_map_def fun_eq_iff\<close>)
  qed
qed simp

lemma reregister_conns_inv:
  assumes "px_inv V X P" and "alloc_ok (m_alloc m)"
  shows "runs (\<lambda>P'. px_inv V X P' \<and> sdk_frame P P') (reregister_conns m us P)"
  using assms(1)
proof (induction us arbitrary: P)
  case (Cons u us)
  show ?case
  proof (cases "reg_map (px_sdk P) u")
    case None
    then show ?thesis using Cons by (simp add: reg.get_zero)
  next
    case (Some a)
    then have "reg_get u (px_sdk P) = a" "a \<noteq> 0" using reg.get_Some [OF Some] by auto
    moreover have "reg_map (px_local P) (px_ids P a) = Some a" using px_invD(3) [OF Cons.prems] Some unfolding locals_ok_def by blast
    then have "px_M P (Inl (px_ids P a)) = Some a" by simp
    then have "w_objs (px_world P) a \<noteq> None" using px_node [OF Cons.prems] nodes_dom by (metis option.distinct(1))
    moreover obtain r tr where "ext_call (m_env m) (RegisterConnection (px_ids P a) (agent_kind (px_conf P a)) (px_conf P a)) (px_mgr P) = (r, tr)"
      by force
    moreover have inv: "px_inv V X (P\<lparr>px_mgr := tr\<rparr>)" by (rule sdk_reserved_inv [OF Cons.prems]) auto
    moreover have "runs (\<lambda>P'. px_inv V X P' \<and> sdk_frame (P\<lparr>px_mgr := tr\<rparr>) P')
        (rbind (delete_connection_sdk m u False (P\<lparr>px_mgr := tr\<rparr>)) (\<lambda>(_, P). reregister_conns m us P))"
    proof (rule runs_bind [OF delete_connection_sdk_map [OF inv assms(2)]], clarify)
      fix e P1 assume 1: "px_inv V X P1" "sdk_frame (P\<lparr>px_mgr := tr\<rparr>) P1"
      show "runs (\<lambda>P'. px_inv V X P' \<and> sdk_frame (P\<lparr>px_mgr := tr\<rparr>) P') (reregister_conns m us P1)"
        by (rule runs_mono [OF Cons.IH [OF 1(1)]]) (use 1(2) sdk_frame_trans in blast)
    qed
    ultimately show ?thesis using Cons.IH [OF inv] by (simp add: sdk_frame_def Let_def)
  qed
qed simp

lemma delete_bridges_inv:
  assumes "px_inv V X P" and "alloc_ok (m_alloc m)"
  shows "runs (\<lambda>P'. px_inv V X P' \<and> px_M P' = px_M P |` (- Inr ` set bs) \<and> px_groups P' = px_groups P \<and> cfg_frame P P')
    (delete_bridges m bs P)"
proof -
  have "delete_bridges m bs P = each (drop_bridge m) bs P" for bs P
  proof (induction bs arbitrary: P)
    case (Cons b bs)
    then show ?case by (cases "delete_bridge m b P") (auto simp: drop_bridge_def)
  qed simp
  then show ?thesis using drop_bridges_inv [OF assms] by simp
qed

text \<open>
  When the local manager shuts down, every connection of an application is deleted: none is left in the
  registry of the SDK, whatever the order of the hash map, whether the agent answers or not.
\<close>

theorem local_shutdown_deletes_all:
  assumes "proxy_ok P" and "alloc_ok (m_alloc m)" and "ord_ok m"
  shows "runs (\<lambda>P'. proxy_ok P' \<and> (\<forall>u. reg_get u (px_sdk P') = 0)) (local_manager_shutdown m P)"
proof -
  have inv: "px_inv (owner (px_cfg P)) {} P" using assms(1) by (simp add: proxy_ok_def)
  have "set (m_ord m (map fst (px_sdk P))) = fst ` set (px_sdk P)" using ord_okD(1) [OF assms(3)] by simp
  moreover have "reg_map (px_sdk P) u = None" if "u \<notin> fst ` set (px_sdk P)" for u
    using that by (simp add: reg_map_def map_of_eq_None_iff [symmetric])
  ultimately have all: "(reg_map (px_sdk P) |` (- set (reg_get_all_ids (m_ord m) (px_sdk P)))) u = None" for u
    by (simp add: reg_get_all_ids_def restrict_map_def)
  show ?thesis unfolding local_manager_shutdown_def
    by (rule runs_mono [OF delete_conns_inv [OF inv assms(2)]])
      (use assms(1) all in \<open>simp add: proxy_ok_def sdk_frame_def px_G_def reg.get_zero\<close>)
qed

section \<open>The threads of the bridges\<close>

lemma rdma_establish_conn:
  assumes "rdma_on_establish K env rd tr = (r, rd', tr')"
  shows "o_link (rd_conn rd') = o_link (rd_conn rd) \<and> o_class (rd_conn rd') = o_class (rd_conn rd) \<and> o_kind (rd_conn rd') = o_kind (rd_conn rd)"
proof (cases "rd_init rd")
  case True
  then show ?thesis using assms by (auto simp: rdma_on_establish_def)
next
  case False
  then show ?thesis using on_establish_state [OF assms] by (auto split: if_splits)
qed

lemma st_establish_conn:
  assumes "st_on_establish M env dev s tr = (r, dev', s', tr')"
  shows "o_link (st_conn s') = o_link (st_conn s) \<and> o_class (st_conn s') = o_class (st_conn s) \<and> o_kind (st_conn s') = o_kind (st_conn s)"
  using assms by (auto simp: st_on_establish_def Let_def split_def st_close_def split: if_splits)

lemma bridge_establish_cases:
  assumes "bridge_establish_thread m a P = Ret P'"
  obtains c c' q x y z where "w_objs (px_world P) a = Some c" "\<And>L. px_parts P a \<noteq> Some (PLocal L)"
    "o_link c' = o_link c" "o_class c' = o_class c" "o_kind c' = o_kind c"
    "P' = P\<lparr>px_mtl_dev := x, px_mtl := y, px_fab := z, px_world := put_obj a c' (px_world P), px_parts := (px_parts P)(a \<mapsto> q)\<rparr>"
proof -
  obtain c p where c: "w_objs (px_world P) a = Some c" "px_parts P a = Some p"
    using assms by (auto simp: bridge_establish_thread_def split: option.splits)
  show thesis
  proof (cases p)
    case (PLocal L)
    then show thesis using assms c by (simp add: bridge_establish_thread_def)
  next
    case (PSt s)
    obtain r dev s' tr where e: "st_on_establish (m_mtl_fns m) (m_mtl m) (px_mtl_dev P) (s\<lparr>st_conn := c\<rparr>) (px_mtl P) = (r, dev, s', tr)"
      by (metis prod_cases4)
    show thesis
      by (rule that [where c = c and c' = "st_conn s'" and q = "PSt s'" and x = dev and y = tr and z = "px_fab P"])
        (use c PSt st_establish_conn [OF e] assms e in \<open>auto simp: bridge_establish_thread_def\<close>)
  next
    case (PRdmaTx rd)
    obtain r rd' tr where e: "rdma_on_establish (m_consts m) (m_fab m) (rd\<lparr>rd_conn := c\<rparr>) (px_fab P) = (r, rd', tr)"
      by (metis prod_cases3)
    show thesis
      by (rule that [where c = c and c' = "rd_conn rd'" and q = "PRdmaTx rd'" and x = "px_mtl_dev P" and y = "px_mtl P" and z = tr])
        (use c PRdmaTx rdma_establish_conn [OF e] assms e in \<open>auto simp: bridge_establish_thread_def\<close>)
  next
    case (PRdmaRx rd)
    obtain r rd' tr where e: "rdma_on_establish (m_consts m) (m_fab m) (rd\<lparr>rd_conn := c\<rparr>) (px_fab P) = (r, rd', tr)"
      by (metis prod_cases3)
    show thesis
      by (rule that [where c = c and c' = "rd_conn rd'" and q = "PRdmaRx rd'" and x = "px_mtl_dev P" and y = "px_mtl P" and z = tr])
        (use c PRdmaRx rdma_establish_conn [OF e] assms e in \<open>auto simp: bridge_establish_thread_def\<close>)
  qed
qed

text \<open>The thread of \<open>establish_async\<close> changes the state of its bridge and nothing the managers look at.\<close>

lemma bridge_establish_inv:
  assumes "px_inv V X P" and "a \<in> plain (nodes (px_world P))" and "bridge_establish_thread m a P = Ret P'"
  shows "px_inv V X P'" "px_M P' = px_M P" "px_groups P' = px_groups P" "cfg_frame P P'"
proof -
  obtain c c' q x y z where c: "w_objs (px_world P) a = Some c" "\<And>L. px_parts P a \<noteq> Some (PLocal L)"
    "o_link c' = o_link c" "o_class c' = o_class c" "o_kind c' = o_kind c"
    and P': "P' = P\<lparr>px_mtl_dev := x, px_mtl := y, px_fab := z, px_world := put_obj a c' (px_world P), px_parts := (px_parts P)(a \<mapsto> q)\<rparr>"
    by (rule bridge_establish_cases [OF assms(3)], rule that)
  have n: "nodes (px_world P) a = Some (node_of c)" "\<not> n_group (node_of c)" using assms(2) c(1) by (auto simp: plain_iff nodes_def)
  then have "node_of c' = node_of c" using c(3-5) by (auto simp: node_of_def group_outputs_def split: conn_class.splits)
  moreover have "dap_ready (o_link c')" using px_invD(1) [OF assms(1)] c(1,3) by (auto simp: plane_ok_def)
  ultimately have w: "plane_ok (put_obj a c' (px_world P))" "nodes (put_obj a c' (px_world P)) = nodes (px_world P)"
    using plane_ok_same [OF px_invD(1) [OF assms(1)] c(1), of c'] c(4) n by auto
  have M: "px_M P' = px_M P" "px_G P' = px_G P" by (simp_all add: P' px_M_def px_G_def)
  have "locals_ok P'"
  proof (rule locals_ok_upd [OF px_invD(3) [OF assms(1)]])
    fix l b assume "reg_map (px_local P) l = Some b"
    then have "b \<noteq> a" using px_invD(3) [OF assms(1)] c(2) unfolding locals_ok_def by blast
    then show "px_parts P' b = px_parts P b \<and> px_ids P' b = px_ids P b" by (simp add: P')
  qed (simp_all add: P')
  moreover have "dying_ok P'"
    by (rule dying_ok_upd [OF px_invD(7) [OF assms(1)]]) (use M w(2) in \<open>auto simp: P'\<close>)
  ultimately show "px_inv V X P'" using px_invD [OF assms(1)] w M by (simp add: px_inv_def) (simp add: P')
  show "px_M P' = px_M P" "px_groups P' = px_groups P" "cfg_frame P P'" using M by (simp_all add: P' cfg_frame_def)
qed

text \<open>The thread of \<open>shutdown_async\<close> deletes a bridge nobody refers to.\<close>

lemma bridge_shutdown_cases:
  assumes "bridge_shutdown_thread m a P = Ret P'"
  obtains t P1 where "outer_only (P\<lparr>px_mtl := t, px_dying := removeAll a (px_dying P)\<rparr>) P1" "P' = delete_conn a P1"
    "\<And>L. px_parts P a \<noteq> Some (PLocal L)"
proof -
  let ?Q = "\<lambda>t. P\<lparr>px_mtl := t, px_dying := removeAll a (px_dying P)\<rparr>"
  let ?R = "\<lambda>t. P\<lparr>px_fab := t, px_dying := removeAll a (px_dying P)\<rparr>"
  have R: "outer_only (?Q (px_mtl P)) (destroy_part m p (?R t))" for p t
  proof (rule outer_only_trans [OF _ destroy_part_outer])
    show "outer_only (?Q (px_mtl P)) (?R t)" by (simp add: outer_only_def)
  qed
  obtain c p where c: "w_objs (px_world P) a = Some c" "px_parts P a = Some p"
    using assms by (auto simp: bridge_shutdown_thread_def split: option.splits)
  show thesis
  proof (cases p)
    case (PLocal L)
    then show thesis using assms c by (simp add: bridge_shutdown_thread_def)
  next
    case (PSt s)
    obtain r s' tr where e: "st_on_shutdown (m_mtl m) (s\<lparr>st_conn := c\<rparr>) (px_mtl P) = Some (r, s', tr)"
      using assms c PSt by (auto simp: bridge_shutdown_thread_def split: option.splits)
    show thesis
      by (rule that [OF destroy_part_outer [of "?Q tr" m "PSt s'"]])
        (use assms c PSt e in \<open>simp_all add: bridge_shutdown_thread_def\<close>)
  next
    case (PRdmaTx rd)
    obtain r rd' tr where e: "rdma_on_shutdown (m_fab m) (rd\<lparr>rd_conn := c\<rparr>) (px_fab P) = (r, rd', tr)" by (metis prod_cases3)
    show thesis
      by (rule that [OF R [of "PRdmaTx rd'" tr]]) (use assms c PRdmaTx e in \<open>simp_all add: bridge_shutdown_thread_def\<close>)
  next
    case (PRdmaRx rd)
    obtain r rd' tr where e: "rdma_on_shutdown (m_fab m) (rd\<lparr>rd_conn := c\<rparr>) (px_fab P) = (r, rd', tr)" by (metis prod_cases3)
    show thesis
      by (rule that [OF R [of "PRdmaRx rd'" tr]]) (use assms c PRdmaRx e in \<open>simp_all add: bridge_shutdown_thread_def\<close>)
  qed
qed

lemma bridge_shutdown_inv:
  assumes "px_inv V X P" and "a \<in> set (px_dying P)" and "bridge_shutdown_thread m a P = Ret P'"
  shows "px_inv V X P'" "px_M P' = px_M P" "px_groups P' = px_groups P" "cfg_frame P P'"
proof -
  obtain t P1 where o: "outer_only (P\<lparr>px_mtl := t, px_dying := removeAll a (px_dying P)\<rparr>) P1" and P': "P' = delete_conn a P1"
    and np: "\<And>L. px_parts P a \<noteq> Some (PLocal L)" using bridge_shutdown_cases [OF assms(3)] by blast
  note s = outer_only_sel [OF o]
  have M: "px_M P' = px_M P" "px_G P' = px_G P" using s by (simp_all add: P' delete_conn_def px_M_def px_G_def)
  have w: "plane_ok (px_world P')" "nodes (px_world P') = (nodes (px_world P))(a := None)"
    using delete_obj_ok [OF px_invD(1) [OF assms(1)], of a] s by (simp_all add: P' delete_conn_def)
  have d: "\<And>i. px_M P i \<noteq> Some a" "a \<in> plain (nodes (px_world P))"
    using px_invD(7) [OF assms(1)] assms(2) unfolding dying_ok_def by blast+
  have g: "px_G P h \<noteq> Some a" for h
    using members_okD(4) [OF px_invD(2) [OF assms(1)], of h a] d(2) by (auto simp: group_node_ok_def plain_iff)
  have "members_ok (px_M P') (px_G P') V X (nodes (px_world P'))" unfolding M w(2)
    by (rule members_ok_forget [OF px_invD(2) [OF assms(1)] d(1) g])
  moreover have "locals_ok P'"
  proof (rule locals_ok_upd [OF px_invD(3) [OF assms(1)]])
    fix l b assume "reg_map (px_local P) l = Some b"
    then have "b \<noteq> a" using px_invD(3) [OF assms(1)] np unfolding locals_ok_def by blast
    then show "px_parts P' b = px_parts P b \<and> px_ids P' b = px_ids P b" using s by (simp add: P' delete_conn_def)
  qed (use s in \<open>simp_all add: P' delete_conn_def\<close>)
  moreover have "dying_ok P'"
  proof -
    have "px_dying P' = removeAll a (px_dying P)" using s(11) by (simp add: P' delete_conn_def)
    moreover have "x \<in> plain ((nodes (px_world P))(a := None))" if "x \<in> plain (nodes (px_world P))" "x \<noteq> a" for x
      using that by (simp add: plain_iff)
    ultimately show ?thesis using px_invD(7) [OF assms(1)] unfolding dying_ok_def M w(2) by auto
  qed
  ultimately show "px_inv V X P'" using px_invD(4-6) [OF assms(1)] w(1) s by (simp add: px_inv_def) (simp add: P' delete_conn_def)
  show "px_M P' = px_M P" "px_groups P' = px_groups P" "cfg_frame P P'"
    using M s by (simp_all add: P' delete_conn_def cfg_frame_def)
qed

section \<open>Any sequence of requests\<close>

datatype proxy_op = OpCreate | OpActivate | OpDelete | OpReregister | OpConfig mp_config | OpStopLocal | OpStopBridges
  | OpBridgeUp u64 | OpBridgeDown u64

definition mgr_ok :: "mgr \<Rightarrow> bool" where
  "mgr_ok m \<longleftrightarrow> alloc_ok (m_alloc m) \<and> ord_ok m"

text \<open>The agent answers with unused identifiers, sends well-formed configurations and does not delete
  groups with registered connections; a configuration that ends for lack of memory ends the run. The
  thread of \<open>establish_async\<close> is a step of a registered bridge or of one that is being shut down, which
  waits for it; the thread of \<open>shutdown_async\<close> ends with the deletion of its bridge. The surroundings \<open>m\<close>
  may be different in every step.\<close>

inductive proxy_step :: "proxy \<Rightarrow> proxy_op \<Rightarrow> proxy \<Rightarrow> bool" where
  ps_create: "mgr_ok m \<Longrightarrow> agent_fresh m (owner (px_cfg P)) P \<Longrightarrow> create_connection_sdk m hp cfg P = (res, P') \<Longrightarrow>
    proxy_step P OpCreate P'"
| ps_activate: "mgr_ok m \<Longrightarrow> activate_connection_sdk u P = Ret (e, P') \<Longrightarrow> proxy_step P OpActivate P'"
| ps_delete: "mgr_ok m \<Longrightarrow> delete_connection_sdk m u d P = Ret (e, P') \<Longrightarrow> proxy_step P OpDelete P'"
| ps_config: "mgr_ok m \<Longrightarrow> cfg_ok new \<Longrightarrow> no_orphans P new \<Longrightarrow> apply_config m False new P = Ret (success, P') \<Longrightarrow>
    proxy_step P (OpConfig new) P'"
| ps_reregister: "mgr_ok m \<Longrightarrow> reregister_all_connections m P = Ret P' \<Longrightarrow> proxy_step P OpReregister P'"
| ps_stop_local: "mgr_ok m \<Longrightarrow> local_manager_shutdown m P = Ret P' \<Longrightarrow> proxy_step P OpStopLocal P'"
| ps_stop_bridges: "mgr_ok m \<Longrightarrow> bridges_manager_shutdown m P = Ret P' \<Longrightarrow> proxy_step P OpStopBridges P'"
| ps_bridge_up: "px_M P (Inr b) = Some a \<or> a \<in> set (px_dying P) \<Longrightarrow> bridge_establish_thread m a P = Ret P' \<Longrightarrow>
    proxy_step P (OpBridgeUp a) P'"
| ps_bridge_down: "a \<in> set (px_dying P) \<Longrightarrow> bridge_shutdown_thread m a P = Ret P' \<Longrightarrow> proxy_step P (OpBridgeDown a) P'"

inductive_cases proxy_stepE: "proxy_step P l P'"

text \<open>The proxy when it starts: nothing is registered; the rest is arbitrary.\<close>

definition proxy_start :: "proxy \<Rightarrow> bool" where
  "proxy_start P \<longleftrightarrow> px_world P = \<lparr>w_objs = Map.empty, w_lists = Map.empty, w_log = []\<rparr> \<and> px_sdk P = [] \<and> px_local P = [] \<and>
     px_bridges P = [] \<and> px_groups P = [] \<and> px_dying P = [] \<and> px_cfg P = \<lparr>mp_groups = [], mp_bridges = []\<rparr>"

lemma proxy_start_ok: "proxy_start P \<Longrightarrow> proxy_ok P"
  by (auto simp: proxy_start_def proxy_ok_def px_inv_def plane_ok_def nodes_def members_ok_def px_M_def px_G_def reg_map_def
      locals_ok_def reg_ok_def dying_ok_def cfg_ok_def bridges_known_def split: sum.splits)

lemma resume_node: "\<not> n_group (node_of c) \<Longrightarrow> node_of (snd (resume c)) = node_of c \<and> o_link (snd (resume c)) = o_link c \<and>
    o_class (snd (resume c)) = o_class c"
  by (auto simp: resume_def node_of_state)

lemma activate_inv:
  assumes "px_inv V X P"
  shows "runs (\<lambda>(e, P'). px_inv V X P' \<and> px_M P' = px_M P \<and> px_groups P' = px_groups P \<and> cfg_frame P P') (activate_connection_sdk u P)"
proof (cases "reg_map (px_sdk P) u")
  case None
  then show ?thesis using assms by (simp add: activate_connection_sdk_def reg.get_zero)
next
  case (Some a)
  then have ra: "reg_get u (px_sdk P) = a" "a \<noteq> 0" using reg.get_Some [OF Some] by auto
  have "reg_map (px_local P) (px_ids P a) = Some a" using px_invD(3) [OF assms] Some unfolding locals_ok_def by blast
  then have "px_M P (Inl (px_ids P a)) = Some a" by simp
  then obtain n where n: "nodes (px_world P) a = Some n" "\<not> n_group n" using px_node [OF assms] by metis
  then obtain c where c: "w_objs (px_world P) a = Some c" "n = node_of c" by (auto simp: nodes_def)
  note r = resume_node [of c]
  have "dap_ready (o_link c)" using px_invD(1) [OF assms] c(1) by (auto simp: plane_ok_def)
  then have w: "plane_ok (put_obj a (snd (resume c)) (px_world P))" "nodes (put_obj a (snd (resume c)) (px_world P)) = nodes (px_world P)"
    using plane_ok_same [OF px_invD(1) [OF assms] c(1), of "snd (resume c)"] r n c(2) by auto
  have "dying_ok (P\<lparr>px_world := put_obj a (snd (resume c)) (px_world P)\<rparr>)"
    by (rule dying_ok_world [OF px_invD(7) [OF assms]]) (simp add: w)
  then show ?thesis using ra c(1) w px_invD [OF assms]
    by (auto simp: activate_connection_sdk_def px_inv_def locals_ok_def px_M_def px_G_def cfg_frame_def)
qed

lemma runs_not_crash: "runs Q m \<Longrightarrow> m \<noteq> Crash"
  by auto

lemma runsD: "runs Q m \<Longrightarrow> m = Ret x \<Longrightarrow> Q x"
  by simp

lemma proxy_step_ok:
  assumes "proxy_ok P" and "proxy_step P l P'"
  shows "proxy_ok P'"
proof -
  have inv: "px_inv (owner (px_cfg P)) {} P" using assms(1) by (simp add: proxy_ok_def)
  from assms(2) show ?thesis
  proof cases
    case (ps_create m hp cfg res)
    obtain e u ps err where "res = (e, u, ps, err)" by (metis prod_cases4)
    with ps_create have run: "create_connection_sdk m hp cfg P = ((e, u, ps, err), P')" and al: "alloc_ok (m_alloc m)"
      by (simp_all add: mgr_ok_def)
    note c = create_connection_inv [OF inv al ps_create(3) run]
    show ?thesis using assms(1) c by (simp add: proxy_ok_def px_G_def)
  next
    case (ps_activate m u e)
    from runsD [OF activate_inv [OF inv, of u] ps_activate(3)] assms(1) show ?thesis
      by (auto simp: proxy_ok_def cfg_frame_def px_G_def)
  next
    case (ps_delete m u d e)
    then have al: "alloc_ok (m_alloc m)" by (simp add: mgr_ok_def)
    from runsD [OF delete_connection_inv [OF inv al, of u d] ps_delete(3)] assms(1) show ?thesis
      by (auto simp: proxy_ok_def px_G_def)
  next
    case (ps_config m new)
    from runsD [OF apply_config_ok [OF assms(1) ps_config(3,4)] ps_config(5)] ps_config(2) show ?thesis by (simp add: mgr_ok_def)
  next
    case (ps_reregister m)
    then have al: "alloc_ok (m_alloc m)" by (simp add: mgr_ok_def)
    from runsD [OF reregister_conns_inv [OF inv al] ps_reregister(3) [unfolded reregister_all_connections_def]] assms(1) show ?thesis
      by (auto simp: proxy_ok_def sdk_frame_def px_G_def)
  next
    case (ps_stop_local m)
    then have al: "alloc_ok (m_alloc m)" by (simp add: mgr_ok_def)
    from runsD [OF delete_conns_inv [OF inv al] ps_stop_local(3) [unfolded local_manager_shutdown_def]] assms(1) show ?thesis
      by (auto simp: proxy_ok_def sdk_frame_def px_G_def)
  next
    case (ps_stop_bridges m)
    then have al: "alloc_ok (m_alloc m)" by (simp add: mgr_ok_def)
    from runsD [OF delete_bridges_inv [OF inv al] ps_stop_bridges(3) [unfolded bridges_manager_shutdown_def]] assms(1) show ?thesis
      by (auto simp: proxy_ok_def cfg_frame_def px_G_def restrict_map_def)
  next
    case (ps_bridge_up b a m)
    have "a \<in> plain (nodes (px_world P))"
    proof (cases "a \<in> set (px_dying P)")
      case True
      then show ?thesis using px_invD(7) [OF inv] unfolding dying_ok_def by blast
    next
      case False
      then obtain n where "nodes (px_world P) a = Some n" "\<not> n_group n" using ps_bridge_up(2) px_node [OF inv] by metis
      then show ?thesis by (simp add: plain_iff)
    qed
    from bridge_establish_inv [OF inv this ps_bridge_up(3)] assms(1) show ?thesis
      by (auto simp: proxy_ok_def cfg_frame_def px_G_def)
  next
    case (ps_bridge_down a m)
    from bridge_shutdown_inv [OF inv ps_bridge_down(2,3)] assms(1) show ?thesis
      by (auto simp: proxy_ok_def cfg_frame_def px_G_def)
  qed
qed

interpretation px: inductive_invariant proxy_start proxy_step proxy_ok
  by unfold_locales (auto intro: proxy_start_ok proxy_step_ok)

text \<open>
  C18. Let applications create, activate and delete connections and let the agent send configurations, in
  any order, also with connections registered again, managers shut down, and the threads that bring up
  bridges and delete them running in between, provided that the agent gives new connections unused
  identifiers, sends well-formed configurations and does not delete a group while a registered connection
  belongs to it, and that no configuration has failed for lack of memory. Then no request makes the proxy follow a pointer to a deleted object: activating or deleting a connection does
  not, nor does any further configuration of that kind; and every registered connection stays linked to
  the group the current configuration gives it, or to none if it gives none.
\<close>

theorem proxy_never_dangles:
  assumes "reach proxy_start proxy_step P" and "mgr_ok m"
  shows "activate_connection_sdk u P \<noteq> Crash \<and> delete_connection_sdk m u d P \<noteq> Crash \<and>
    (\<forall>new. cfg_ok new \<and> no_orphans P new \<longrightarrow> apply_config m False new P \<noteq> Crash) \<and>
    (\<forall>c a. reg_map (px_local P) c = Some a \<longrightarrow> (\<exists>n. nodes (px_world P) a = Some n \<and>
       (case owner (px_cfg P) (Inl c) of None \<Rightarrow> n_link n = 0 | Some g \<Rightarrow> reg_map (px_groups P) g = Some (n_link n))))"
proof -
  have ok: "proxy_ok P" by (rule px.inv_reach [OF assms(1)])
  then have inv: "px_inv (owner (px_cfg P)) {} P" by (simp add: proxy_ok_def)
  have al: "alloc_ok (m_alloc m)" "ord_ok m" using assms(2) by (simp_all add: mgr_ok_def)
  have "\<exists>n. nodes (px_world P) a = Some n \<and>
       (case owner (px_cfg P) (Inl c) of None \<Rightarrow> n_link n = 0 | Some g \<Rightarrow> reg_map (px_groups P) g = Some (n_link n))"
    if "reg_map (px_local P) c = Some a" for c a
    using px_node [OF inv, of "Inl c" a] that by (auto simp: member_node_ok_def px_G_def)
  then show ?thesis
    using runs_not_crash [OF activate_inv [OF inv]] runs_not_crash [OF delete_connection_inv [OF inv al(1)]]
      runs_not_crash [OF apply_config_ok [OF ok _ _ al]] by blast
qed

section \<open>One run\<close>

text \<open>An allocator with four addresses, and surroundings in which every call works.\<close>

definition demo_alloc :: "world \<Rightarrow> u64" where
  "demo_alloc w = (case find (\<lambda>a. w_objs w a = None \<and> w_lists w a = None) [16, 32, 48, 64] of None \<Rightarrow> 0 | Some a \<Rightarrow> a)"

definition demo_mgr :: mgr where
  "demo_mgr = \<lparr>m_alloc = demo_alloc, m_ord = (\<lambda>xs. xs),
     m_env = (\<lambda>_ _. \<lparr>mg_ret = 0, mg_bytes = replicate 16 0, mg_ptr = 8, mg_id = ''c'', mg_err = []\<rparr>),
     m_shm = (\<lambda>_ _. ok_memif), m_mtl = no_start, m_mtl_fns = mtl_fns0,
     m_fab = (\<lambda>_ _. \<lparr>ret = 0, out = 8, val = 0, src_len = 0, dst_len = 0, out_info = tcp_info, out_tx_attr = 0, out_rx_attr = 0\<rparr>),
     m_consts = libfabric_2_0, m_st_dev_port = ''0000:31:00.0'', m_st_ip = ''10.0.0.1'', m_rdma_ip = ''10.0.0.2''\<rparr>"

definition demo_start :: proxy where
  "demo_start = \<lparr>px_world = \<lparr>w_objs = Map.empty, w_lists = Map.empty, w_log = []\<rparr>, px_parts = Map.empty,
     px_ids = (\<lambda>_. []), px_conf = (\<lambda>_. config0), px_sdk = [], px_local = [], px_bridges = [], px_groups = [],
     px_cfg = \<lparr>mp_groups = [], mp_bridges = []\<rparr>, px_dying = [], px_session_id = 0, px_mtl_dev = 0, px_rdma_users = 0,
     px_mgr = [], px_shm = [], px_mtl = [], px_fab = []\<rparr>"

text \<open>An application that receives connects; then the agent makes a group for it.\<close>

definition demo_request :: Config where
  "demo_request = config0\<lparr>x_kind := 1, x_buf_parts := parts0\<rparr>"

definition demo_connected :: proxy where
  "demo_connected = snd (create_connection_sdk demo_mgr True demo_request demo_start)"

definition demo_config :: mp_config where
  "demo_config = \<lparr>mp_groups = [(''g'', \<lparr>gc_conn_ids = [''c''], gc_bridge_ids = []\<rparr>)], mp_bridges = []\<rparr>"

definition demo_grouped :: proxy where
  "demo_grouped = (case apply_config demo_mgr False demo_config demo_connected of Ret (_, P) \<Rightarrow> P | _ \<Rightarrow> demo_start)"

definition demo_uid :: string where
  "demo_uid = generate_uuid_v4 (replicate 16 0)"

definition demo_removal :: GroupChangeConfig where
  "demo_removal = \<lparr>ch_group_id = ''g'', ch_added_conn_ids = [], ch_deleted_conn_ids = [''c''], ch_added_bridge_ids = [],
     ch_deleted_bridge_ids = []\<rparr>"

lemma demo_alloc_ok: "alloc_ok demo_alloc"
  by (auto simp: alloc_ok_def demo_alloc_def aligned_iff split: if_splits)

lemma demo_mgr_ok: "mgr_ok demo_mgr"
  by (simp add: mgr_ok_def demo_mgr_def demo_alloc_ok ord_ok_def)

lemma demo_cfg_ok: "cfg_ok demo_config"
  by (simp add: cfg_ok_def demo_config_def bridges_known_def)

lemma demo_run:
  "fst (fst (create_connection_sdk demo_mgr True demo_request demo_start)) = 0"
  "case apply_config demo_mgr False demo_config demo_connected of Ret (r, _) \<Rightarrow> r = success | _ \<Rightarrow> False"
  "case remove_group demo_mgr demo_removal demo_grouped of Ret _ \<Rightarrow> True | _ \<Rightarrow> False"
  by code_simp+

lemma demo_grouped_facts:
  "reg_map (px_local demo_grouped) ''c'' = Some 16" "reg_map (px_sdk demo_grouped) demo_uid = Some 16"
  "px_cfg demo_grouped = demo_config" "px_G demo_grouped ''g'' = Some 32"
  "map_option n_kind (nodes (px_world demo_grouped) 16) = Some Ktransmitter"
  "map_option n_outs (nodes (px_world demo_grouped) 32) = Some [16]"
  by code_simp+

lemma demo_apply: "apply_config demo_mgr False demo_config demo_connected = Ret (success, demo_grouped)"
  using demo_run(2) by (simp add: demo_grouped_def split: run.splits prod.splits)

lemma demo_connected_step: "proxy_step demo_start OpCreate demo_connected"
proof (rule ps_create [OF demo_mgr_ok])
  show "agent_fresh demo_mgr (owner (px_cfg demo_start)) demo_start"
    by (simp add: agent_fresh_def demo_start_def owner_def reg_map_def)
  show "create_connection_sdk demo_mgr True demo_request demo_start =
    (fst (create_connection_sdk demo_mgr True demo_request demo_start), demo_connected)"
    by (simp add: demo_connected_def)
qed

lemma demo_connected_cfg: "px_cfg demo_connected = \<lparr>mp_groups = [], mp_bridges = []\<rparr>"
  by code_simp

lemma demo_no_orphans: "no_orphans demo_connected new"
  by (simp add: no_orphans_def demo_connected_cfg)

lemma demo_start_reach: "reach proxy_start proxy_step demo_start"
  by (rule reach_init) (simp add: proxy_start_def demo_start_def)

lemma demo_reach: "reach proxy_start proxy_step demo_connected" "reach proxy_start proxy_step demo_grouped"
proof -
  show c: "reach proxy_start proxy_step demo_connected" by (rule reach_step [OF demo_start_reach demo_connected_step])
  have "proxy_step demo_connected (OpConfig demo_config) demo_grouped"
    by (rule ps_config [OF demo_mgr_ok demo_cfg_ok demo_no_orphans demo_apply])
  then show "reach proxy_start proxy_step demo_grouped" by (rule reach_step [OF c])
qed

theorem apply_config_realises_witness:
  "apply_config demo_mgr False demo_config demo_connected = Ret (success, demo_grouped) \<and> proxy_ok demo_grouped \<and>
     px_cfg demo_grouped = demo_config \<and> reg_map (px_groups demo_grouped) ''g'' = Some 32 \<and>
     map_option n_outs (nodes (px_world demo_grouped) 32) = Some [16]"
  using apply_config_realises [OF px.inv_reach [OF demo_reach(1)] demo_cfg_ok demo_no_orphans, of demo_mgr] demo_mgr_ok
    demo_apply demo_grouped_facts by (simp add: mgr_ok_def px_G_def)

theorem proxy_never_dangles_witness:
  "delete_connection_sdk demo_mgr demo_uid True demo_grouped \<noteq> Crash \<and> reg_map (px_local demo_grouped) ''c'' = Some 16 \<and>
     (\<exists>n. nodes (px_world demo_grouped) 16 = Some n \<and> reg_map (px_groups demo_grouped) ''g'' = Some (n_link n))"
proof -
  have "owner demo_config (Inl ''c'') = Some ''g''" by (simp add: owner_def demo_config_def ids_of_def)
  then show ?thesis
    using proxy_never_dangles [OF demo_reach(2) demo_mgr_ok, of demo_uid True] demo_grouped_facts by fastforce
qed

theorem cancelled_config_lost_witness:
  "\<exists>P'. apply_config demo_mgr True demo_config demo_connected = Ret (error_context_cancelled, P') \<and>
     apply_config demo_mgr False demo_config P' = Ret (success, P') \<and> px_groups P' = []"
proof -
  have "px_groups demo_connected = []" by code_simp
  then show ?thesis using cancelled_config_lost [OF demo_cfg_ok, of demo_mgr demo_connected] demo_mgr_ok by (auto simp: mgr_ok_def)
qed


theorem local_shutdown_deletes_all_witness:
  "reg_get demo_uid (px_sdk demo_grouped) = 16 \<and>
     (\<exists>P'. local_manager_shutdown demo_mgr demo_grouped = Ret P' \<and> proxy_ok P' \<and> reg_get demo_uid (px_sdk P') = 0)"
proof -
  have "case local_manager_shutdown demo_mgr demo_grouped of Ret _ \<Rightarrow> True | _ \<Rightarrow> False" by code_simp
  then show ?thesis
    using local_shutdown_deletes_all [OF px.inv_reach [OF demo_reach(2)], of demo_mgr] demo_mgr_ok reg.get_Some [OF demo_grouped_facts(2)]
    by (auto simp: mgr_ok_def split: run.splits)
qed

end
