(* ===== verification/Spec2Isabelle.thy ===== *)
theory Spec2Isabelle
  imports Fabric_Dev Multipoint Proxy_Config Ffmpeg_Plugin Rdma_Frames Proxy_Life
begin

text \<open>
  Media Communications Mesh: a model of the C and C++ code that carries media between applications.

  \<^bold>\<open>The program.\<close> An application links the SDK (src/sdk) or the FFmpeg plugin (src/ffmpeg-plugin). The SDK
  asks the media proxy of the host (src/media-proxy) for a connection, over gRPC or over a socket,
  and then exchanges buffers with it through shared memory (libmemif). The proxy joins connections
  into multipoint groups and reaches other hosts over RDMA (libfabric) or SMPTE ST 2110. The
  control-plane agent, a Go program, decides which groups exist.

  \<^bold>\<open>Theories and sources.\<close>

  \<^item> \<open>Prelude\<close>: calls of code outside the repository as an environment that answers from the trace of
    earlier calls (\<open>ext_call\<close>), ledgers of handles, the locale of inductive invariants.
    \<open>Memory\<close>: bytes by address, little-endian words.
  \<^item> \<open>Dataplane_Ptr\<close> (mesh/sync.cc): the pointer that the hot path reads without a mutex, first each
    atomic access, then the methods, then all interleavings of one hot path and any number of
    writers as a step relation. The locale \<open>pointer_cell\<close> is what the other theories use of it.
  \<^item> \<open>Fabric_Base\<close>, \<open>Fabric_Cq\<close>, \<open>Fabric_Mr\<close>, \<open>Fabric_Ep\<close>, \<open>Fabric_Dev\<close> (libfabric_cq.c, libfabric_mr.c,
    libfabric_ep.c, libfabric_dev.c): completion queues, registered memory, endpoints, the device.
  \<^item> \<open>Connection\<close> (mesh/conn.cc, conn.h): the class \<open>Connection\<close>, its states, the hot path
    \<open>transmit\<close> / \<open>do_receive\<close>, links and telemetry; the locale \<open>conn_backend\<close> states what the virtual
    methods of a class owe the base class. \<open>Multipoint\<close> (mesh/multipoint.cc): groups, on a store of
    connection objects and lists.
  \<^item> \<open>Rdma_Conn\<close> (mesh/conn_rdma.cc): RDMA connections over \<open>Fabric_Dev\<close> and \<open>Fabric_Ep\<close>. \<open>Rdma_Frames\<close>
    (conn_rdma_tx.cc, conn_rdma_rx.cc): frames with sequence numbers, the reorder ring.
  \<^item> \<open>Conn_Local\<close> (mesh/conn_local.cc, conn_local_rx.cc, conn_local_tx.cc): the connections of the proxy to
    applications over shared memory. \<open>St2110\<close> (mesh/st2110.cc, st2110.h, st2110rx.h, st2110tx.h, st2110_*.cc):
    bridges over the Media Transport Library, the conversion of parameters, frames.
  \<^item> \<open>Data_Plane\<close> (parts of mesh/manager_multipoint.cc and multipoint.cc): links between connections and groups
    as the managers change them, on the store of \<open>Multipoint\<close>, with a view of the store as a graph of
    nodes. \<open>Membership\<close>: when that graph agrees with a table of who belongs to which group.
  \<^item> \<open>Managers\<close> (mesh/conn_registry.h, uuid.cc, manager_local.cc, manager_bridges.cc): the registries and the
    managers of local connections and of bridges, on the state \<open>proxy\<close> of the whole process; the locale
    \<open>registry_spec\<close> is what the managers use of a registry. \<open>Proxy_State\<close>: the invariant of that state, kept by
    every request. \<open>Group_Manager\<close> (mesh/manager_multipoint.cc): the difference between two
    configurations and its application. \<open>Proxy_Life\<close>: all requests, and the threads of bridges, as a step
    relation.
  \<^item> \<open>Sdk_Base\<close>, \<open>Udp_Impl\<close>, \<open>Memif_Impl\<close>, \<open>Mcm_Dp\<close> (udp_impl.c, memif_impl.c, shm_memif_common.c,
    media_proxy_ctrl.c, mcm_dp.c): the data plane of the SDK.
  \<^item> \<open>Mesh_Config\<close> (mesh_conn.cc): the JSON configuration of a connection, sizes, the partitions of a
    buffer. \<open>Proxy_Config\<close> (class \<open>Config\<close> in conn.cc, mesh_sdk_api.cc): the configuration as
    messages between SDK, proxy and agent. \<open>Mesh_Sdk\<close> (mesh_dp.cc, mesh_client.cc, mesh_conn.cc,
    mesh_buf.cc): the public functions on a store of clients, connections and buffers.
  \<^item> \<open>Ffmpeg_Plugin\<close> (mcm_common.c, mcm_{audio,video}_{rx,tx}.c): the four FFmpeg formats over \<open>Mesh_Sdk\<close>.

  \<^bold>\<open>How the state corresponds.\<close> A struct or class is a record with the source's fields; a pointer is a
  number with 0 for NULL, and \<open>None\<close> stands for following a pointer to nothing. A function of
  the source is a definition of the same name (with a prefix where two classes share a name)
  that takes and returns the state and the trace of calls. Unsigned integers are words of their
  width; the signed ones are integers, in ranges where they do not overflow. A result is the
  code's own return value. Log output is left out everywhere.

  \<^bold>\<open>What is shown.\<close>

  \<^item> Concurrency (C1 to C4): in every interleaving in which each stored value differs from the one
    before, no critical section uses an older pointer when \<open>store_wait\<close> returns, replaced pointers are
    not seen again, and writers are released; and why the condition is needed.
  \<^item> The proxy as a whole (C11, C18, C26): a new configuration of the agent is realised, no request follows a
    pointer to a deleted object as long as groups are deleted after their connections, and what
    happens if they are not.
  \<^item> Resources (C9, C10, C13, C14, C19, C22, C23): which handles each path closes, errors included, and those that
    are leaked or closed twice. Beyond the numbered properties: \<open>ep_init_failure_closes_shared_cq\<close>,
    \<open>local_establish_handles\<close>.
  \<^item> Loops (C7, C12, C15, C17): that they end and after how many attempts.
  \<^item> Data (C6, C15, C16, C21, C24, C28, C30, C35, C36, C39, C40): bytes are sent completely and in order, queues are first-in
    first-out and where they overrun their array, copies into shared memory stay inside the buffer or do
    not, frames cross the proxy unchanged, groups hand each buffer to each output once, a buffer arrives with its payload and
    metadata, frames are put back into order, and a lost frame stalls the stream.
  \<^item> Meaning of configurations (C5, C20, C31 to C34): access rights, audio sizes, accepted documents, partitions, and the round trip of a configuration from the SDK to the agent.
  \<^item> States (C8, C25, C27, C29): the life cycle of connections and groups and what stays after failures.
  \<^item> Clients (C37, C38): reference counts, signal handlers.

  \<^bold>\<open>Bounds and fuel.\<close> A loop whose end depends on the environment takes fuel, and \<open>None\<close> or \<open>OutOfFuel\<close> is
  the result when it is used up. How much is enough, under stated conditions on the environment (a
  clock that advances, a socket that accepts bytes, a library that has frames), is shown for \<open>spin_loop\<close> (C7),
  \<open>udp_send_loop\<close> (C15), \<open>tx_alloc_loop\<close> (C17), \<open>rx_frame_loop\<close> and \<open>tx_get_frame\<close> (C24), \<open>audio_write_loop\<close> (C36),
  \<open>ep_recv_buf\<close> (\<open>ep_recv_buf_returns\<close>), \<open>await_connected\<close> (\<open>await_connected_returns\<close>) and \<open>rx_post\<close>
  (\<open>rx_post_returns\<close>); that no amount is, for \<open>rx_wait_loop\<close> with timeout 0 while no event arrives
  (\<open>memif_rx_dequeue_zero_timeout_blocks\<close>) and for \<open>mcm_handle_signal\<close> in the case of C38. Dispatch between
  connection objects takes the depth of the chain of links as fuel; an input, a group and an output
  need three.

  \<^bold>\<open>Not modelled.\<close> The gRPC servers and clients around the managers, metrics export, process start,
  cancellation contexts and logging. libmemif, libfabric, the Media Transport Library, the JSON parser
  and gRPC are outside the repository or vendored and appear as calls of the environment.
  Interleavings are modelled for the data-plane pointer and, at the grain of whole requests and threads of
  bridges, for the managers; elsewhere runs are sequential and the mutexes are left out.
\<close>

end
